theory Spec2Isabelle
  imports Complex_Main "HOL-Library.Word"
begin

unbundle bit_operations_syntax

section \<open>Python values, exceptions and results\<close>

text \<open>
  The module \<^verbatim>\<open>quantized_mesh_tile/terrain.py\<close> is embedded function by function.
  Python integers are \<^typ>\<open>int\<close>. A Python float is the \<^typ>\<open>real\<close> number it denotes, so
  infinities and NaN are outside the model; the rounding arithmetic of floats and their
  IEEE byte layout are not modelled and enter as parameters (\<open>env\<close> below). An exception
  is a value of type \<open>error\<close>; a call that can raise returns \<open>error + 'a\<close>, with \<open>Inl\<close> the
  exception.
\<close>

datatype error =
    IndexError
  | KeyError string
  | StructError
  | OverflowError
  | TypeError
  | ValueError
  | ZeroDivisionError
  | IOError string
  | IsADirectoryError
  | NotADirectoryError
  | FileNotFoundError
  | Exception string

type_synonym byte = "8 word"

type_synonym vec3 = "real \<times> real \<times> real"

definition bnd :: "error + 'a \<Rightarrow> ('a \<Rightarrow> error + 'b) \<Rightarrow> error + 'b" where
  "bnd m k = (case m of Inl e \<Rightarrow> Inl e | Inr x \<Rightarrow> k x)"

text \<open>Python list indexing \<^verbatim>\<open>xs[i]\<close>: a negative index counts from the end, an index out
  of range raises IndexError.\<close>

definition getidx :: "'a list \<Rightarrow> int \<Rightarrow> error + 'a" where
  "getidx xs i =
     (if 0 \<le> i \<and> i < int (length xs) then Inr (xs ! nat i)
      else if i < 0 \<and> - int (length xs) \<le> i then Inr (xs ! nat (int (length xs) + i))
      else Inl IndexError)"

text \<open>Dictionary lookup \<^verbatim>\<open>d[k]\<close> on a table kept as an association list (an
  OrderedDict): a missing key raises KeyError.\<close>

definition getitem :: "(string \<times> 'a) list \<Rightarrow> string \<Rightarrow> error + 'a" where
  "getitem d k = (case map_of d k of None \<Rightarrow> Inl (KeyError k) | Some x \<Rightarrow> Inr x)"

definition getkey :: "(string \<rightharpoonup> 'a) \<Rightarrow> string \<Rightarrow> error + 'a" where
  "getkey d k = (case d k of None \<Rightarrow> Inl (KeyError k) | Some x \<Rightarrow> Inr x)"

section \<open>The helpers imported from utils\<close>

text \<open>
  \<^verbatim>\<open>utils.py\<close> is not among the sources. Its helpers are modelled from the specification
  (sections 4.2, 4.3 and 4.7) and from the way \<^verbatim>\<open>terrain.py\<close> calls them.
\<close>

text \<open>Modelled from the spec: \<^verbatim>\<open>utils.zigZagEncode\<close>, section 4.2,
  \<^verbatim>\<open>zigzag(n) = (n << 1) XOR (n >> 31)\<close>.\<close>

definition zigZagEncode :: "int \<Rightarrow> int" where
  "zigZagEncode n = (push_bit 1 n) XOR (drop_bit 31 n)"

text \<open>Modelled from the spec: \<^verbatim>\<open>utils.zigZagDecode\<close>, section 4.2,
  \<^verbatim>\<open>unzigzag(z) = (z >> 1) XOR -(z & 1)\<close>.\<close>

definition zigZagDecode :: "int \<Rightarrow> int" where
  "zigZagDecode z = (drop_bit 1 z) XOR (- (z AND 1))"

text \<open>Modelled from the spec: \<^verbatim>\<open>utils.encodeIndices\<close>, section 4.3: keep \<open>highest = 0\<close>;
  for each raw index \<open>i\<close> the code is \<open>highest - i\<close>; a code of 0 increments \<open>highest\<close>.\<close>

fun encodeIndicesFrom :: "int \<Rightarrow> int list \<Rightarrow> int list" where
  "encodeIndicesFrom highest [] = []"
| "encodeIndicesFrom highest (i # rest) =
     (let code = highest - i
      in code # encodeIndicesFrom (if code = 0 then highest + 1 else highest) rest)"

definition encodeIndices :: "int list \<Rightarrow> int list" where
  "encodeIndices ixs = encodeIndicesFrom 0 ixs"

text \<open>Modelled from the spec: \<^verbatim>\<open>utils.decodeIndices\<close>, section 4.3: keep \<open>highest = 0\<close>;
  for each code the index is \<open>highest - code\<close>; a code of 0 increments \<open>highest\<close>.\<close>

fun decodeIndicesFrom :: "int \<Rightarrow> int list \<Rightarrow> int list" where
  "decodeIndicesFrom highest [] = []"
| "decodeIndicesFrom highest (code # rest) =
     (highest - code) # decodeIndicesFrom (if code = 0 then highest + 1 else highest) rest"

definition decodeIndices :: "int list \<Rightarrow> int list" where
  "decodeIndices codes = decodeIndicesFrom 0 codes"

text \<open>Modelled from the spec: \<^verbatim>\<open>struct.calcsize\<close> at the five format characters of the
  layout tables (section 4.7: float64, float32, uint32, uint16, uint8).\<close>

definition calcsize :: "char \<Rightarrow> nat option" where
  "calcsize ty =
     (if ty = CHR ''d'' then Some 8
      else if ty = CHR ''f'' then Some 4
      else if ty = CHR ''I'' then Some 4
      else if ty = CHR ''H'' then Some 2
      else if ty = CHR ''B'' then Some 1
      else None)"

fun le_bytes :: "nat \<Rightarrow> int \<Rightarrow> byte list" where
  "le_bytes 0 x = []"
| "le_bytes (Suc k) x = word_of_int x # le_bytes k (x div 256)"

fun le_value :: "byte list \<Rightarrow> int" where
  "le_value [] = 0"
| "le_value (b # bs) = uint b + 256 * le_value bs"

text \<open>Modelled from the spec: \<^verbatim>\<open>utils.packEntry\<close> at the unsigned integer formats
  \<^verbatim>\<open>I\<close>, \<^verbatim>\<open>H\<close>, \<^verbatim>\<open>B\<close> (section 4.7: uint32, uint16, uint8 words, least significant
  byte first as in the quantized-mesh format). A value outside the range of the word
  raises \<^verbatim>\<open>struct.error\<close>. In this module an integer is only ever packed at these three
  formats; any other format character is outside the model and reported as an error.\<close>

definition packEntry :: "char \<Rightarrow> int \<Rightarrow> error + byte list" where
  "packEntry ty x =
     (if ty = CHR ''I'' \<or> ty = CHR ''H'' \<or> ty = CHR ''B'' then
        (case calcsize ty of
           None \<Rightarrow> Inl StructError
         | Some n \<Rightarrow> if 0 \<le> x \<and> x < 256 ^ n then Inr (le_bytes n x) else Inl StructError)
      else Inl StructError)"

text \<open>Modelled from the spec: \<^verbatim>\<open>utils.unpackEntry\<close> at the unsigned integer formats. The
  stream \<open>f\<close> is the list of bytes not yet read; reading past its end raises
  \<^verbatim>\<open>struct.error\<close>. The result carries the rest of the stream.\<close>

definition unpackEntry :: "byte list \<Rightarrow> char \<Rightarrow> error + (int \<times> byte list)" where
  "unpackEntry f ty =
     (if ty = CHR ''I'' \<or> ty = CHR ''H'' \<or> ty = CHR ''B'' then
        (case calcsize ty of
           None \<Rightarrow> Inl StructError
         | Some n \<Rightarrow> if length f < n then Inl StructError
                     else Inr (le_value (take n f), drop n f))
      else Inl StructError)"

text \<open>
  The float formats \<^verbatim>\<open>d\<close> and \<^verbatim>\<open>f\<close>, and the octahedral normal codec of \<^verbatim>\<open>utils\<close>, are
  floating-point code: they are parameters of the model, collected in the record \<open>env\<close>
  together with the other code outside this module. \<open>pack_d\<close> and \<open>pack_f\<close> stand for
  \<^verbatim>\<open>struct.pack\<close> at \<^verbatim>\<open><d\<close> and \<^verbatim>\<open><f\<close> (the latter raises OverflowError on a value too
  large for a float32), \<open>unpack_d\<close> and \<open>unpack_f\<close> for \<^verbatim>\<open>struct.unpack\<close> on 8 and 4 bytes,
  \<open>octEncode\<close> and \<open>octDecode\<close> for the functions of \<^verbatim>\<open>utils\<close> of these names,
  \<open>gzipBytes\<close> for gzip compression, \<open>bSphereFromPoints\<close> for
  \<^verbatim>\<open>BoundingSphere.fromPoints\<close> (centre and radius) and \<open>occFromPoints\<close> for
  \<^verbatim>\<open>horizon_occlusion_point.fromPoints\<close>.

  The arithmetic of floats rounds: \<open>fadd\<close>, \<open>fsub\<close>, \<open>fmul\<close> and \<open>fdiv\<close> stand for \<^verbatim>\<open>+\<close>,
  \<^verbatim>\<open>-\<close>, \<^verbatim>\<open>*\<close> and \<^verbatim>\<open>/\<close> on two floats, whatever they round to. \<open>fdiv\<close> is only applied to a
  divisor other than 0: Python raises ZeroDivisionError on the divisor 0 before it
  divides. The conversion of an integer to a float is taken as exact, as it is below
  \<open>2 ^ 53\<close>; comparisons of floats and \<^verbatim>\<open>round\<close> are exact on the numbers denoted.
\<close>

record env =
  pack_d :: "real \<Rightarrow> error + byte list"
  pack_f :: "real \<Rightarrow> error + byte list"
  unpack_d :: "byte list \<Rightarrow> real"
  unpack_f :: "byte list \<Rightarrow> real"
  octEncode :: "vec3 \<Rightarrow> error + (int \<times> int)"
  octDecode :: "int \<Rightarrow> int \<Rightarrow> error + vec3"
  gzipBytes :: "byte list \<Rightarrow> byte list"
  bSphereFromPoints :: "vec3 list \<Rightarrow> error + (vec3 \<times> real)"
  occFromPoints :: "vec3 list \<Rightarrow> vec3 \<times> real \<Rightarrow> error + vec3"
  fadd :: "real \<Rightarrow> real \<Rightarrow> real"
  fsub :: "real \<Rightarrow> real \<Rightarrow> real"
  fmul :: "real \<Rightarrow> real \<Rightarrow> real"
  fdiv :: "real \<Rightarrow> real \<Rightarrow> real"

definition packEntryF :: "env \<Rightarrow> char \<Rightarrow> real \<Rightarrow> error + byte list" where
  "packEntryF fc ty x =
     (if ty = CHR ''d'' then pack_d fc x
      else if ty = CHR ''f'' then pack_f fc x
      else Inl StructError)"

definition unpackEntryF :: "env \<Rightarrow> byte list \<Rightarrow> char \<Rightarrow> error + (real \<times> byte list)" where
  "unpackEntryF fc f ty =
     (if ty = CHR ''d'' then
        (if length f < 8 then Inl StructError else Inr (unpack_d fc (take 8 f), drop 8 f))
      else if ty = CHR ''f'' then
        (if length f < 4 then Inl StructError else Inr (unpack_f fc (take 4 f), drop 4 f))
      else Inl StructError)"

text \<open>\<^verbatim>\<open>utils.packIndices(f, type, indices)\<close> writes \<^verbatim>\<open>packEntry(type, i)\<close> for each
  index in turn. A write sequence is kept as the list of its steps: each step either
  raises or yields the bytes \<^verbatim>\<open>f.write\<close> appends.\<close>

type_synonym step = "error + byte list"

fun writeAll :: "step list \<Rightarrow> byte list \<Rightarrow> error option \<times> byte list" where
  "writeAll [] f = (None, f)"
| "writeAll (Inl e # rest) f = (Some e, f)"
| "writeAll (Inr bs # rest) f = writeAll rest (f @ bs)"

definition packIndices :: "char \<Rightarrow> int list \<Rightarrow> step list" where
  "packIndices ty ixs = map (packEntry ty) ixs"

section \<open>The layout tables and the tile\<close>

definition TILEPXS :: int where
  "TILEPXS = 65536"

text \<open>\<^verbatim>\<open>lerp(p, q, time)\<close> of the module (lines 25 and 26).\<close>

definition lerp :: "env \<Rightarrow> real \<Rightarrow> real \<Rightarrow> real \<Rightarrow> real" where
  "lerp fc p q time = fadd fc (fmul fc (fsub fc 1 time) p) (fmul fc time q)"

definition quantizedMeshHeader :: "(string \<times> char) list" where
  "quantizedMeshHeader =
     [(''centerX'', CHR ''d''), (''centerY'', CHR ''d''), (''centerZ'', CHR ''d''),
      (''minimumHeight'', CHR ''f''), (''maximumHeight'', CHR ''f''),
      (''boundingSphereCenterX'', CHR ''d''), (''boundingSphereCenterY'', CHR ''d''),
      (''boundingSphereCenterZ'', CHR ''d''), (''boundingSphereRadius'', CHR ''d''),
      (''horizonOcclusionPointX'', CHR ''d''), (''horizonOcclusionPointY'', CHR ''d''),
      (''horizonOcclusionPointZ'', CHR ''d'')]"

definition vertexData :: "(string \<times> char) list" where
  "vertexData =
     [(''vertexCount'', CHR ''I''), (''uVertexCount'', CHR ''H''),
      (''vVertexCount'', CHR ''H''), (''heightVertexCount'', CHR ''H'')]"

definition indexData16 :: "(string \<times> char) list" where
  "indexData16 = [(''triangleCount'', CHR ''I''), (''indices'', CHR ''H'')]"

definition indexData32 :: "(string \<times> char) list" where
  "indexData32 = [(''triangleCount'', CHR ''I''), (''indices'', CHR ''I'')]"

definition EdgeIndices16 :: "(string \<times> char) list" where
  "EdgeIndices16 =
     [(''westVertexCount'', CHR ''I''), (''westIndices'', CHR ''H''),
      (''southVertexCount'', CHR ''I''), (''southIndices'', CHR ''H''),
      (''eastVertexCount'', CHR ''I''), (''eastIndices'', CHR ''H''),
      (''northVertexCount'', CHR ''I''), (''northIndices'', CHR ''H'')]"

definition EdgeIndices32 :: "(string \<times> char) list" where
  "EdgeIndices32 =
     [(''westVertexCount'', CHR ''I''), (''westIndices'', CHR ''I''),
      (''southVertexCount'', CHR ''I''), (''southIndices'', CHR ''I''),
      (''eastVertexCount'', CHR ''I''), (''eastIndices'', CHR ''I''),
      (''northVertexCount'', CHR ''I''), (''northIndices'', CHR ''I'')]"

definition ExtensionHeader :: "(string \<times> char) list" where
  "ExtensionHeader = [(''extensionId'', CHR ''B''), (''extensionLength'', CHR ''I'')]"

definition OctEncodedVertexNormals :: "(string \<times> char) list" where
  "OctEncodedVertexNormals = [(''xy'', CHR ''B'')]"

definition WaterMask :: "(string \<times> char) list" where
  "WaterMask = [(''xy'', CHR ''B'')]"

definition BYTESPLIT :: int where
  "BYTESPLIT = 65636"

text \<open>The class constants \<^verbatim>\<open>MIN = 0.0\<close> and \<^verbatim>\<open>MAX = 32767.0\<close>.\<close>

definition MIN_q :: real where
  "MIN_q = 0"

definition MAX_q :: real where
  "MAX_q = 32767"

text \<open>
  The attributes of a \<^verbatim>\<open>TerrainTile\<close>, under the names of the source without the leading
  underscore. \<open>hasLighting\<close> is \<open>None\<close> while the attribute is not set (the constructor does
  not set it). A cell of the water mask is \<open>None\<close> for Python's \<^verbatim>\<open>None\<close>. The caches
  \<^verbatim>\<open>_workingUnitLongitude\<close>, \<^verbatim>\<open>_workingUnitLatitude\<close> and \<^verbatim>\<open>_deltaHeight\<close> start as \<^verbatim>\<open>None\<close>.
\<close>

record tile =
  west :: real
  east :: real
  south :: real
  north :: real
  longs :: "real list"
  lats :: "real list"
  heights :: "real list"
  workingUnitLongitude :: "real option"
  workingUnitLatitude :: "real option"
  deltaHeight :: "real option"
  EPSG :: int
  vLight :: "vec3 list"
  watermask :: "int option list list"
  hasWatermask :: bool
  hasLighting :: "bool option"
  header :: "string \<rightharpoonup> real"
  u :: "int list"
  v :: "int list"
  h :: "int list"
  indices :: "int list"
  westI :: "int list"
  southI :: "int list"
  eastI :: "int list"
  northI :: "int list"

section \<open>Reading a tile: fromBytesIO\<close>

text \<open>The header loop of \<^verbatim>\<open>fromBytesIO\<close>:
  \<^verbatim>\<open>for k, v in quantizedMeshHeader.items(): self.header[k] = unpackEntry(f, v)\<close>.\<close>

fun readHeader ::
  "env \<Rightarrow> (string \<times> char) list \<Rightarrow> (string \<rightharpoonup> real) \<Rightarrow> byte list
    \<Rightarrow> error + ((string \<rightharpoonup> real) \<times> byte list)" where
  "readHeader fc [] hdr f = Inr (hdr, f)"
| "readHeader fc ((k, ty) # rest) hdr f =
     bnd (unpackEntryF fc f ty) (\<lambda>(x, f'). readHeader fc rest (hdr(k \<mapsto> x)) f')"

text \<open>\<^verbatim>\<open>_iterUnpackAndDecodeVertices\<close>: \<^verbatim>\<open>while i != vertexCount\<close> with \<open>i\<close> counting up
  from 0; the count comes from an unsigned field, so the loop is a recursion on it. The
  running \<open>delta\<close> is an argument; the values yielded are returned as a list.\<close>

fun iterUnpackAndDecodeVertices ::
  "byte list \<Rightarrow> nat \<Rightarrow> char \<Rightarrow> int \<Rightarrow> error + (int list \<times> byte list)" where
  "iterUnpackAndDecodeVertices f 0 structType delta = Inr ([], f)"
| "iterUnpackAndDecodeVertices f (Suc n) structType delta =
     bnd (unpackEntry f structType) (\<lambda>(x, f').
       bnd (iterUnpackAndDecodeVertices f' n structType (delta + zigZagDecode x))
         (\<lambda>(ys, f''). Inr ((delta + zigZagDecode x) # ys, f'')))"

text \<open>\<^verbatim>\<open>_iterUnpackIndices\<close>.\<close>

fun iterUnpackIndices :: "byte list \<Rightarrow> nat \<Rightarrow> char \<Rightarrow> error + (int list \<times> byte list)" where
  "iterUnpackIndices f 0 structType = Inr ([], f)"
| "iterUnpackIndices f (Suc n) structType =
     bnd (unpackEntry f structType) (\<lambda>(x, f').
       bnd (iterUnpackIndices f' n structType) (\<lambda>(ys, f''). Inr (x # ys, f'')))"

text \<open>\<^verbatim>\<open>_iterUnpackAndDecodeLight\<close>: \<^verbatim>\<open>xyCount = extensionLength / 2\<close> is Python 3's true
  division. For an even length the loop runs \<open>extensionLength div 2\<close> times
  (\<open>iterLightPairs\<close>). For an odd length \<^verbatim>\<open>i != xyCount\<close> never fails, and the loop reads
  pairs until a read or \<^verbatim>\<open>octDecode\<close> raises (\<open>iterLightUntilError\<close>, a recursion on a bound
  that exceeds the number of bytes left, each round consuming two).\<close>

fun iterLightPairs ::
  "env \<Rightarrow> byte list \<Rightarrow> nat \<Rightarrow> char \<Rightarrow> error + (vec3 list \<times> byte list)" where
  "iterLightPairs fc f 0 structType = Inr ([], f)"
| "iterLightPairs fc f (Suc n) structType =
     bnd (unpackEntry f structType) (\<lambda>(x, f').
       bnd (unpackEntry f' structType) (\<lambda>(y, f'').
         bnd (octDecode fc x y) (\<lambda>xy.
           bnd (iterLightPairs fc f'' n structType) (\<lambda>(ys, f3). Inr (xy # ys, f3)))))"

fun iterLightUntilError :: "env \<Rightarrow> nat \<Rightarrow> byte list \<Rightarrow> char \<Rightarrow> error" where
  "iterLightUntilError fc 0 f structType = StructError"
| "iterLightUntilError fc (Suc fuel) f structType =
     (case unpackEntry f structType of
        Inl e \<Rightarrow> e
      | Inr (x, f') \<Rightarrow>
          (case unpackEntry f' structType of
             Inl e \<Rightarrow> e
           | Inr (y, f'') \<Rightarrow>
               (case octDecode fc x y of
                  Inl e \<Rightarrow> e
                | Inr xy \<Rightarrow> iterLightUntilError fc fuel f'' structType)))"

definition iterUnpackAndDecodeLight ::
  "env \<Rightarrow> byte list \<Rightarrow> int \<Rightarrow> char \<Rightarrow> error + (vec3 list \<times> byte list)" where
  "iterUnpackAndDecodeLight fc f extensionLength structType =
     (if even extensionLength then iterLightPairs fc f (nat (extensionLength div 2)) structType
      else Inl (iterLightUntilError fc (Suc (length f)) f structType))"

text \<open>\<^verbatim>\<open>_iterUnpackWatermaskRow\<close>: \<open>n\<close> is the number of cells still to read
  (\<^verbatim>\<open>extensionLength - xyCount\<close>), \<open>i\<close> the column counter and \<open>row\<close> the row being filled.\<close>

fun iterUnpackWatermaskRow ::
  "byte list \<Rightarrow> nat \<Rightarrow> char \<Rightarrow> nat \<Rightarrow> int option list
    \<Rightarrow> error + (int option list list \<times> byte list)" where
  "iterUnpackWatermaskRow f 0 structType i row = Inr (if row \<noteq> [] then [row] else [], f)"
| "iterUnpackWatermaskRow f (Suc n) structType i row =
     bnd (unpackEntry f structType) (\<lambda>(x, f').
       if i = 255 then
         bnd (iterUnpackWatermaskRow f' n structType 0 [])
           (\<lambda>(rows, f''). Inr ((row @ [Some x]) # rows, f''))
       else iterUnpackWatermaskRow f' n structType (i + 1) (row @ [Some x]))"

text \<open>
  \<^verbatim>\<open>fromBytesIO\<close>, section by section in the order of the source. Each section takes the
  tile and the stream and returns both. An exception ends the call: the model returns the
  exception alone, not the partly filled tile.
\<close>

definition readVertices :: "tile \<Rightarrow> byte list \<Rightarrow> error + (tile \<times> byte list \<times> int)" where
  "readVertices self f =
     bnd (getitem vertexData ''vertexCount'') (\<lambda>tyc.
     bnd (unpackEntry f tyc) (\<lambda>(vertexCount, f).
     bnd (getitem vertexData ''uVertexCount'') (\<lambda>tyu.
     bnd (iterUnpackAndDecodeVertices f (nat vertexCount) tyu 0) (\<lambda>(uds, f).
     bnd (getitem vertexData ''vVertexCount'') (\<lambda>tyv.
     bnd (iterUnpackAndDecodeVertices f (nat vertexCount) tyv 0) (\<lambda>(vds, f).
     bnd (getitem vertexData ''heightVertexCount'') (\<lambda>tyh.
     bnd (iterUnpackAndDecodeVertices f (nat vertexCount) tyh 0) (\<lambda>(hds, f).
       Inr (self\<lparr>u := u self @ uds, v := v self @ vds, h := h self @ hds\<rparr>,
            f, vertexCount)))))))))"

definition readIndices :: "tile \<Rightarrow> byte list \<Rightarrow> int \<Rightarrow> error + (tile \<times> byte list)" where
  "readIndices self f vertexCount =
     (let meta = (if vertexCount > BYTESPLIT then indexData32 else indexData16) in
      bnd (getitem meta ''triangleCount'') (\<lambda>tyc.
      bnd (unpackEntry f tyc) (\<lambda>(triangleCount, f).
      bnd (getitem meta ''indices'') (\<lambda>tyi.
      bnd (iterUnpackIndices f (nat (triangleCount * 3)) tyi) (\<lambda>(ind, f).
        Inr (self\<lparr>indices := decodeIndices ind\<rparr>, f))))))"

text \<open>The edge blocks. Above the threshold the source selects \<^verbatim>\<open>TerrainTile.indexData32\<close>
  here (line 362), not \<^verbatim>\<open>EdgeIndices32\<close>.\<close>

definition readEdges :: "tile \<Rightarrow> byte list \<Rightarrow> int \<Rightarrow> error + (tile \<times> byte list)" where
  "readEdges self f vertexCount =
     (let meta = (if vertexCount > BYTESPLIT then indexData32 else EdgeIndices16) in
      bnd (getitem meta ''westVertexCount'') (\<lambda>tyc.
      bnd (unpackEntry f tyc) (\<lambda>(westIndicesCount, f).
      bnd (getitem meta ''westIndices'') (\<lambda>tyi.
      bnd (iterUnpackIndices f (nat westIndicesCount) tyi) (\<lambda>(wis, f).
      bnd (getitem meta ''southVertexCount'') (\<lambda>tyc.
      bnd (unpackEntry f tyc) (\<lambda>(southIndicesCount, f).
      bnd (getitem meta ''southIndices'') (\<lambda>tyi.
      bnd (iterUnpackIndices f (nat southIndicesCount) tyi) (\<lambda>(sis, f).
      bnd (getitem meta ''eastVertexCount'') (\<lambda>tyc.
      bnd (unpackEntry f tyc) (\<lambda>(eastIndicesCount, f).
      bnd (getitem meta ''eastIndices'') (\<lambda>tyi.
      bnd (iterUnpackIndices f (nat eastIndicesCount) tyi) (\<lambda>(eis, f).
      bnd (getitem meta ''northVertexCount'') (\<lambda>tyc.
      bnd (unpackEntry f tyc) (\<lambda>(northIndicesCount, f).
      bnd (getitem meta ''northIndices'') (\<lambda>tyi.
      bnd (iterUnpackIndices f (nat northIndicesCount) tyi) (\<lambda>(nis, f).
        Inr (self\<lparr>westI := westI self @ wis, southI := southI self @ sis,
                   eastI := eastI self @ eis, northI := northI self @ nis\<rparr>, f))))))))))))))))))"

definition readLight :: "env \<Rightarrow> tile \<Rightarrow> byte list \<Rightarrow> error + (tile \<times> byte list)" where
  "readLight fc self f =
     (if hasLighting self = Some True then
        bnd (getitem ExtensionHeader ''extensionId'') (\<lambda>tyid.
        bnd (unpackEntry f tyid) (\<lambda>(extensionId, f).
          if extensionId = 1 then
            bnd (getitem ExtensionHeader ''extensionLength'') (\<lambda>tylen.
            bnd (unpackEntry f tylen) (\<lambda>(extensionLength, f).
            bnd (getitem OctEncodedVertexNormals ''xy'') (\<lambda>tyxy.
            bnd (iterUnpackAndDecodeLight fc f extensionLength tyxy) (\<lambda>(xys, f).
              Inr (self\<lparr>vLight := vLight self @ xys\<rparr>, f)))))
          else Inr (self, f)))
      else Inr (self, f))"

definition readWatermask :: "tile \<Rightarrow> byte list \<Rightarrow> error + (tile \<times> byte list)" where
  "readWatermask self f =
     (if hasWatermask self then
        bnd (getitem ExtensionHeader ''extensionId'') (\<lambda>tyid.
        bnd (unpackEntry f tyid) (\<lambda>(extensionId, f).
          if extensionId = 2 then
            bnd (getitem ExtensionHeader ''extensionLength'') (\<lambda>tylen.
            bnd (unpackEntry f tylen) (\<lambda>(extensionLength, f).
            bnd (getitem WaterMask ''xy'') (\<lambda>tyxy.
            bnd (iterUnpackWatermaskRow f (nat extensionLength) tyxy 0 []) (\<lambda>(rows, f).
              Inr (self\<lparr>watermask := watermask self @ rows\<rparr>, f)))))
          else Inr (self, f)))
      else Inr (self, f))"

text \<open>The part of \<^verbatim>\<open>fromBytesIO\<close> before the extensions: the two flags, the header, the
  vertices, the triangle indices and the edges (lines 332 to 378).\<close>

definition readGeometry ::
  "env \<Rightarrow> tile \<Rightarrow> byte list \<Rightarrow> bool \<Rightarrow> bool \<Rightarrow> error + (tile \<times> byte list)" where
  "readGeometry fc self f hasLighting' hasWatermask' =
     (let self = self\<lparr>hasLighting := Some hasLighting', hasWatermask := hasWatermask'\<rparr> in
      bnd (readHeader fc quantizedMeshHeader (header self) f) (\<lambda>(hdr, f).
      bnd (readVertices (self\<lparr>header := hdr\<rparr>) f) (\<lambda>(self, f, vertexCount).
      bnd (readIndices self f vertexCount) (\<lambda>(self, f).
        readEdges self f vertexCount))))"

definition fromBytesIO ::
  "env \<Rightarrow> tile \<Rightarrow> byte list \<Rightarrow> bool \<Rightarrow> bool \<Rightarrow> error + (tile \<times> byte list)" where
  "fromBytesIO fc self f hasLighting' hasWatermask' =
     bnd (readGeometry fc self f hasLighting' hasWatermask') (\<lambda>(self, f).
     bnd (readLight fc self f) (\<lambda>(self, f).
       readWatermask self f))"

section \<open>Writing a tile: writeTo and the file entry points\<close>

text \<open>
  \<^verbatim>\<open>_writeTo\<close> up to the edge blocks only writes; these four sections are the lists of
  their write steps, in the order of the source. A read of the tile that raises
  (\<^verbatim>\<open>self.u[0]\<close> on an empty list) is a step that raises.
\<close>

definition headerSteps :: "env \<Rightarrow> tile \<Rightarrow> step list" where
  "headerSteps fc self =
     map (\<lambda>(k, ty). bnd (getkey (header self) k) (\<lambda>x. packEntryF fc ty x))
       quantizedMeshHeader"

text \<open>One vertex stream: \<^verbatim>\<open>xs[0]\<close> packed at the format of \<open>key0\<close>, then for
  \<^verbatim>\<open>i in range(0, vertexCount - 1)\<close> the difference \<^verbatim>\<open>xs[i + 1] - xs[i]\<close> packed at the
  format of \<open>key\<close>.\<close>

definition streamSteps :: "string \<Rightarrow> string \<Rightarrow> int list \<Rightarrow> nat \<Rightarrow> step list" where
  "streamSteps key0 key xs vertexCount =
     bnd (getitem vertexData key0) (\<lambda>ty.
       bnd (getidx xs 0) (\<lambda>x0. packEntry ty (zigZagEncode x0)))
     # map (\<lambda>i. bnd (getidx xs (int i + 1)) (\<lambda>a. bnd (getidx xs (int i)) (\<lambda>b.
              bnd (getitem vertexData key) (\<lambda>ty. packEntry ty (zigZagEncode (a - b))))))
         [0 ..< vertexCount - 1]"

definition vertexSteps :: "tile \<Rightarrow> step list" where
  "vertexSteps self =
     (let vertexCount = length (u self) in
      bnd (getitem vertexData ''vertexCount'') (\<lambda>ty. packEntry ty (int vertexCount))
      # streamSteps ''uVertexCount'' ''uVertexCount'' (u self) vertexCount
      @ streamSteps ''uVertexCount'' ''vVertexCount'' (v self) vertexCount
      @ streamSteps ''uVertexCount'' ''heightVertexCount'' (h self) vertexCount)"

definition indexSteps :: "tile \<Rightarrow> step list" where
  "indexSteps self =
     (let vertexCount = int (length (u self));
          meta = (if vertexCount > BYTESPLIT then indexData32 else indexData16)
      in bnd (getitem meta ''triangleCount'')
           (\<lambda>ty. packEntry ty (int (length (indices self)) div 3))
         # (case getitem meta ''indices'' of
              Inl e \<Rightarrow> [Inl e]
            | Inr ty \<Rightarrow> packIndices ty (encodeIndices (indices self))))"

definition edgeBlock :: "(string \<times> char) list \<Rightarrow> string \<Rightarrow> string \<Rightarrow> int list \<Rightarrow> step list" where
  "edgeBlock meta countKey indexKey ixs =
     bnd (getitem meta countKey) (\<lambda>ty. packEntry ty (int (length ixs)))
     # map (\<lambda>i. bnd (getitem meta indexKey) (\<lambda>ty. packEntry ty i)) ixs"

definition edgeSteps :: "tile \<Rightarrow> step list" where
  "edgeSteps self =
     (let vertexCount = int (length (u self));
          meta = (if vertexCount > BYTESPLIT then EdgeIndices32 else EdgeIndices16)
      in edgeBlock meta ''westVertexCount'' ''westIndices'' (westI self)
         @ edgeBlock meta ''southVertexCount'' ''southIndices'' (southI self)
         @ edgeBlock meta ''eastVertexCount'' ''eastIndices'' (eastI self)
         @ edgeBlock meta ''northVertexCount'' ''northIndices'' (northI self))"

text \<open>The lighting extension (lines 676 to 688). The flag is set before anything is
  written.\<close>

definition lightSteps :: "env \<Rightarrow> tile \<Rightarrow> step list" where
  "lightSteps fc self =
     (let vertexCount = length (u self) in
      [bnd (getitem ExtensionHeader ''extensionId'') (\<lambda>ty. packEntry ty 1),
       bnd (getitem ExtensionHeader ''extensionLength'')
         (\<lambda>ty. packEntry ty (2 * int vertexCount))]
      @ concat (map (\<lambda>i.
          (case bnd (getidx (vLight self) (int i)) (octEncode fc) of
             Inl e \<Rightarrow> [Inl e]
           | Inr (x, y) \<Rightarrow>
               [bnd (getitem OctEncodedVertexNormals ''xy'') (\<lambda>ty. packEntry ty x),
                bnd (getitem OctEncodedVertexNormals ''xy'') (\<lambda>ty. packEntry ty y)]))
          [0 ..< vertexCount]))"

definition writeLight :: "env \<Rightarrow> tile \<Rightarrow> byte list \<Rightarrow> error option \<times> tile \<times> byte list" where
  "writeLight fc self f =
     (if length (vLight self) > 0 then
        (let self = self\<lparr>hasLighting := Some True\<rparr>;
             (err, f) = writeAll (lightSteps fc self) f
         in (err, self, f))
      else (None, self, f))"

text \<open>Python's \<^verbatim>\<open>int(y)\<close> on a cell of the water mask: \<^verbatim>\<open>int(None)\<close> raises TypeError.\<close>

definition intOf :: "int option \<Rightarrow> error + int" where
  "intOf y = (case y of None \<Rightarrow> Inl TypeError | Some n \<Rightarrow> Inr n)"

text \<open>One row of the 256 by 256 grid. The text of the two exceptions of the source also
  holds the number found; the model keeps the fixed part.\<close>

definition rowSteps :: "int option list \<Rightarrow> step list" where
  "rowSteps x =
     (if length x \<noteq> 256 then [Inl (Exception ''Unexpected number of columns for the watermask'')]
      else map (\<lambda>y. bnd (getitem WaterMask ''xy'') (\<lambda>ty. bnd (intOf y) (packEntry ty))) x)"

text \<open>The water mask extension (lines 690 to 720). With more than one row the length
  \<^verbatim>\<open>TILEPXS\<close> is written before the number of rows is checked. With one row only the cell
  \<^verbatim>\<open>watermask[0][0]\<close> is written, and a \<^verbatim>\<open>None\<close> found there is first replaced by 0 in the
  tile.\<close>

definition writeWatermask :: "tile \<Rightarrow> byte list \<Rightarrow> error option \<times> tile \<times> byte list" where
  "writeWatermask self f =
     (if watermask self \<noteq> [] then
        (let self = self\<lparr>hasWatermask := True\<rparr>;
             idStep = bnd (getitem ExtensionHeader ''extensionId'') (\<lambda>ty. packEntry ty 2);
             nbRows = length (watermask self)
         in if nbRows > 1 then
              (let (err, f) = writeAll
                     ([idStep,
                       bnd (getitem ExtensionHeader ''extensionLength'')
                         (\<lambda>ty. packEntry ty TILEPXS)]
                      @ (if nbRows \<noteq> 256
                         then [Inl (Exception ''Unexpected number of rows for the watermask'')]
                         else concat (map rowSteps (watermask self)))) f
               in (err, self, f))
            else
              (case writeAll
                      [idStep,
                       bnd (getitem ExtensionHeader ''extensionLength'')
                         (\<lambda>ty. packEntry ty 1)] f of
                 (Some e, f) \<Rightarrow> (Some e, self, f)
               | (None, f) \<Rightarrow>
                   (case getidx (hd (watermask self)) 0 of
                      Inl e \<Rightarrow> (Some e, self, f)
                    | Inr cell \<Rightarrow>
                        (let self = (if cell = None
                                     then self\<lparr>watermask :=
                                            [(hd (watermask self))[0 := Some 0]]\<rparr>
                                     else self);
                             (err, f) = writeAll
                               [bnd (getitem WaterMask ''xy'') (\<lambda>ty.
                                  bnd (getidx (hd (watermask self)) 0) (\<lambda>c.
                                    bnd (intOf c) (packEntry ty)))] f
                         in (err, self, f)))))
      else (None, self, f))"

text \<open>\<^verbatim>\<open>_writeTo(f)\<close>: the exception raised, if any, the tile afterwards and the content of
  \<open>f\<close> afterwards.\<close>

definition writeTo :: "env \<Rightarrow> tile \<Rightarrow> byte list \<Rightarrow> error option \<times> tile \<times> byte list" where
  "writeTo fc self f =
     (case writeAll (headerSteps fc self @ vertexSteps self @ indexSteps self @ edgeSteps self) f of
        (Some e, f) \<Rightarrow> (Some e, self, f)
      | (None, f) \<Rightarrow>
          (case writeLight fc self f of
             (Some e, self, f) \<Rightarrow> (Some e, self, f)
           | (None, self, f) \<Rightarrow> writeWatermask self f))"


text \<open>
  The file system as far as \<^verbatim>\<open>toFile\<close> and \<^verbatim>\<open>toOurFile\<close> use it: a path names a regular
  file with its content, a directory, or nothing. \<^verbatim>\<open>os.path.isfile\<close> holds of a regular
  file. \<^verbatim>\<open>open(path, 'wb')\<close> raises IsADirectoryError on a directory and empties an
  existing file. A path that names nothing is created when its directory part
  (\<^verbatim>\<open>os.path.dirname\<close>) is empty, is the root or names a directory; otherwise the call
  raises FileNotFoundError, or NotADirectoryError when the directory part names a file.
  The \<^verbatim>\<open>with\<close> block closes the file on every exit, so the file holds what was written
  before an exception (compressed, for \<^verbatim>\<open>gzip.open\<close>). Paths are compared as written:
  a trailing slash, the components \<^verbatim>\<open>.\<close> and \<^verbatim>\<open>..\<close> and symbolic links are outside the
  model, and so are permissions: every file and directory can be written.
\<close>

datatype node = File "byte list" | Dir

type_synonym filesystem = "string \<rightharpoonup> node"

definition isfile :: "filesystem \<Rightarrow> string \<Rightarrow> bool" where
  "isfile fs filePath = (case fs filePath of Some (File content) \<Rightarrow> True | _ \<Rightarrow> False)"

text \<open>\<^verbatim>\<open>os.path.dirname\<close> on a POSIX path: the path up to its last slash, without
  trailing slashes unless it consists of slashes only.\<close>

definition dirname :: "string \<Rightarrow> string" where
  "dirname p =
     (let head = rev (dropWhile (\<lambda>c. c \<noteq> CHR ''/'') (rev p))
      in if head \<noteq> [] \<and> \<not> list_all (\<lambda>c. c = CHR ''/'') head
         then rev (dropWhile (\<lambda>c. c = CHR ''/'') (rev head))
         else head)"

definition openWb :: "filesystem \<Rightarrow> string \<Rightarrow> error + filesystem" where
  "openWb fs filePath =
     (case fs filePath of
        Some Dir \<Rightarrow> Inl IsADirectoryError
      | Some (File content) \<Rightarrow> Inr (fs(filePath \<mapsto> File []))
      | None \<Rightarrow>
          if filePath = [] then Inl FileNotFoundError
          else if list_all (\<lambda>c. c = CHR ''/'') (dirname filePath)
          then Inr (fs(filePath \<mapsto> File []))
          else (case fs (dirname filePath) of
                  Some Dir \<Rightarrow> Inr (fs(filePath \<mapsto> File []))
                | Some (File content) \<Rightarrow> Inl NotADirectoryError
                | None \<Rightarrow> Inl FileNotFoundError))"

definition toOurFile ::
  "env \<Rightarrow> tile \<Rightarrow> string \<Rightarrow> bool \<Rightarrow> filesystem \<Rightarrow> error option \<times> tile \<times> filesystem" where
  "toOurFile fc self filePath gzipped fs =
     (case openWb fs filePath of
        Inl e \<Rightarrow> (Some e, self, fs)
      | Inr fs \<Rightarrow>
          (let (err, self, f) = writeTo fc self []
           in (err, self, fs(filePath \<mapsto> File (if gzipped then gzipBytes fc f else f)))))"

definition toFile ::
  "env \<Rightarrow> tile \<Rightarrow> string \<Rightarrow> bool \<Rightarrow> filesystem \<Rightarrow> error option \<times> tile \<times> filesystem" where
  "toFile fc self filePath gzipped fs =
     (if isfile fs filePath then
        (Some (IOError (''File '' @ filePath @ '' already exists'')), self, fs)
      else
        (case openWb fs filePath of
           Inl e \<Rightarrow> (Some e, self, fs)
         | Inr fs \<Rightarrow>
             (let (err, self, f) = writeTo fc self []
              in (err, self, fs(filePath \<mapsto> File (if gzipped then gzipBytes fc f else f))))))"

section \<open>Quantization and coordinates\<close>

text \<open>Python 3's \<^verbatim>\<open>round\<close> on a float: to the nearest integer, a tie to the even one.\<close>

definition pyround :: "real \<Rightarrow> int" where
  "pyround x =
     (let fl = \<lfloor>x\<rfloor>; d = x - of_int fl
      in if d < 1 / 2 then fl else if 1 / 2 < d then fl + 1
         else if even fl then fl else fl + 1)"

text \<open>Float division \<^verbatim>\<open>a / b\<close>: a zero divisor raises ZeroDivisionError.\<close>

definition pydiv :: "env \<Rightarrow> real \<Rightarrow> real \<Rightarrow> error + real" where
  "pydiv fc a b = (if b = 0 then Inl ZeroDivisionError else Inr (fdiv fc a b))"

text \<open>\<^verbatim>\<open>not x\<close> on a cache attribute: true of \<^verbatim>\<open>None\<close> and of \<^verbatim>\<open>0.0\<close>.\<close>

definition falsy :: "real option \<Rightarrow> bool" where
  "falsy c = (case c of None \<Rightarrow> True | Some x \<Rightarrow> x = 0)"

definition getWorkingUnitLatitude :: "env \<Rightarrow> tile \<Rightarrow> error + (real \<times> tile)" where
  "getWorkingUnitLatitude fc self =
     (if falsy (workingUnitLatitude self) then
        bnd (pydiv fc MAX_q (fsub fc (north self) (south self)))
          (\<lambda>w. Inr (w, self\<lparr>workingUnitLatitude := Some w\<rparr>))
      else (case workingUnitLatitude self of
              None \<Rightarrow> Inl TypeError
            | Some w \<Rightarrow> Inr (w, self)))"

definition getWorkingUnitLongitude :: "env \<Rightarrow> tile \<Rightarrow> error + (real \<times> tile)" where
  "getWorkingUnitLongitude fc self =
     (if falsy (workingUnitLongitude self) then
        bnd (pydiv fc MAX_q (fsub fc (east self) (west self)))
          (\<lambda>w. Inr (w, self\<lparr>workingUnitLongitude := Some w\<rparr>))
      else (case workingUnitLongitude self of
              None \<Rightarrow> Inl TypeError
            | Some w \<Rightarrow> Inr (w, self)))"

definition getDeltaHeight :: "env \<Rightarrow> tile \<Rightarrow> error + (real \<times> tile)" where
  "getDeltaHeight fc self =
     (if falsy (deltaHeight self) then
        bnd (getkey (header self) ''maximumHeight'') (\<lambda>maxHeight.
        bnd (getkey (header self) ''minimumHeight'') (\<lambda>minHeight.
          Inr (fsub fc maxHeight minHeight,
               self\<lparr>deltaHeight := Some (fsub fc maxHeight minHeight)\<rparr>)))
      else (case deltaHeight self of
              None \<Rightarrow> Inl TypeError
            | Some d \<Rightarrow> Inr (d, self)))"

definition quantizeLatitude :: "env \<Rightarrow> tile \<Rightarrow> real \<Rightarrow> error + (int \<times> tile)" where
  "quantizeLatitude fc self latitude =
     bnd (getWorkingUnitLatitude fc self)
       (\<lambda>(w, self). Inr (pyround (fmul fc (fsub fc latitude (south self)) w), self))"

definition quantizeLongitude :: "env \<Rightarrow> tile \<Rightarrow> real \<Rightarrow> error + (int \<times> tile)" where
  "quantizeLongitude fc self longitude =
     bnd (getWorkingUnitLongitude fc self)
       (\<lambda>(w, self). Inr (pyround (fmul fc (fsub fc longitude (west self)) w), self))"

definition quantizeHeight :: "env \<Rightarrow> tile \<Rightarrow> real \<Rightarrow> error + (int \<times> tile)" where
  "quantizeHeight fc self height =
     bnd (getDeltaHeight fc self) (\<lambda>(deniv, self).
       if deniv = 0 then Inr (0, self)
       else
         bnd (pydiv fc MAX_q deniv) (\<lambda>workingUnitHeight.
         bnd (getkey (header self) ''minimumHeight'') (\<lambda>minHeight.
           Inr (pyround (fmul fc (fsub fc height minHeight) workingUnitHeight), self))))"

text \<open>\<^verbatim>\<open>_computeVerticesCoordinates\<close>: nothing is computed unless \<^verbatim>\<open>self._longs\<close> is empty.
  The two header fields are looked up once per height, so not at all without heights.\<close>

definition computeVerticesCoordinates :: "env \<Rightarrow> tile \<Rightarrow> error + tile" where
  "computeVerticesCoordinates fc self =
     (if longs self = [] then
        (let self = self\<lparr>longs := longs self
                          @ map (\<lambda>q. lerp fc (west self) (east self) (fdiv fc (of_int q) MAX_q))
                              (u self)\<rparr>;
             self = self\<lparr>lats := lats self
                          @ map (\<lambda>q. lerp fc (south self) (north self) (fdiv fc (of_int q) MAX_q))
                              (v self)\<rparr>
         in if h self = [] then Inr self
            else
              bnd (getkey (header self) ''minimumHeight'') (\<lambda>minHeight.
              bnd (getkey (header self) ''maximumHeight'') (\<lambda>maxHeight.
                Inr (self\<lparr>heights := heights self
                           @ map (\<lambda>q. lerp fc minHeight maxHeight (fdiv fc (of_int q) MAX_q))
                               (h self)\<rparr>))))
      else Inr self)"

text \<open>The loop of \<^verbatim>\<open>getVerticesCoordinates\<close> over \<^verbatim>\<open>enumerate(self._longs)\<close>, from index
  \<open>i\<close> on.\<close>

fun coordinatesFrom :: "tile \<Rightarrow> nat \<Rightarrow> real list \<Rightarrow> error + vec3 list" where
  "coordinatesFrom self i [] = Inr []"
| "coordinatesFrom self i (lon # rest) =
     bnd (getidx (lats self) (int i)) (\<lambda>lat.
     bnd (getidx (heights self) (int i)) (\<lambda>height.
     bnd (coordinatesFrom self (Suc i) rest) (\<lambda>coordinates.
       Inr ((lon, lat, height) # coordinates))))"

definition getVerticesCoordinates :: "env \<Rightarrow> tile \<Rightarrow> error + (vec3 list \<times> tile)" where
  "getVerticesCoordinates fc self =
     bnd (computeVerticesCoordinates fc self) (\<lambda>self.
     bnd (coordinatesFrom self 0 (longs self)) (\<lambda>coordinates.
       Inr (coordinates, self)))"

section \<open>Building a tile from a topology\<close>

text \<open>The attributes of a \<^verbatim>\<open>TerrainTopology\<close> that \<^verbatim>\<open>fromTerrainTopology\<close> reads.\<close>

record topology =
  minLon :: real
  maxLon :: real
  minLat :: real
  maxLat :: real
  minHeight :: real
  maxHeight :: real
  ecefMinX :: real
  ecefMinY :: real
  ecefMinZ :: real
  ecefMaxX :: real
  ecefMaxY :: real
  ecefMaxZ :: real
  uVertex :: "real list"
  vVertex :: "real list"
  hVertex :: "real list"
  indexData :: "int list"
  cartesianVertices :: "vec3 list"
  topoHasLighting :: bool
  verticesUnitVectors :: "vec3 list"

text \<open>A list comprehension over a method that updates a cache of the tile.\<close>

fun quantizeAll ::
  "(tile \<Rightarrow> real \<Rightarrow> error + (int \<times> tile)) \<Rightarrow> tile \<Rightarrow> real list \<Rightarrow> error + (int list \<times> tile)" where
  "quantizeAll q self [] = Inr ([], self)"
| "quantizeAll q self (x # xs) =
     bnd (q self x) (\<lambda>(y, self).
     bnd (quantizeAll q self xs) (\<lambda>(ys, self). Inr (y # ys, self)))"

text \<open>The edge loop (lines 816 to 828), over the indices still to visit.\<close>

fun edgeLoop :: "int list \<Rightarrow> tile \<Rightarrow> error + tile" where
  "edgeLoop [] self = Inr self"
| "edgeLoop (indice # rest) self =
     bnd (getidx (u self) indice) (\<lambda>x.
     bnd (getidx (v self) indice) (\<lambda>y.
       (let self =
              (if of_int x = MIN_q \<and> indice \<notin> set (westI self)
               then self\<lparr>westI := westI self @ [indice]\<rparr>
               else if of_int x = MAX_q \<and> indice \<notin> set (eastI self)
               then self\<lparr>eastI := eastI self @ [indice]\<rparr>
               else self);
            self =
              (if of_int y = MIN_q \<and> indice \<notin> set (southI self)
               then self\<lparr>southI := southI self @ [indice]\<rparr>
               else if of_int y = MAX_q \<and> indice \<notin> set (northI self)
               then self\<lparr>northI := northI self @ [indice]\<rparr>
               else self)
        in edgeLoop rest self)))"

text \<open>
  \<^verbatim>\<open>fromTerrainTopology(topology, bounds)\<close>. The argument is a \<^verbatim>\<open>TerrainTopology\<close> by its
  type, so the \<^verbatim>\<open>isinstance\<close> check passes. \<open>bounds\<close> is \<open>None\<close> or the four numbers
  \<^verbatim>\<open>(west, south, east, north)\<close>. An exception ends the call. The choice of the bounds
  (lines 747 to 761) and the header loop are definitions of their own.
\<close>

definition selectBounds ::
  "tile \<Rightarrow> topology \<Rightarrow> (real \<times> real \<times> real \<times> real) option \<Rightarrow> tile" where
  "selectBounds self topo bounds =
     (case bounds of
        Some (b0, b1, b2, b3) \<Rightarrow> self\<lparr>west := b0, east := b2, south := b1, north := b3\<rparr>
      | None \<Rightarrow>
          if {west self, south self, east self, north self} - {- 1, 1} \<noteq> {} then self
          else self\<lparr>west := minLon topo, east := maxLon topo,
                    south := minLat topo, north := maxLat topo\<rparr>)"

text \<open>The loop over the keys of \<^verbatim>\<open>quantizedMeshHeader\<close> (lines 782 to 806), which assigns
  each of the twelve fields in the order of the table.\<close>

definition headerFromTopology ::
  "env \<Rightarrow> tile \<Rightarrow> topology \<Rightarrow> vec3 \<times> real \<Rightarrow> vec3 \<Rightarrow> (string \<rightharpoonup> real)" where
  "headerFromTopology fc self topo bSphere occlusionPCoords =
     (let centerX = fadd fc (ecefMinX topo) (fmul fc (fsub fc (ecefMaxX topo) (ecefMinX topo)) (1 / 2));
          centerY = fadd fc (ecefMinY topo) (fmul fc (fsub fc (ecefMaxY topo) (ecefMinY topo)) (1 / 2));
          centerZ = fadd fc (ecefMinZ topo) (fmul fc (fsub fc (ecefMaxZ topo) (ecefMinZ topo)) (1 / 2));
          center = fst bSphere;
          radius = snd bSphere
      in (header self)
           (''centerX'' \<mapsto> centerX, ''centerY'' \<mapsto> centerY, ''centerZ'' \<mapsto> centerZ,
            ''minimumHeight'' \<mapsto> minHeight topo,
            ''maximumHeight'' \<mapsto> maxHeight topo,
            ''boundingSphereCenterX'' \<mapsto> fst center,
            ''boundingSphereCenterY'' \<mapsto> fst (snd center),
            ''boundingSphereCenterZ'' \<mapsto> snd (snd center),
            ''boundingSphereRadius'' \<mapsto> radius,
            ''horizonOcclusionPointX'' \<mapsto> fst occlusionPCoords,
            ''horizonOcclusionPointY'' \<mapsto> fst (snd occlusionPCoords),
            ''horizonOcclusionPointZ'' \<mapsto> snd (snd occlusionPCoords)))"

definition fromTerrainTopology ::
  "env \<Rightarrow> tile \<Rightarrow> topology \<Rightarrow> (real \<times> real \<times> real \<times> real) option \<Rightarrow> error + tile" where
  "fromTerrainTopology fc self topo bounds =
     (let self = selectBounds self topo bounds in
      bnd (bSphereFromPoints fc (cartesianVertices topo)) (\<lambda>bSphere.
      bnd (occFromPoints fc (cartesianVertices topo) bSphere) (\<lambda>occlusionPCoords.
      bnd (quantizeAll (quantizeLongitude fc)
             (self\<lparr>header := headerFromTopology fc self topo bSphere occlusionPCoords\<rparr>)
             (uVertex topo)) (\<lambda>(us, self).
      bnd (quantizeAll (quantizeLatitude fc) (self\<lparr>u := us\<rparr>) (vVertex topo)) (\<lambda>(vs, self).
      bnd (quantizeAll (quantizeHeight fc) (self\<lparr>v := vs\<rparr>) (hVertex topo)) (\<lambda>(hs, self).
      bnd (edgeLoop (indexData topo) (self\<lparr>h := hs, indices := indexData topo\<rparr>)) (\<lambda>self.
        (let self = self\<lparr>hasLighting := Some (topoHasLighting topo)\<rparr>
         in Inr (if topoHasLighting topo
                 then self\<lparr>vLight := verticesUnitVectors topo\<rparr>
                 else self)))))))))"

text \<open>The constructor: the keyword arguments, each optional.\<close>

record kwargs =
  kwWest :: "real option"
  kwEast :: "real option"
  kwSouth :: "real option"
  kwNorth :: "real option"
  kwWatermask :: "int option list list option"
  kwHasWatermask :: "bool option"
  kwTopology :: "topology option"

definition emptyTile :: "kwargs \<Rightarrow> tile" where
  "emptyTile kw =
     \<lparr>west = (case kwWest kw of None \<Rightarrow> - 1 | Some x \<Rightarrow> x),
      east = (case kwEast kw of None \<Rightarrow> 1 | Some x \<Rightarrow> x),
      south = (case kwSouth kw of None \<Rightarrow> - 1 | Some x \<Rightarrow> x),
      north = (case kwNorth kw of None \<Rightarrow> 1 | Some x \<Rightarrow> x),
      longs = [], lats = [], heights = [],
      workingUnitLongitude = None, workingUnitLatitude = None, deltaHeight = None,
      EPSG = 4326,
      vLight = [],
      watermask = (case kwWatermask kw of None \<Rightarrow> [] | Some w \<Rightarrow> w),
      hasWatermask =
        (case kwHasWatermask kw of
           None \<Rightarrow> (case kwWatermask kw of None \<Rightarrow> False | Some w \<Rightarrow> w \<noteq> [])
         | Some b \<Rightarrow> b),
      hasLighting = None,
      header = map_of (map (\<lambda>(k, ty). (k, 0)) quantizedMeshHeader),
      u = [], v = [], h = [], indices = [],
      westI = [], southI = [], eastI = [], northI = []\<rparr>"

definition TerrainTile :: "env \<Rightarrow> kwargs \<Rightarrow> error + tile" where
  "TerrainTile fc kw =
     (case kwTopology kw of
        None \<Rightarrow> Inr (emptyTile kw)
      | Some topo \<Rightarrow> fromTerrainTopology fc (emptyTile kw) topo None)"

text \<open>
  The reading of ``first-encountered order, each index unique'' used for claim C7: the
  elements of a list in the order of their first occurrences.
\<close>

fun firstEncountered :: "int list \<Rightarrow> int list" where
  "firstEncountered [] = []"
| "firstEncountered (x # xs) = x # filter (\<lambda>y. y \<noteq> x) (firstEncountered xs)"

text \<open>The four edge lists of a tile, for statements about all of them.\<close>

definition edgeView :: "tile \<Rightarrow> int list \<times> int list \<times> int list \<times> int list" where
  "edgeView s = (westI s, southI s, eastI s, northI s)"

section \<open>Tiles that can be encoded\<close>

text \<open>
  The conditions under which every step of \<^verbatim>\<open>_writeTo\<close> succeeds, used as hypotheses of
  the round-trip statements. They are the invariants of the data model (quantized values
  between 0 and 32767, equally long \<open>u\<close>, \<open>v\<close>, \<open>h\<close>, a number of indices divisible
  by 3) together with what the fixed-width fields of the layout can hold.
\<close>

text \<open>The twelve header fields are present and pack, at their formats, into as many bytes
  as the format has.\<close>

definition headerPacks :: "env \<Rightarrow> tile \<Rightarrow> bool" where
  "headerPacks fc self =
     list_all (\<lambda>(k, ty).
        (case bnd (getkey (header self) k) (packEntryF fc ty) of
           Inl e \<Rightarrow> False
         | Inr bs \<Rightarrow> calcsize ty = Some (length bs)))
       quantizedMeshHeader"

text \<open>Without normals there is nothing to encode. With normals there is one per vertex at
  least, and each of the first \<open>vertexCount\<close> is oct-encoded into two bytes that
  \<^verbatim>\<open>octDecode\<close> accepts.\<close>

definition lightEncodable :: "env \<Rightarrow> tile \<Rightarrow> bool" where
  "lightEncodable fc self =
     (vLight self = [] \<or>
      (length (u self) \<le> length (vLight self) \<and>
       list_all (\<lambda>n. (case octEncode fc n of
                         Inl e \<Rightarrow> False
                       | Inr (x, y) \<Rightarrow> 0 \<le> x \<and> x < 256 \<and> 0 \<le> y \<and> y < 256
                                      \<and> (case octDecode fc x y of Inl e \<Rightarrow> False | Inr n' \<Rightarrow> True)))
         (take (length (u self)) (vLight self))))"

text \<open>A cell of the water mask that is a byte.\<close>

definition cellOk :: "int option \<Rightarrow> bool" where
  "cellOk c = (case c of None \<Rightarrow> False | Some b \<Rightarrow> 0 \<le> b \<and> b < 256)"

text \<open>The two shapes of a water mask: one row of one byte, or 256 rows of 256 bytes.\<close>

definition uniformMask :: "int option list list \<Rightarrow> bool" where
  "uniformMask wm = (case wm of [[c]] \<Rightarrow> cellOk c | _ \<Rightarrow> False)"

definition gridMask :: "int option list list \<Rightarrow> bool" where
  "gridMask wm = (length wm = 256 \<and> list_all (\<lambda>row. length row = 256 \<and> list_all cellOk row) wm)"

definition quantized :: "int list \<Rightarrow> bool" where
  "quantized xs = list_all (\<lambda>x. 0 \<le> x \<and> x \<le> 32767) xs"

text \<open>The exclusive upper bound of an index word: 16 bits up to \<open>BYTESPLIT\<close> vertices, 32
  bits above.\<close>

definition indexWord :: "tile \<Rightarrow> int" where
  "indexWord self = (if int (length (u self)) > BYTESPLIT then 4294967296 else 65536)"

definition encodable :: "env \<Rightarrow> tile \<Rightarrow> bool" where
  "encodable fc self =
     (headerPacks fc self
      \<and> u self \<noteq> [] \<and> length (v self) = length (u self) \<and> length (h self) = length (u self)
      \<and> length (u self) < 2147483648
      \<and> quantized (u self) \<and> quantized (v self) \<and> quantized (h self)
      \<and> length (indices self) mod 3 = 0 \<and> length (indices self) div 3 < 4294967296
      \<and> list_all (\<lambda>c. 0 \<le> c \<and> c < indexWord self) (encodeIndices (indices self))
      \<and> list_all (\<lambda>i. 0 \<le> i \<and> i < indexWord self) (westI self)
      \<and> list_all (\<lambda>i. 0 \<le> i \<and> i < indexWord self) (southI self)
      \<and> list_all (\<lambda>i. 0 \<le> i \<and> i < indexWord self) (eastI self)
      \<and> list_all (\<lambda>i. 0 \<le> i \<and> i < indexWord self) (northI self)
      \<and> length (westI self) < 4294967296 \<and> length (southI self) < 4294967296
      \<and> length (eastI self) < 4294967296 \<and> length (northI self) < 4294967296
      \<and> lightEncodable fc self)"

section \<open>Sample inputs\<close>

text \<open>
  The closed examples below need a concrete environment. \<open>sampleEnv\<close> computes with exact
  arithmetic; the examples are chosen so that every intermediate result is an integer or
  a half below \<open>2 ^ 53\<close>, on which float arithmetic is exact as well. It agrees with
  Python on the only floats the examples pack and unpack: \<^verbatim>\<open>0.0\<close> is eight zero bytes at
  \<^verbatim>\<open><d\<close> and four at \<^verbatim>\<open><f\<close>, and these bytes read back as \<^verbatim>\<open>0.0\<close>. The examples carry no
  normals and are not compressed, and no example depends on the bounding sphere or the
  horizon occlusion point, which are computed outside this module: the fields that stand
  for them are placeholders of the right shape.
\<close>

definition sampleEnv :: env where
  "sampleEnv =
     \<lparr>pack_d = (\<lambda>x. Inr (replicate 8 0)),
      pack_f = (\<lambda>x. Inr (replicate 4 0)),
      unpack_d = (\<lambda>bs. 0),
      unpack_f = (\<lambda>bs. 0),
      octEncode = (\<lambda>n. Inr (128, 128)),
      octDecode = (\<lambda>x y. Inr (0, 0, 1)),
      gzipBytes = (\<lambda>bs. bs),
      bSphereFromPoints = (\<lambda>ps. Inr ((0, 0, 0), 0)),
      occFromPoints = (\<lambda>ps s. Inr (0, 0, 0)),
      fadd = (\<lambda>x y. x + y),
      fsub = (\<lambda>x y. x - y),
      fmul = (\<lambda>x y. x * y),
      fdiv = (\<lambda>x y. x / y)\<rparr>"

definition noArgs :: kwargs where
  "noArgs =
     \<lparr>kwWest = None, kwEast = None, kwSouth = None, kwNorth = None,
      kwWatermask = None, kwHasWatermask = None, kwTopology = None\<rparr>"

text \<open>
  A topology of four vertices and two triangles over the square from 0 to 1 degree of
  longitude and latitude, with heights 0 and 1; the triangles share the vertices 1 and 2.
  The cartesian coordinates are those of the four corners to the metre.
\<close>

definition sampleTopology :: topology where
  "sampleTopology =
     \<lparr>minLon = 0, maxLon = 1, minLat = 0, maxLat = 1, minHeight = 0, maxHeight = 1,
      ecefMinX = 6376201, ecefMinY = 0, ecefMinZ = 0,
      ecefMaxX = 6378137, ecefMaxY = 111314, ecefMaxZ = 110569,
      uVertex = [0, 1, 0, 1], vVertex = [0, 0, 1, 1], hVertex = [0, 1, 0, 1],
      indexData = [0, 1, 2, 1, 3, 2],
      cartesianVertices =
        [(6378137, 0, 0), (6377167, 111314, 0), (6377172, 0, 110569), (6376201, 111297, 110569)],
      topoHasLighting = False,
      verticesUnitVectors = []\<rparr>"

text \<open>The same mesh mirrored from east to west, and flat: every height is 0.\<close>

definition mirroredTopology :: topology where
  "mirroredTopology =
     sampleTopology\<lparr>minHeight := 0, maxHeight := 0,
                     uVertex := [1, 0, 1, 0], hVertex := [0, 0, 0, 0]\<rparr>"

text \<open>
  \<open>builtTile\<close> is the object \<^verbatim>\<open>t = TerrainTile(topology=sampleTopology)\<close>, and \<open>rebuiltTile\<close>
  the same object after \<^verbatim>\<open>t.fromTerrainTopology(mirroredTopology)\<close>. \<open>cachedTile\<close> is
  \<open>builtTile\<close> after \<^verbatim>\<open>t.getVerticesCoordinates()\<close>, and \<open>recachedTile\<close> is \<open>cachedTile\<close> after
  \<^verbatim>\<open>t.fromTerrainTopology(mirroredTopology)\<close>. The lemmas on these tiles show that all
  four calls return.
\<close>

definition builtTile :: tile where
  "builtTile = projr (TerrainTile sampleEnv (noArgs\<lparr>kwTopology := Some sampleTopology\<rparr>))"

definition rebuiltTile :: tile where
  "rebuiltTile = projr (fromTerrainTopology sampleEnv builtTile mirroredTopology None)"

definition cachedTile :: tile where
  "cachedTile = snd (projr (getVerticesCoordinates sampleEnv builtTile))"

definition recachedTile :: tile where
  "recachedTile = projr (fromTerrainTopology sampleEnv cachedTile mirroredTopology None)"

text \<open>
  Two tiles with attributes assigned to a \<^verbatim>\<open>TerrainTile()\<close> object: \<open>gridTile\<close> has the
  bounds 10 to 20 and 30 to 40, heights from 100 to 200 and three vertices, the last one
  beyond the quantized range; \<open>flatTile\<close> has a header with both heights 100.
\<close>

definition gridTile :: tile where
  "gridTile =
     (emptyTile noArgs)
       \<lparr>west := 10, east := 20, south := 30, north := 40,
        header := (header (emptyTile noArgs))
                    (''minimumHeight'' \<mapsto> 100, ''maximumHeight'' \<mapsto> 200),
        u := [0, 32767, 65534], v := [32767, 0, 65534], h := [0, 32767, 65534]\<rparr>"

definition flatTile :: tile where
  "flatTile =
     (emptyTile noArgs)
       \<lparr>header := (header (emptyTile noArgs))
                    (''minimumHeight'' \<mapsto> 100, ''maximumHeight'' \<mapsto> 100)\<rparr>"

text \<open>
  A tile of three vertices and one triangle over the same square, with the header of a
  \<^verbatim>\<open>TerrainTile()\<close> object, all fields \<^verbatim>\<open>0.0\<close>: the tile of the encoding examples.
\<close>

definition sampleTile :: tile where
  "sampleTile =
     (emptyTile noArgs)
       \<lparr>west := 0, east := 1, south := 0, north := 1,
        workingUnitLongitude := Some 32767, workingUnitLatitude := Some 32767,
        deltaHeight := Some 0,
        hasLighting := Some False,
        u := [0, 32767, 0], v := [0, 0, 32767], h := [0, 0, 0],
        indices := [0, 1, 2],
        westI := [0, 2], southI := [0, 1], eastI := [1], northI := [2]\<rparr>"

definition sampleFiles :: filesystem where
  "sampleFiles = [''a.terrain'' \<mapsto> File [1, 2, 3]]"





definition bigTile :: tile where
  "bigTile =
     sampleTile
       \<lparr>u := replicate 65637 0, v := replicate 65637 0, h := replicate 65637 0,
        westI := [0, 1, 2], southI := [0, 1, 2], eastI := [], northI := []\<rparr>"

text \<open>The bytes \<^verbatim>\<open>_writeTo\<close> produces for the sample tile.\<close>

definition sampleStream :: "byte list" where
  "sampleStream = snd (snd (writeTo sampleEnv sampleTile []))"


section \<open>Basic facts about the helpers\<close>

lemma bnd_Inr [simp]: "bnd (Inr x) k = k x" by (simp add: bnd_def)

lemma bnd_Inl [simp]: "bnd (Inl e) k = Inl e" by (simp add: bnd_def)

lemma bnd_eq_Inr: "bnd m k = Inr y \<longleftrightarrow> (\<exists>x. m = Inr x \<and> k x = Inr y)"
  by (cases m) simp_all

lemma length_le_bytes [simp]: "length (le_bytes k x) = k"
  by (induction k arbitrary: x) simp_all

lemma le_value_le_bytes: "0 \<le> x \<Longrightarrow> x < 256 ^ k \<Longrightarrow> le_value (le_bytes k x) = x"
proof (induction k arbitrary: x)
  case 0
  then show ?case by simp
next
  case (Suc k)
  have "\<And>y::int. x < 256 * y \<Longrightarrow> x div 256 < y" by arith
  then have "x div 256 < 256 ^ k" using Suc.prems by simp
  moreover have "0 \<le> x div 256" using Suc.prems by simp
  ultimately have "le_value (le_bytes k (x div 256)) = x div 256" by (rule Suc.IH[rotated])
  moreover have "uint (word_of_int x :: byte) = x mod 256" by (simp add: uint_word_of_int)
  ultimately show ?case by simp
qed

lemma le_value_bounds: "0 \<le> le_value bs \<and> le_value bs < 256 ^ length bs"
proof (induction bs)
  case Nil show ?case by simp
next
  case (Cons b bs)
  have "uint b < 256" using uint_bounded[of b] by simp
  moreover have "0 \<le> uint b" by simp
  ultimately show ?case using Cons by simp
qed

lemma packEntry_Inr:
  "packEntry ty x = Inr bs \<Longrightarrow> \<exists>n. calcsize ty = Some n \<and> 0 \<le> x \<and> x < 256 ^ n \<and> bs = le_bytes n x \<and> (ty = CHR ''I'' \<or> ty = CHR ''H'' \<or> ty = CHR ''B'')"
  by (auto simp: packEntry_def split: if_splits option.splits)

lemma unpackEntry_packEntry:
  "packEntry ty x = Inr bs \<Longrightarrow> unpackEntry (bs @ f) ty = Inr (x, f)"
  by (auto dest!: packEntry_Inr simp: unpackEntry_def le_value_le_bytes)

lemma packEntry_H: "packEntry (CHR ''H'') x = (if 0 \<le> x \<and> x < 65536 then Inr (le_bytes 2 x) else Inl StructError)"
  by (simp add: packEntry_def calcsize_def)

lemma packEntry_I: "packEntry (CHR ''I'') x = (if 0 \<le> x \<and> x < 4294967296 then Inr (le_bytes 4 x) else Inl StructError)"
  by (simp add: packEntry_def calcsize_def)

lemma packEntry_B: "packEntry (CHR ''B'') x = (if 0 \<le> x \<and> x < 256 then Inr (le_bytes 1 x) else Inl StructError)"
  by (simp add: packEntry_def calcsize_def)

lemma zigZagEncode_nonneg: "0 \<le> n \<Longrightarrow> n < 2 ^ 31 \<Longrightarrow> zigZagEncode n = 2 * n"
  by (simp add: zigZagEncode_def drop_bit_eq_div push_bit_eq_mult)

lemma zigZagEncode_neg: "- (2 ^ 31) \<le> n \<Longrightarrow> n < 0 \<Longrightarrow> zigZagEncode n = - 2 * n - 1"
proof -
  assume a: "- (2 ^ 31) \<le> n" "n < 0"
  have "n div 2147483648 = - 1" using a by simp
  then have "n div 2 ^ 31 = - 1" by simp
  then have "zigZagEncode n = (2 * n) XOR (- 1)" by (simp add: zigZagEncode_def drop_bit_eq_div push_bit_eq_mult)
  also have "\<dots> = NOT (2 * n)" by simp
  also have "\<dots> = - 2 * n - 1" by (simp add: not_int_def)
  finally show ?thesis .
qed

lemma zigZagDecode_even: "zigZagDecode (2 * k) = k"
  by (simp add: zigZagDecode_def drop_bit_eq_div and_one_eq)

lemma zigZagDecode_odd: "zigZagDecode (2 * k + 1) = - k - 1"
proof -
  have "(2 * k + 1) div 2 = k" by simp
  moreover have "(2 * k + 1) AND 1 = 1" by (simp add: and_one_eq)
  ultimately have "zigZagDecode (2 * k + 1) = k XOR (- 1)" by (simp add: zigZagDecode_def drop_bit_eq_div)
  also have "\<dots> = NOT k" by simp
  finally show ?thesis by (simp add: not_int_def)
qed

lemma zigZag_roundtrip: "- (2 ^ 31) \<le> n \<Longrightarrow> n < 2 ^ 31 \<Longrightarrow> zigZagDecode (zigZagEncode n) = n"
proof (cases "0 \<le> n")
  case True
  assume "n < 2 ^ 31"
  with True show ?thesis by (simp add: zigZagEncode_nonneg zigZagDecode_even)
next
  case False
  assume a: "- (2 ^ 31) \<le> n"
  have "zigZagEncode n = 2 * (- n - 1) + 1" using a False by (simp add: zigZagEncode_neg)
  then show ?thesis by (simp only: zigZagDecode_odd)
qed

lemma zigZagEncode_range: "- 32768 \<le> n \<Longrightarrow> n \<le> 32767 \<Longrightarrow> 0 \<le> zigZagEncode n \<and> zigZagEncode n < 65536"
  by (cases "0 \<le> n") (simp_all add: zigZagEncode_nonneg zigZagEncode_neg)

lemma decode_encode_indices: "decodeIndicesFrom hi (encodeIndicesFrom hi ixs) = ixs"
  by (induction ixs arbitrary: hi) (simp_all add: Let_def)

lemma length_encodeIndicesFrom [simp]: "length (encodeIndicesFrom hi ixs) = length ixs"
  by (induction ixs arbitrary: hi) (simp_all add: Let_def)

lemma writeAll_append:
  "writeAll (xs @ ys) f = (case writeAll xs f of (None, f') \<Rightarrow> writeAll ys f' | (Some e, f') \<Rightarrow> (Some e, f'))"
  by (induction xs f rule: writeAll.induct) simp_all

lemma writeAll_map_Inr: "writeAll (map Inr bss) f = (None, f @ concat bss)"
  by (induction bss arbitrary: f) simp_all

lemma writeAll_None:
  "writeAll xs f = (None, f') \<Longrightarrow> \<exists>bss. xs = map Inr bss \<and> f' = f @ concat bss"
proof (induction xs f rule: writeAll.induct)
  case (1 f)
  then show ?case by simp
next
  case (2 e rest f)
  then show ?case by simp
next
  case (3 bs rest f)
  then obtain bss where "rest = map Inr bss" "f' = (f @ bs) @ concat bss" by auto
  then have "Inr bs # rest = map Inr (bs # bss) \<and> f' = f @ concat (bs # bss)" by simp
  then show ?case by (intro exI[of _ "bs # bss"])
qed

lemma writeAll_Inl_mem:
  "writeAll xs f = (Some e, f') \<Longrightarrow> Inl e \<in> set xs"
  by (induction xs f rule: writeAll.induct) auto

lemma getitem_vertexData [simp]:
  "getitem vertexData ''vertexCount'' = Inr (CHR ''I'')"
  "getitem vertexData ''uVertexCount'' = Inr (CHR ''H'')"
  "getitem vertexData ''vVertexCount'' = Inr (CHR ''H'')"
  "getitem vertexData ''heightVertexCount'' = Inr (CHR ''H'')"
  by (simp_all add: getitem_def vertexData_def)

lemma getitem_indexData [simp]:
  "getitem indexData16 ''triangleCount'' = Inr (CHR ''I'')"
  "getitem indexData16 ''indices'' = Inr (CHR ''H'')"
  "getitem indexData32 ''triangleCount'' = Inr (CHR ''I'')"
  "getitem indexData32 ''indices'' = Inr (CHR ''I'')"
  "getitem indexData32 ''westVertexCount'' = Inl (KeyError ''westVertexCount'')"
  by (simp_all add: getitem_def indexData16_def indexData32_def)

lemma getitem_EdgeIndices16 [simp]:
  "getitem EdgeIndices16 ''westVertexCount'' = Inr (CHR ''I'')"
  "getitem EdgeIndices16 ''westIndices'' = Inr (CHR ''H'')"
  "getitem EdgeIndices16 ''southVertexCount'' = Inr (CHR ''I'')"
  "getitem EdgeIndices16 ''southIndices'' = Inr (CHR ''H'')"
  "getitem EdgeIndices16 ''eastVertexCount'' = Inr (CHR ''I'')"
  "getitem EdgeIndices16 ''eastIndices'' = Inr (CHR ''H'')"
  "getitem EdgeIndices16 ''northVertexCount'' = Inr (CHR ''I'')"
  "getitem EdgeIndices16 ''northIndices'' = Inr (CHR ''H'')"
  by (simp_all add: getitem_def EdgeIndices16_def)

lemma getitem_EdgeIndices32 [simp]:
  "getitem EdgeIndices32 ''westVertexCount'' = Inr (CHR ''I'')"
  "getitem EdgeIndices32 ''westIndices'' = Inr (CHR ''I'')"
  "getitem EdgeIndices32 ''southVertexCount'' = Inr (CHR ''I'')"
  "getitem EdgeIndices32 ''southIndices'' = Inr (CHR ''I'')"
  "getitem EdgeIndices32 ''eastVertexCount'' = Inr (CHR ''I'')"
  "getitem EdgeIndices32 ''eastIndices'' = Inr (CHR ''I'')"
  "getitem EdgeIndices32 ''northVertexCount'' = Inr (CHR ''I'')"
  "getitem EdgeIndices32 ''northIndices'' = Inr (CHR ''I'')"
  by (simp_all add: getitem_def EdgeIndices32_def)

lemma getitem_extension [simp]:
  "getitem ExtensionHeader ''extensionId'' = Inr (CHR ''B'')"
  "getitem ExtensionHeader ''extensionLength'' = Inr (CHR ''I'')"
  "getitem OctEncodedVertexNormals ''xy'' = Inr (CHR ''B'')"
  "getitem WaterMask ''xy'' = Inr (CHR ''B'')"
  by (simp_all add: getitem_def ExtensionHeader_def OctEncodedVertexNormals_def WaterMask_def)

lemma packEntry_not_IndexError: "packEntry ty x \<noteq> Inl IndexError"
  by (simp add: packEntry_def split: option.splits)

lemma getitem_not_IndexError: "getitem d k \<noteq> Inl IndexError"
  by (simp add: getitem_def split: option.splits)

lemma getidx_0: "getidx xs 0 = (case xs of [] \<Rightarrow> Inl IndexError | x # _ \<Rightarrow> Inr x)"
  by (cases xs) (simp_all add: getidx_def)

lemma getidx_nat: "i < length xs \<Longrightarrow> getidx xs (int i) = Inr (xs ! i)"
  by (simp add: getidx_def)

lemma getidx_nat_Suc: "Suc i < length xs \<Longrightarrow> getidx xs (int i + 1) = Inr (xs ! Suc i)"
  using getidx_nat[of "Suc i" xs] by (simp add: add.commute)

subsection \<open>The sample inputs\<close>

lemma header_emptyTile:
  "header (emptyTile kw) =
     (\<lambda>k. if k \<in> set (map fst quantizedMeshHeader) then Some 0 else None)"
  by (rule ext) (simp add: emptyTile_def quantizedMeshHeader_def)

lemma sampleTile_header [simp]:
  "header sampleTile ''minimumHeight'' = Some 0" "header sampleTile ''maximumHeight'' = Some 0"
  by (simp_all add: sampleTile_def emptyTile_def quantizedMeshHeader_def)

lemma sampleTile_fields [simp]:
  "u sampleTile = [0, 32767, 0]" "v sampleTile = [0, 0, 32767]" "h sampleTile = [0, 0, 0]"
  "indices sampleTile = [0, 1, 2]"
  "westI sampleTile = [0, 2]" "southI sampleTile = [0, 1]"
  "eastI sampleTile = [1]" "northI sampleTile = [2]"
  "longs sampleTile = []" "lats sampleTile = []" "heights sampleTile = []"
  "west sampleTile = 0" "east sampleTile = 1" "south sampleTile = 0" "north sampleTile = 1"
  "vLight sampleTile = []" "watermask sampleTile = []" "hasWatermask sampleTile = False"
  "hasLighting sampleTile = Some False" "deltaHeight sampleTile = Some 0"
  by (simp_all add: sampleTile_def emptyTile_def noArgs_def)

lemma sampleTile_deltaHeight_idem: "sampleTile\<lparr>deltaHeight := Some 0\<rparr> = sampleTile"
  by (simp add: sampleTile_def)

lemma headerSteps_sample_empty:
  "headerSteps sampleEnv (emptyTile kw) = map Inr (replicate 3 (replicate 8 0) @ replicate 2 (replicate 4 0) @ replicate 7 (replicate 8 0))"
  by (simp add: headerSteps_def quantizedMeshHeader_def getkey_def emptyTile_def packEntryF_def sampleEnv_def numeral_3_eq_3 numeral_2_eq_2 eval_nat_numeral)

lemma header_sampleTile: "header sampleTile = header (emptyTile noArgs)"
  by (simp add: sampleTile_def)

lemma headerSteps_header_cong: "header a = header b \<Longrightarrow> headerSteps fc a = headerSteps fc b"
  by (simp add: headerSteps_def)


section \<open>Decoding what was encoded\<close>

text \<open>
  Section by section: the steps of \<^verbatim>\<open>_writeTo\<close> on an encodable tile all succeed, and the
  matching part of \<^verbatim>\<open>fromBytesIO\<close> reads the written bytes back, whatever follows them in
  the stream.
\<close>

lemma iterUnpackIndices_packed:
  "map (packEntry ty) xs = map Inr bss \<Longrightarrow>
   iterUnpackIndices (concat bss @ rest) (length xs) ty = Inr (xs, rest)"
proof (induction xs arbitrary: bss)
  case Nil
  then show ?case by simp
next
  case (Cons x xs)
  then obtain bs bss' where b: "bss = bs # bss'" "packEntry ty x = Inr bs"
    "map (packEntry ty) xs = map Inr bss'" by (cases bss) auto
  from unpackEntry_packEntry[OF b(2)] Cons.IH[OF b(3)] show ?case
    by (simp add: b(1))
qed

lemma iterUnpackAndDecodeVertices_packed:
  assumes "length ds = length xs"
    and "\<And>i. i < length xs \<Longrightarrow> ds ! i = xs ! i - (if i = 0 then prev else xs ! (i - 1))"
    and "\<And>i. i < length xs \<Longrightarrow> - (2 ^ 31) \<le> ds ! i \<and> ds ! i < 2 ^ 31"
    and "map (\<lambda>d. packEntry ty (zigZagEncode d)) ds = map Inr bss"
  shows "iterUnpackAndDecodeVertices (concat bss @ rest) (length xs) ty prev = Inr (xs, rest)"
  using assms
proof (induction xs arbitrary: ds bss prev)
  case Nil
  then show ?case by simp
next
  case (Cons x xs)
  from Cons.prems(1) obtain d ds' where ds: "ds = d # ds'" "length ds' = length xs"
    by (cases ds) auto
  from Cons.prems(4) ds obtain bs bss' where b: "bss = bs # bss'" "packEntry ty (zigZagEncode d) = Inr bs"
    "map (\<lambda>d. packEntry ty (zigZagEncode d)) ds' = map Inr bss'" by (cases bss) auto
  have d: "d = x - prev" using Cons.prems(2)[of 0] ds by simp
  have r: "- (2 ^ 31) \<le> d \<and> d < 2 ^ 31" using Cons.prems(3)[of 0] ds by simp
  have zz: "zigZagDecode (zigZagEncode d) = d" using r by (simp add: zigZag_roundtrip)
  have step: "prev + zigZagDecode (zigZagEncode d) = x" using zz d by simp
  have ih: "iterUnpackAndDecodeVertices (concat bss' @ rest) (length xs) ty x = Inr (xs, rest)"
  proof (rule Cons.IH[OF ds(2) _ _ b(3)])
    fix i assume i: "i < length xs"
    from Cons.prems(2)[of "Suc i"] i ds
    show "ds' ! i = xs ! i - (if i = 0 then x else xs ! (i - 1))"
      by (cases i) simp_all
    from Cons.prems(3)[of "Suc i"] i ds
    show "- (2 ^ 31) \<le> ds' ! i \<and> ds' ! i < 2 ^ 31" by simp
  qed
  show ?case
    using unpackEntry_packEntry[OF b(2)] ih step by (simp add: b(1))
qed

lemma streamSteps_packed:
  assumes ne: "xs \<noteq> []" and rng: "list_all (\<lambda>x. 0 \<le> x \<and> x \<le> 32767) xs"
    and k0: "getitem vertexData key0 = Inr (CHR ''H'')" and k: "getitem vertexData key = Inr (CHR ''H'')"
  shows "\<exists>bss. streamSteps key0 key xs (length xs) = map Inr bss
           \<and> (\<forall>rest. iterUnpackAndDecodeVertices (concat bss @ rest) (length xs) (CHR ''H'') 0
                        = Inr (xs, rest))"
proof -
  define ds where "ds = xs ! 0 # map (\<lambda>i. xs ! Suc i - xs ! i) [0 ..< length xs - 1]"
  have len: "length ds = length xs" using ne by (simp add: ds_def)
  have r: "\<And>i. i < length xs \<Longrightarrow> 0 \<le> xs ! i \<and> xs ! i \<le> 32767"
    using rng by (simp add: list_all_length)
  have nth: "\<And>i. i < length xs \<Longrightarrow> ds ! i = xs ! i - (if i = 0 then 0 else xs ! (i - 1))"
  proof -
    fix i assume i: "i < length xs"
    show "ds ! i = xs ! i - (if i = 0 then 0 else xs ! (i - 1))"
    proof (cases i)
      case 0 then show ?thesis by (simp add: ds_def)
    next
      case (Suc j)
      with i have "j < length xs - 1" by simp
      with Suc show ?thesis by (simp add: ds_def)
    qed
  qed
  have dr: "\<And>i. i < length xs \<Longrightarrow> - 32768 \<le> ds ! i \<and> ds ! i \<le> 32767"
  proof -
    fix i assume i: "i < length xs"
    show "- 32768 \<le> ds ! i \<and> ds ! i \<le> 32767"
    proof (cases i)
      case 0 with r[OF i] nth[OF i] show ?thesis by simp
    next
      case (Suc j)
      with i have "j < length xs" by simp
      from r[OF this] r[OF i] nth[OF i] Suc show ?thesis by simp
    qed
  qed
  have steps: "streamSteps key0 key xs (length xs) = map (\<lambda>d. packEntry (CHR ''H'') (zigZagEncode d)) ds"
  proof -
    obtain x0 rest0 where x0: "xs = x0 # rest0" using ne by (cases xs) auto
    have a: "bnd (getitem vertexData key0) (\<lambda>ty. bnd (getidx xs 0) (\<lambda>x0. packEntry ty (zigZagEncode x0)))
        = packEntry (CHR ''H'') (zigZagEncode (xs ! 0))"
      by (simp add: k0 getidx_0 x0)
    have b: "map (\<lambda>i. bnd (getidx xs (int i + 1)) (\<lambda>a. bnd (getidx xs (int i)) (\<lambda>b.
              bnd (getitem vertexData key) (\<lambda>ty. packEntry ty (zigZagEncode (a - b))))))
         [0 ..< length xs - 1]
       = map (\<lambda>i. packEntry (CHR ''H'') (zigZagEncode (xs ! Suc i - xs ! i))) [0 ..< length xs - 1]"
      by (rule map_cong) (simp_all add: getidx_nat getidx_nat_Suc k)
    show ?thesis
      unfolding streamSteps_def a b ds_def by (simp add: comp_def)
  qed
  define bss where "bss = map (\<lambda>d. le_bytes 2 (zigZagEncode d)) ds"
  have packed: "map (\<lambda>d. packEntry (CHR ''H'') (zigZagEncode d)) ds = map Inr bss"
  proof -
    have "\<And>d. d \<in> set ds \<Longrightarrow> packEntry (CHR ''H'') (zigZagEncode d) = Inr (le_bytes 2 (zigZagEncode d))"
    proof -
      fix d assume "d \<in> set ds"
      then obtain i where "i < length ds" "ds ! i = d" by (auto simp: in_set_conv_nth)
      with dr[of i] len have "- 32768 \<le> d \<and> d \<le> 32767" by simp
      then have "0 \<le> zigZagEncode d \<and> zigZagEncode d < 65536" by (simp add: zigZagEncode_range)
      then show "packEntry (CHR ''H'') (zigZagEncode d) = Inr (le_bytes 2 (zigZagEncode d))"
        by (simp add: packEntry_H)
    qed
    then show ?thesis by (simp add: bss_def)
  qed
  have dec: "\<And>rest. iterUnpackAndDecodeVertices (concat bss @ rest) (length xs) (CHR ''H'') 0 = Inr (xs, rest)"
  proof -
    fix rest
    show "iterUnpackAndDecodeVertices (concat bss @ rest) (length xs) (CHR ''H'') 0 = Inr (xs, rest)"
    proof (rule iterUnpackAndDecodeVertices_packed[OF len _ _ packed])
      fix i assume i: "i < length xs"
      show "ds ! i = xs ! i - (if i = 0 then 0 else xs ! (i - 1))" by (rule nth[OF i])
      from dr[OF i] show "- (2 ^ 31) \<le> ds ! i \<and> ds ! i < 2 ^ 31" by simp
    qed
  qed
  from steps packed dec show ?thesis by auto
qed

lemma vertex_section:
  assumes "u self \<noteq> []" and "length (v self) = length (u self)" and "length (h self) = length (u self)"
    and "length (u self) < 4294967296"
    and "list_all (\<lambda>x. 0 \<le> x \<and> x \<le> 32767) (u self)"
    and "list_all (\<lambda>x. 0 \<le> x \<and> x \<le> 32767) (v self)"
    and "list_all (\<lambda>x. 0 \<le> x \<and> x \<le> 32767) (h self)"
  shows "\<exists>bss. vertexSteps self = map Inr bss
           \<and> (\<forall>t rest. readVertices t (concat bss @ rest)
                 = Inr (t\<lparr>u := u t @ u self, v := v t @ v self, h := h t @ h self\<rparr>,
                        rest, int (length (u self))))"
proof -
  have ne: "v self \<noteq> []" "h self \<noteq> []" using assms(1-3) by auto
  obtain ub where ub: "streamSteps ''uVertexCount'' ''uVertexCount'' (u self) (length (u self)) = map Inr ub"
    "\<And>rest. iterUnpackAndDecodeVertices (concat ub @ rest) (length (u self)) (CHR ''H'') 0 = Inr (u self, rest)"
    using streamSteps_packed[OF assms(1,5), of "''uVertexCount''" "''uVertexCount''"] by auto
  obtain vb where vb: "streamSteps ''uVertexCount'' ''vVertexCount'' (v self) (length (v self)) = map Inr vb"
    "\<And>rest. iterUnpackAndDecodeVertices (concat vb @ rest) (length (v self)) (CHR ''H'') 0 = Inr (v self, rest)"
    using streamSteps_packed[OF ne(1) assms(6), of "''uVertexCount''" "''vVertexCount''"] by auto
  obtain hb where hb: "streamSteps ''uVertexCount'' ''heightVertexCount'' (h self) (length (h self)) = map Inr hb"
    "\<And>rest. iterUnpackAndDecodeVertices (concat hb @ rest) (length (h self)) (CHR ''H'') 0 = Inr (h self, rest)"
    using streamSteps_packed[OF ne(2) assms(7), of "''uVertexCount''" "''heightVertexCount''"] by auto
  let ?n = "int (length (u self))"
  let ?bss = "le_bytes 4 ?n # ub @ vb @ hb"
  have cnt: "packEntry (CHR ''I'') ?n = Inr (le_bytes 4 ?n)"
    using assms(4) by (simp add: packEntry_I)
  have steps: "vertexSteps self = map Inr ?bss"
    using ub(1) vb(1) hb(1) by (simp add: vertexSteps_def Let_def cnt assms(2,3))
  have dec: "\<And>t rest. readVertices t (concat ?bss @ rest)
                 = Inr (t\<lparr>u := u t @ u self, v := v t @ v self, h := h t @ h self\<rparr>, rest, ?n)"
  proof -
    fix t rest
    have c: "unpackEntry (le_bytes 4 ?n @ concat ub @ concat vb @ concat hb @ rest) (CHR ''I'')
        = Inr (?n, concat ub @ concat vb @ concat hb @ rest)"
      by (rule unpackEntry_packEntry[OF cnt])
    show "readVertices t (concat ?bss @ rest)
                 = Inr (t\<lparr>u := u t @ u self, v := v t @ v self, h := h t @ h self\<rparr>, rest, ?n)"
      using ub(2)[of "concat vb @ concat hb @ rest"] vb(2)[of "concat hb @ rest"] hb(2)[of rest]
      by (simp add: readVertices_def c assms(2,3))
  qed
  from steps dec show ?thesis by blast
qed

lemma packEntry_all:
  assumes "ty = CHR ''H'' \<or> ty = CHR ''I''"
    and "list_all (\<lambda>i. 0 \<le> i \<and> i < (if ty = CHR ''H'' then 65536 else 4294967296)) ixs"
  shows "\<exists>ibs. map (packEntry ty) ixs = map Inr ibs"
proof -
  have "\<And>i. i \<in> set ixs \<Longrightarrow> \<exists>bs. packEntry ty i = Inr bs"
    using assms by (auto simp: list_all_iff packEntry_H packEntry_I)
  then have "\<forall>i\<in>set ixs. packEntry ty i = Inr (projr (packEntry ty i))"
    by (metis sum.sel(2))
  then have "map (packEntry ty) ixs = map Inr (map (\<lambda>i. projr (packEntry ty i)) ixs)"
    by simp
  then show ?thesis by blast
qed

lemma edgeBlock_packed:
  assumes ck: "getitem meta countKey = Inr (CHR ''I'')" and ik: "getitem meta indexKey = Inr ty"
    and ty: "ty = CHR ''H'' \<or> ty = CHR ''I''"
    and rng: "list_all (\<lambda>i. 0 \<le> i \<and> i < (if ty = CHR ''H'' then 65536 else 4294967296)) ixs"
    and len: "length ixs < 4294967296"
  shows "\<exists>cb ibs. edgeBlock meta countKey indexKey ixs = map Inr (cb # ibs)
           \<and> (\<forall>rest. unpackEntry (cb @ rest) (CHR ''I'') = Inr (int (length ixs), rest))
           \<and> (\<forall>rest. iterUnpackIndices (concat ibs @ rest) (length ixs) ty = Inr (ixs, rest))"
proof -
  from packEntry_all[OF ty rng] obtain ibs where ibs: "map (packEntry ty) ixs = map Inr ibs" by blast
  have cnt: "packEntry (CHR ''I'') (int (length ixs)) = Inr (le_bytes 4 (int (length ixs)))"
    using len by (simp add: packEntry_I)
  have "edgeBlock meta countKey indexKey ixs = map Inr (le_bytes 4 (int (length ixs)) # ibs)"
    using ibs by (simp add: edgeBlock_def ck ik cnt)
  moreover have "\<forall>rest. unpackEntry (le_bytes 4 (int (length ixs)) @ rest) (CHR ''I'') = Inr (int (length ixs), rest)"
    using unpackEntry_packEntry[OF cnt] by blast
  moreover have "\<forall>rest. iterUnpackIndices (concat ibs @ rest) (length ixs) ty = Inr (ixs, rest)"
    using iterUnpackIndices_packed[OF ibs] by blast
  ultimately show ?thesis by blast
qed

lemma index_section:
  assumes m3: "length (indices self) mod 3 = 0"
    and len: "length (indices self) div 3 < 4294967296"
    and rng: "list_all (\<lambda>c. 0 \<le> c \<and> c < (if int (length (u self)) > BYTESPLIT then 4294967296 else 65536))
                (encodeIndices (indices self))"
  shows "\<exists>bss. indexSteps self = map Inr bss
           \<and> (\<forall>t rest. readIndices t (concat bss @ rest) (int (length (u self)))
                 = Inr (t\<lparr>indices := indices self\<rparr>, rest))"
proof -
  let ?vc = "int (length (u self))"
  define meta where "meta = (if ?vc > BYTESPLIT then indexData32 else indexData16)"
  define ty where "ty = (if ?vc > BYTESPLIT then CHR ''I'' else CHR ''H'')"
  have mc: "getitem meta ''triangleCount'' = Inr (CHR ''I'')" and mi: "getitem meta ''indices'' = Inr ty"
    by (simp_all add: meta_def ty_def)
  have tyc: "ty = CHR ''H'' \<or> ty = CHR ''I''" by (simp add: ty_def)
  have rng': "list_all (\<lambda>i. 0 \<le> i \<and> i < (if ty = CHR ''H'' then 65536 else 4294967296)) (encodeIndices (indices self))"
    using rng by (cases "?vc > BYTESPLIT") (simp_all add: ty_def)
  from packEntry_all[OF tyc rng'] obtain ibs where
    ibs: "map (packEntry ty) (encodeIndices (indices self)) = map Inr ibs" by blast
  let ?tc = "int (length (indices self)) div 3"
  have tcn: "?tc = int (length (indices self) div 3)" by (simp add: zdiv_int)
  have cnt: "packEntry (CHR ''I'') ?tc = Inr (le_bytes 4 ?tc)"
    using len by (simp add: packEntry_I tcn del: of_nat_div)
  have steps: "indexSteps self = map Inr (le_bytes 4 ?tc # ibs)"
    using ibs by (simp add: indexSteps_def Let_def meta_def[symmetric] mc mi cnt packIndices_def)
  have n3: "nat (?tc * 3) = length (encodeIndices (indices self))"
  proof -
    have "length (indices self) div 3 * 3 = length (indices self)" using m3 by presburger
    then show ?thesis by (simp add: tcn encodeIndices_def nat_mult_distrib del: of_nat_div)
  qed
  have dec: "\<And>t rest. readIndices t (concat (le_bytes 4 ?tc # ibs) @ rest) ?vc
                 = Inr (t\<lparr>indices := indices self\<rparr>, rest)"
  proof -
    fix t rest
    have c: "unpackEntry (le_bytes 4 ?tc @ concat ibs @ rest) (CHR ''I'') = Inr (?tc, concat ibs @ rest)"
      by (rule unpackEntry_packEntry[OF cnt])
    have i: "iterUnpackIndices (concat ibs @ rest) (nat (?tc * 3)) ty = Inr (encodeIndices (indices self), rest)"
      unfolding n3 by (rule iterUnpackIndices_packed[OF ibs])
    have d: "decodeIndices (encodeIndices (indices self)) = indices self"
      by (simp add: decodeIndices_def encodeIndices_def decode_encode_indices)
    show "readIndices t (concat (le_bytes 4 ?tc # ibs) @ rest) ?vc = Inr (t\<lparr>indices := indices self\<rparr>, rest)"
      using c i by (simp add: readIndices_def Let_def meta_def[symmetric] mc mi d)
  qed
  from steps dec show ?thesis by blast
qed

lemma readEdges_above_threshold:
  "vertexCount > BYTESPLIT \<Longrightarrow> readEdges t f vertexCount = Inl (KeyError ''westVertexCount'')"
  by (simp add: readEdges_def)

lemma edge_section:
  assumes w: "list_all (\<lambda>i. 0 \<le> i \<and> i < (if int (length (u self)) > BYTESPLIT then 4294967296 else 65536)) (westI self)"
    and s: "list_all (\<lambda>i. 0 \<le> i \<and> i < (if int (length (u self)) > BYTESPLIT then 4294967296 else 65536)) (southI self)"
    and e: "list_all (\<lambda>i. 0 \<le> i \<and> i < (if int (length (u self)) > BYTESPLIT then 4294967296 else 65536)) (eastI self)"
    and n: "list_all (\<lambda>i. 0 \<le> i \<and> i < (if int (length (u self)) > BYTESPLIT then 4294967296 else 65536)) (northI self)"
    and lw: "length (westI self) < 4294967296" and ls: "length (southI self) < 4294967296"
    and le: "length (eastI self) < 4294967296" and ln: "length (northI self) < 4294967296"
  shows "\<exists>bss. edgeSteps self = map Inr bss
           \<and> (int (length (u self)) \<le> BYTESPLIT \<longrightarrow>
                (\<forall>t rest. readEdges t (concat bss @ rest) (int (length (u self)))
                   = Inr (t\<lparr>westI := westI t @ westI self, southI := southI t @ southI self,
                            eastI := eastI t @ eastI self, northI := northI t @ northI self\<rparr>, rest)))"
proof -
  let ?vc = "int (length (u self))"
  define meta where "meta = (if ?vc > BYTESPLIT then EdgeIndices32 else EdgeIndices16)"
  define ty where "ty = (if ?vc > BYTESPLIT then CHR ''I'' else CHR ''H'')"
  have tyc: "ty = CHR ''H'' \<or> ty = CHR ''I''" by (simp add: ty_def)
  have k: "getitem meta ''westVertexCount'' = Inr (CHR ''I'')" "getitem meta ''westIndices'' = Inr ty"
    "getitem meta ''southVertexCount'' = Inr (CHR ''I'')" "getitem meta ''southIndices'' = Inr ty"
    "getitem meta ''eastVertexCount'' = Inr (CHR ''I'')" "getitem meta ''eastIndices'' = Inr ty"
    "getitem meta ''northVertexCount'' = Inr (CHR ''I'')" "getitem meta ''northIndices'' = Inr ty"
    by (simp_all add: meta_def ty_def)
  have r: "list_all (\<lambda>i. 0 \<le> i \<and> i < (if ty = CHR ''H'' then 65536 else 4294967296)) (westI self)"
    "list_all (\<lambda>i. 0 \<le> i \<and> i < (if ty = CHR ''H'' then 65536 else 4294967296)) (southI self)"
    "list_all (\<lambda>i. 0 \<le> i \<and> i < (if ty = CHR ''H'' then 65536 else 4294967296)) (eastI self)"
    "list_all (\<lambda>i. 0 \<le> i \<and> i < (if ty = CHR ''H'' then 65536 else 4294967296)) (northI self)"
    using w s e n by (cases "?vc > BYTESPLIT"; simp add: ty_def)+
  from edgeBlock_packed[OF k(1,2) tyc r(1) lw] obtain wc wb where
    wb: "edgeBlock meta ''westVertexCount'' ''westIndices'' (westI self) = map Inr (wc # wb)"
    "\<And>rest. unpackEntry (wc @ rest) (CHR ''I'') = Inr (int (length (westI self)), rest)"
    "\<And>rest. iterUnpackIndices (concat wb @ rest) (length (westI self)) ty = Inr (westI self, rest)"
    by blast
  from edgeBlock_packed[OF k(3,4) tyc r(2) ls] obtain sc sb where
    sb: "edgeBlock meta ''southVertexCount'' ''southIndices'' (southI self) = map Inr (sc # sb)"
    "\<And>rest. unpackEntry (sc @ rest) (CHR ''I'') = Inr (int (length (southI self)), rest)"
    "\<And>rest. iterUnpackIndices (concat sb @ rest) (length (southI self)) ty = Inr (southI self, rest)"
    by blast
  from edgeBlock_packed[OF k(5,6) tyc r(3) le] obtain ec eb where
    eb: "edgeBlock meta ''eastVertexCount'' ''eastIndices'' (eastI self) = map Inr (ec # eb)"
    "\<And>rest. unpackEntry (ec @ rest) (CHR ''I'') = Inr (int (length (eastI self)), rest)"
    "\<And>rest. iterUnpackIndices (concat eb @ rest) (length (eastI self)) ty = Inr (eastI self, rest)"
    by blast
  from edgeBlock_packed[OF k(7,8) tyc r(4) ln] obtain nc nb where
    nb: "edgeBlock meta ''northVertexCount'' ''northIndices'' (northI self) = map Inr (nc # nb)"
    "\<And>rest. unpackEntry (nc @ rest) (CHR ''I'') = Inr (int (length (northI self)), rest)"
    "\<And>rest. iterUnpackIndices (concat nb @ rest) (length (northI self)) ty = Inr (northI self, rest)"
    by blast
  let ?bss = "(wc # wb) @ (sc # sb) @ (ec # eb) @ (nc # nb)"
  have steps: "edgeSteps self = map Inr ?bss"
    unfolding edgeSteps_def Let_def meta_def[symmetric] wb(1) sb(1) eb(1) nb(1) by simp
  have dec: "?vc \<le> BYTESPLIT \<longrightarrow>
                (\<forall>t rest. readEdges t (concat ?bss @ rest) ?vc
                   = Inr (t\<lparr>westI := westI t @ westI self, southI := southI t @ southI self,
                            eastI := eastI t @ eastI self, northI := northI t @ northI self\<rparr>, rest))"
  proof (intro impI allI)
    fix t rest
    assume small: "?vc \<le> BYTESPLIT"
    then have m: "meta = EdgeIndices16" "ty = CHR ''H''" by (simp_all add: meta_def ty_def)
    have sel: "(if BYTESPLIT < ?vc then indexData32 else EdgeIndices16) = EdgeIndices16"
      using small by simp
    show "readEdges t (concat ?bss @ rest) ?vc
                   = Inr (t\<lparr>westI := westI t @ westI self, southI := southI t @ southI self,
                            eastI := eastI t @ eastI self, northI := northI t @ northI self\<rparr>, rest)"
      unfolding readEdges_def Let_def sel
      by (simp add: wb(2,3)[unfolded m] sb(2,3)[unfolded m] eb(2,3)[unfolded m] nb(2,3)[unfolded m])
  qed
  from steps dec show ?thesis by blast
qed

lemma unpackEntryF_sized:
  assumes "ty = CHR ''d'' \<or> ty = CHR ''f''" and "calcsize ty = Some (length bs)"
  shows "\<exists>x. unpackEntryF fc (bs @ rest) ty = Inr (x, rest)"
  using assms by (auto simp: unpackEntryF_def calcsize_def)

lemma readHeader_packed:
  assumes "list_all (\<lambda>(k, ty). ty = CHR ''d'' \<or> ty = CHR ''f'') tb"
    and "list_all (\<lambda>(k, ty). (case step k ty of Inl e \<Rightarrow> False
                               | Inr bs \<Rightarrow> calcsize ty = Some (length bs))) tb"
  shows "\<exists>bss. map (\<lambda>(k, ty). step k ty) tb = map Inr bss
           \<and> (\<forall>hdr rest. \<exists>hdr'. readHeader fc tb hdr (concat bss @ rest) = Inr (hdr', rest))"
  using assms
proof (induction tb)
  case Nil
  then show ?case by simp
next
  case (Cons kt tb)
  obtain k ty where kt: "kt = (k, ty)" by (cases kt)
  from Cons.prems kt have fmt: "ty = CHR ''d'' \<or> ty = CHR ''f''" by simp
  from Cons.prems kt obtain bs where bs: "step k ty = Inr bs" "calcsize ty = Some (length bs)"
    by (cases "step k ty") auto
  from Cons.IH Cons.prems obtain bss where
    ih: "map (\<lambda>(k, ty). step k ty) tb = map Inr bss"
        "\<And>hdr rest. \<exists>hdr'. readHeader fc tb hdr (concat bss @ rest) = Inr (hdr', rest)"
    by auto
  have 1: "map (\<lambda>(k, ty). step k ty) (kt # tb) = map Inr (bs # bss)"
    by (simp add: kt bs ih(1))
  have 2: "\<forall>hdr rest. \<exists>hdr'. readHeader fc (kt # tb) hdr (concat (bs # bss) @ rest) = Inr (hdr', rest)"
  proof (intro allI)
    fix hdr rest
    from unpackEntryF_sized[OF fmt bs(2), of fc "concat bss @ rest"] obtain x where
      x: "unpackEntryF fc (bs @ concat bss @ rest) ty = Inr (x, concat bss @ rest)" by blast
    from ih(2)[of "hdr(k \<mapsto> x)" rest] obtain hdr' where
      "readHeader fc tb (hdr(k \<mapsto> x)) (concat bss @ rest) = Inr (hdr', rest)" by blast
    then have "readHeader fc (kt # tb) hdr (concat (bs # bss) @ rest) = Inr (hdr', rest)"
      by (simp add: kt x)
    then show "\<exists>hdr'. readHeader fc (kt # tb) hdr (concat (bs # bss) @ rest) = Inr (hdr', rest)"
      by blast
  qed
  from 1 2 show ?case by blast
qed

lemma header_section:
  assumes "headerPacks fc self"
  shows "\<exists>bss. headerSteps fc self = map Inr bss
           \<and> (\<forall>hdr rest. \<exists>hdr'. readHeader fc quantizedMeshHeader hdr (concat bss @ rest) = Inr (hdr', rest))"
proof -
  have f: "list_all (\<lambda>(k, ty). ty = CHR ''d'' \<or> ty = CHR ''f'') quantizedMeshHeader"
    by (simp add: quantizedMeshHeader_def)
  from readHeader_packed[OF f, of "\<lambda>k ty. bnd (getkey (header self) k) (packEntryF fc ty)" fc]
    assms
  show ?thesis by (simp add: headerPacks_def headerSteps_def)
qed

lemma lightPairs_packed:
  assumes "list_all (\<lambda>n. (case octEncode fc n of
                         Inl e \<Rightarrow> False
                       | Inr (x, y) \<Rightarrow> 0 \<le> x \<and> x < 256 \<and> 0 \<le> y \<and> y < 256
                                      \<and> (case octDecode fc x y of Inl e \<Rightarrow> False | Inr n' \<Rightarrow> True))) ns"
  shows "\<exists>bss vl. concat (map (\<lambda>n. (case octEncode fc n of
                                       Inl e \<Rightarrow> [Inl e]
                                     | Inr (x, y) \<Rightarrow> [packEntry (CHR ''B'') x, packEntry (CHR ''B'') y])) ns)
                     = map Inr bss
           \<and> length vl = length ns
           \<and> (\<forall>rest. iterLightPairs fc (concat bss @ rest) (length ns) (CHR ''B'') = Inr (vl, rest))"
  using assms
proof (induction ns)
  case Nil
  then show ?case by simp
next
  case (Cons n ns)
  from Cons.prems have hd: "(case octEncode fc n of
                         Inl e \<Rightarrow> False
                       | Inr (x, y) \<Rightarrow> 0 \<le> x \<and> x < 256 \<and> 0 \<le> y \<and> y < 256
                                      \<and> (case octDecode fc x y of Inl e \<Rightarrow> False | Inr n' \<Rightarrow> True))"
    by simp
  then obtain x y where e: "octEncode fc n = Inr (x, y)"
    by (cases "octEncode fc n") auto
  with hd have r: "0 \<le> x" "x < 256" "0 \<le> y" "y < 256"
    and d': "(case octDecode fc x y of Inl e \<Rightarrow> False | Inr n' \<Rightarrow> True)" by simp_all
  from d' obtain n' where d: "octDecode fc x y = Inr n'"
    by (cases "octDecode fc x y") auto
  from Cons.IH Cons.prems obtain bss vl where ih:
    "concat (map (\<lambda>n. (case octEncode fc n of
                                       Inl e \<Rightarrow> [Inl e]
                                     | Inr (x, y) \<Rightarrow> [packEntry (CHR ''B'') x, packEntry (CHR ''B'') y])) ns)
                     = map Inr bss"
    "length vl = length ns"
    "\<And>rest. iterLightPairs fc (concat bss @ rest) (length ns) (CHR ''B'') = Inr (vl, rest)"
    by auto
  have px: "packEntry (CHR ''B'') x = Inr (le_bytes 1 x)" and py: "packEntry (CHR ''B'') y = Inr (le_bytes 1 y)"
    using r by (simp_all add: packEntry_B)
  let ?bss = "le_bytes 1 x # le_bytes 1 y # bss"
  have 1: "concat (map (\<lambda>n. (case octEncode fc n of
                                       Inl e \<Rightarrow> [Inl e]
                                     | Inr (x, y) \<Rightarrow> [packEntry (CHR ''B'') x, packEntry (CHR ''B'') y])) (n # ns))
                     = map Inr ?bss"
    by (simp add: e px py ih(1))
  have 2: "\<forall>rest. iterLightPairs fc (concat ?bss @ rest) (length (n # ns)) (CHR ''B'') = Inr (n' # vl, rest)"
  proof
    fix rest
    have ux: "unpackEntry (le_bytes 1 x @ le_bytes 1 y @ concat bss @ rest) (CHR ''B'')
        = Inr (x, le_bytes 1 y @ concat bss @ rest)" by (rule unpackEntry_packEntry[OF px])
    have uy: "unpackEntry (le_bytes 1 y @ concat bss @ rest) (CHR ''B'')
        = Inr (y, concat bss @ rest)" by (rule unpackEntry_packEntry[OF py])
    show "iterLightPairs fc (concat ?bss @ rest) (length (n # ns)) (CHR ''B'') = Inr (n' # vl, rest)"
      using ux uy by (simp add: d ih(3) del: le_bytes.simps)
  qed
  have 3: "length (n' # vl) = length (n # ns)" by (simp add: ih(2))
  from 1 2 3 show ?case by blast
qed

lemma light_section:
  assumes ne: "vLight self \<noteq> []" and ok: "lightEncodable fc self" and len: "length (u self) < 2147483648"
  shows "\<exists>bss vl. lightSteps fc self = map Inr bss \<and> length vl = length (u self)
           \<and> (\<forall>t rest. hasLighting t = Some True \<longrightarrow>
                 readLight fc t (concat bss @ rest) = Inr (t\<lparr>vLight := vLight t @ vl\<rparr>, rest))"
proof -
  let ?n = "length (u self)"
  let ?ns = "take ?n (vLight self)"
  let ?F = "\<lambda>r. (case r of Inl e \<Rightarrow> [Inl e]
                 | Inr (x, y) \<Rightarrow> [bnd (getitem OctEncodedVertexNormals ''xy'') (\<lambda>ty. packEntry ty x),
                                 bnd (getitem OctEncodedVertexNormals ''xy'') (\<lambda>ty. packEntry ty y)])"
  from ok ne have le: "?n \<le> length (vLight self)" and all: "list_all (\<lambda>n. (case octEncode fc n of
                         Inl e \<Rightarrow> False
                       | Inr (x, y) \<Rightarrow> 0 \<le> x \<and> x < 256 \<and> 0 \<le> y \<and> y < 256
                                      \<and> (case octDecode fc x y of Inl e \<Rightarrow> False | Inr n' \<Rightarrow> True))) ?ns"
    by (simp_all add: lightEncodable_def)
  from lightPairs_packed[OF all] obtain bss vl where p:
    "concat (map (\<lambda>n. (case octEncode fc n of
                                       Inl e \<Rightarrow> [Inl e]
                                     | Inr (x, y) \<Rightarrow> [packEntry (CHR ''B'') x, packEntry (CHR ''B'') y])) ?ns)
                     = map Inr bss"
    "length vl = length ?ns"
    "\<And>rest. iterLightPairs fc (concat bss @ rest) (length ?ns) (CHR ''B'') = Inr (vl, rest)"
    by blast
  have ln: "length ?ns = ?n" using le by simp
  have m: "map (\<lambda>i. (case bnd (getidx (vLight self) (int i)) (octEncode fc) of
             Inl e \<Rightarrow> [Inl e]
           | Inr (x, y) \<Rightarrow>
               [bnd (getitem OctEncodedVertexNormals ''xy'') (\<lambda>ty. packEntry ty x),
                bnd (getitem OctEncodedVertexNormals ''xy'') (\<lambda>ty. packEntry ty y)])) [0 ..< ?n]
      = map (\<lambda>n. (case octEncode fc n of
                                       Inl e \<Rightarrow> [Inl e]
                                     | Inr (x, y) \<Rightarrow> [packEntry (CHR ''B'') x, packEntry (CHR ''B'') y])) ?ns"
  proof (rule nth_equalityI)
    show "length (map (\<lambda>i. (case bnd (getidx (vLight self) (int i)) (octEncode fc) of
             Inl e \<Rightarrow> [Inl e]
           | Inr (x, y) \<Rightarrow>
               [bnd (getitem OctEncodedVertexNormals ''xy'') (\<lambda>ty. packEntry ty x),
                bnd (getitem OctEncodedVertexNormals ''xy'') (\<lambda>ty. packEntry ty y)])) [0 ..< ?n])
      = length (map (\<lambda>n. (case octEncode fc n of
                                       Inl e \<Rightarrow> [Inl e]
                                     | Inr (x, y) \<Rightarrow> [packEntry (CHR ''B'') x, packEntry (CHR ''B'') y])) ?ns)"
      using le by simp
  next
    fix i assume "i < length (map (\<lambda>i. (case bnd (getidx (vLight self) (int i)) (octEncode fc) of
             Inl e \<Rightarrow> [Inl e]
           | Inr (x, y) \<Rightarrow>
               [bnd (getitem OctEncodedVertexNormals ''xy'') (\<lambda>ty. packEntry ty x),
                bnd (getitem OctEncodedVertexNormals ''xy'') (\<lambda>ty. packEntry ty y)])) [0 ..< ?n])"
    then have i: "i < ?n" by simp
    with le have il: "i < length (vLight self)" by simp
    show "map (\<lambda>i. (case bnd (getidx (vLight self) (int i)) (octEncode fc) of
             Inl e \<Rightarrow> [Inl e]
           | Inr (x, y) \<Rightarrow>
               [bnd (getitem OctEncodedVertexNormals ''xy'') (\<lambda>ty. packEntry ty x),
                bnd (getitem OctEncodedVertexNormals ''xy'') (\<lambda>ty. packEntry ty y)])) [0 ..< ?n] ! i
      = map (\<lambda>n. (case octEncode fc n of
                                       Inl e \<Rightarrow> [Inl e]
                                     | Inr (x, y) \<Rightarrow> [packEntry (CHR ''B'') x, packEntry (CHR ''B'') y])) ?ns ! i"
      using i il by (simp add: getidx_nat split: sum.splits prod.splits)
  qed
  have idp: "packEntry (CHR ''B'') 1 = Inr (le_bytes 1 1)" by (simp add: packEntry_B)
  have lnp: "packEntry (CHR ''I'') (2 * int ?n) = Inr (le_bytes 4 (2 * int ?n))"
    using len by (simp add: packEntry_I)
  let ?bss = "le_bytes 1 1 # le_bytes 4 (2 * int ?n) # bss"
  have steps: "lightSteps fc self = map Inr ?bss"
    unfolding lightSteps_def Let_def m p(1) by (simp add: idp lnp del: le_bytes.simps)
  have dec: "\<forall>t rest. hasLighting t = Some True \<longrightarrow>
                 readLight fc t (concat ?bss @ rest) = Inr (t\<lparr>vLight := vLight t @ vl\<rparr>, rest)"
  proof (intro allI impI)
    fix t :: tile and rest :: "byte list"
    assume hl: "hasLighting t = Some True"
    have u1: "unpackEntry (le_bytes 1 1 @ le_bytes 4 (2 * int ?n) @ concat bss @ rest) (CHR ''B'')
        = Inr (1, le_bytes 4 (2 * int ?n) @ concat bss @ rest)" by (rule unpackEntry_packEntry[OF idp])
    have u2: "unpackEntry (le_bytes 4 (2 * int ?n) @ concat bss @ rest) (CHR ''I'')
        = Inr (2 * int ?n, concat bss @ rest)" by (rule unpackEntry_packEntry[OF lnp])
    have it: "iterUnpackAndDecodeLight fc (concat bss @ rest) (2 * int ?n) (CHR ''B'') = Inr (vl, rest)"
      using p(3)[of rest] le by (simp add: iterUnpackAndDecodeLight_def min_absorb2)
    show "readLight fc t (concat ?bss @ rest) = Inr (t\<lparr>vLight := vLight t @ vl\<rparr>, rest)"
      using u1 u2 it by (simp add: readLight_def hl del: le_bytes.simps)
  qed
  have lv: "length vl = ?n" using p(2) ln by simp
  from steps dec lv show ?thesis by blast
qed

lemma cell_step:
  "cellOk c \<Longrightarrow> \<exists>b. c = Some b \<and>
     bnd (getitem WaterMask ''xy'') (\<lambda>ty. bnd (intOf c) (packEntry ty)) = Inr (le_bytes 1 b)
     \<and> packEntry (CHR ''B'') b = Inr (le_bytes 1 b)"
  by (cases c) (simp_all add: cellOk_def intOf_def packEntry_B)

lemma watermask_row_packed:
  assumes "list_all cellOk cs" and "i + length cs = 256" and "i < 256"
  shows "\<exists>bss. map (\<lambda>y. bnd (getitem WaterMask ''xy'') (\<lambda>ty. bnd (intOf y) (packEntry ty))) cs = map Inr bss
           \<and> (\<forall>rest n acc. iterUnpackWatermaskRow (concat bss @ rest) (n + length cs) (CHR ''B'') i acc
                  = bnd (iterUnpackWatermaskRow rest n (CHR ''B'') 0 [])
                        (\<lambda>(rows, f). Inr ((acc @ cs) # rows, f)))"
  using assms
proof (induction cs arbitrary: i)
  case Nil
  then show ?case by simp
next
  case (Cons c cs)
  from Cons.prems(1) cell_step[of c] obtain b where b: "c = Some b"
    "bnd (getitem WaterMask ''xy'') (\<lambda>ty. bnd (intOf c) (packEntry ty)) = Inr (le_bytes 1 b)"
    "packEntry (CHR ''B'') b = Inr (le_bytes 1 b)" by auto
  show ?case
  proof (cases "cs = []")
    case True
    with Cons.prems have i: "i = 255" by simp
    have "\<forall>rest n acc. iterUnpackWatermaskRow (concat [le_bytes 1 b] @ rest) (n + length (c # cs)) (CHR ''B'') i acc
                  = bnd (iterUnpackWatermaskRow rest n (CHR ''B'') 0 [])
                        (\<lambda>(rows, f). Inr ((acc @ (c # cs)) # rows, f))"
    proof (intro allI)
      fix rest n acc
      have "unpackEntry (le_bytes 1 b @ rest) (CHR ''B'') = Inr (b, rest)"
        by (rule unpackEntry_packEntry[OF b(3)])
      then show "iterUnpackWatermaskRow (concat [le_bytes 1 b] @ rest) (n + length (c # cs)) (CHR ''B'') i acc
                  = bnd (iterUnpackWatermaskRow rest n (CHR ''B'') 0 [])
                        (\<lambda>(rows, f). Inr ((acc @ (c # cs)) # rows, f))"
        by (simp add: True i b(1) del: le_bytes.simps)
    qed
    moreover have "map (\<lambda>y. bnd (getitem WaterMask ''xy'') (\<lambda>ty. bnd (intOf y) (packEntry ty))) (c # cs)
        = map Inr [le_bytes 1 b]" using True b(2) by simp
    ultimately show ?thesis by blast
  next
    case False
    with Cons.prems have i: "i < 255" "Suc i + length cs = 256" "Suc i < 256"
      by (cases cs; simp)+
    from Cons.IH[OF _ i(2,3)] Cons.prems(1) obtain bss where ih:
      "map (\<lambda>y. bnd (getitem WaterMask ''xy'') (\<lambda>ty. bnd (intOf y) (packEntry ty))) cs = map Inr bss"
      "\<And>rest n acc. iterUnpackWatermaskRow (concat bss @ rest) (n + length cs) (CHR ''B'') (Suc i) acc
                  = bnd (iterUnpackWatermaskRow rest n (CHR ''B'') 0 [])
                        (\<lambda>(rows, f). Inr ((acc @ cs) # rows, f))"
      by auto
    have "\<forall>rest n acc. iterUnpackWatermaskRow (concat (le_bytes 1 b # bss) @ rest) (n + length (c # cs)) (CHR ''B'') i acc
                  = bnd (iterUnpackWatermaskRow rest n (CHR ''B'') 0 [])
                        (\<lambda>(rows, f). Inr ((acc @ (c # cs)) # rows, f))"
    proof (intro allI)
      fix rest n acc
      have "unpackEntry (le_bytes 1 b @ concat bss @ rest) (CHR ''B'') = Inr (b, concat bss @ rest)"
        by (rule unpackEntry_packEntry[OF b(3)])
      then show "iterUnpackWatermaskRow (concat (le_bytes 1 b # bss) @ rest) (n + length (c # cs)) (CHR ''B'') i acc
                  = bnd (iterUnpackWatermaskRow rest n (CHR ''B'') 0 [])
                        (\<lambda>(rows, f). Inr ((acc @ (c # cs)) # rows, f))"
        using i(1) ih(2)[of rest n "acc @ [Some b]"] by (simp add: b(1) del: le_bytes.simps)
    qed
    moreover have "map (\<lambda>y. bnd (getitem WaterMask ''xy'') (\<lambda>ty. bnd (intOf y) (packEntry ty))) (c # cs)
        = map Inr (le_bytes 1 b # bss)" using b(2) ih(1) by simp
    ultimately show ?thesis by blast
  qed
qed

lemma watermask_rows_packed:
  assumes "list_all (\<lambda>row. length row = 256 \<and> list_all cellOk row) rows"
  shows "\<exists>bss. concat (map rowSteps rows) = map Inr bss
           \<and> (\<forall>rest. iterUnpackWatermaskRow (concat bss @ rest) (256 * length rows) (CHR ''B'') 0 []
                  = Inr (rows, rest))"
  using assms
proof (induction rows)
  case Nil
  then show ?case by simp
next
  case (Cons row rows)
  then have r: "length row = 256" "list_all cellOk row" by simp_all
  from watermask_row_packed[OF r(2), of 0] r(1) obtain rb where rb:
    "map (\<lambda>y. bnd (getitem WaterMask ''xy'') (\<lambda>ty. bnd (intOf y) (packEntry ty))) row = map Inr rb"
    "\<And>rest n acc. iterUnpackWatermaskRow (concat rb @ rest) (n + length row) (CHR ''B'') 0 acc
                  = bnd (iterUnpackWatermaskRow rest n (CHR ''B'') 0 [])
                        (\<lambda>(rows, f). Inr ((acc @ row) # rows, f))"
    by auto
  from Cons obtain bss where ih: "concat (map rowSteps rows) = map Inr bss"
    "\<And>rest. iterUnpackWatermaskRow (concat bss @ rest) (256 * length rows) (CHR ''B'') 0 [] = Inr (rows, rest)"
    by auto
  have 1: "concat (map rowSteps (row # rows)) = map Inr (rb @ bss)"
    using rb(1) ih(1) r(1) by (simp add: rowSteps_def)
  have 2: "\<forall>rest. iterUnpackWatermaskRow (concat (rb @ bss) @ rest) (256 * length (row # rows)) (CHR ''B'') 0 []
                  = Inr (row # rows, rest)"
  proof
    fix rest
    have "256 * length (row # rows) = 256 * length rows + length row" using r(1) by simp
    then show "iterUnpackWatermaskRow (concat (rb @ bss) @ rest) (256 * length (row # rows)) (CHR ''B'') 0 []
                  = Inr (row # rows, rest)"
      using rb(2)[of "concat bss @ rest" "256 * length rows" "[]"] ih(2)[of rest]
      by (simp add: add.commute)
  qed
  from 1 2 show ?case by blast
qed

lemma watermask_section:
  assumes "uniformMask (watermask self) \<or> gridMask (watermask self)"
  shows "\<exists>wb. (\<forall>f. writeWatermask self f = (None, self\<lparr>hasWatermask := True\<rparr>, f @ wb))
           \<and> (\<forall>t rest. hasWatermask t \<longrightarrow>
                 readWatermask t (wb @ rest) = Inr (t\<lparr>watermask := watermask t @ watermask self\<rparr>, rest))"
  using assms
proof
  assume "uniformMask (watermask self)"
  then obtain c where wm: "watermask self = [[c]]" and c: "cellOk c"
    by (auto simp: uniformMask_def split: list.splits)
  from cell_step[OF c] obtain b where b: "c = Some b"
    "bnd (getitem WaterMask ''xy'') (\<lambda>ty. bnd (intOf c) (packEntry ty)) = Inr (le_bytes 1 b)"
    "packEntry (CHR ''B'') b = Inr (le_bytes 1 b)" by auto
  have p2: "packEntry (CHR ''B'') 2 = Inr (le_bytes 1 2)" by (simp add: packEntry_B)
  have p1: "packEntry (CHR ''I'') 1 = Inr (le_bytes 4 1)" by (simp add: packEntry_I)
  let ?wb = "le_bytes 1 2 @ le_bytes 4 1 @ le_bytes 1 b"
  have w: "\<forall>f. writeWatermask self f = (None, self\<lparr>hasWatermask := True\<rparr>, f @ ?wb)"
    using b(2)
    by (simp add: writeWatermask_def wm Let_def p2 p1 getidx_0 b(1) del: le_bytes.simps)
  have r: "\<forall>t rest. hasWatermask t \<longrightarrow>
                 readWatermask t (?wb @ rest) = Inr (t\<lparr>watermask := watermask t @ watermask self\<rparr>, rest)"
  proof (intro allI impI)
    fix t :: tile and rest :: "byte list"
    assume hw: "hasWatermask t"
    have u1: "unpackEntry (le_bytes 1 2 @ le_bytes 4 1 @ le_bytes 1 b @ rest) (CHR ''B'')
        = Inr (2, le_bytes 4 1 @ le_bytes 1 b @ rest)" by (rule unpackEntry_packEntry[OF p2])
    have u2: "unpackEntry (le_bytes 4 1 @ le_bytes 1 b @ rest) (CHR ''I'')
        = Inr (1, le_bytes 1 b @ rest)" by (rule unpackEntry_packEntry[OF p1])
    have u3: "unpackEntry (le_bytes 1 b @ rest) (CHR ''B'') = Inr (b, rest)"
      by (rule unpackEntry_packEntry[OF b(3)])
    have it: "iterUnpackWatermaskRow (le_bytes 1 b @ rest) (nat 1) (CHR ''B'') 0 [] = Inr ([[Some b]], rest)"
      using u3 by (simp del: le_bytes.simps)
    show "readWatermask t (?wb @ rest) = Inr (t\<lparr>watermask := watermask t @ watermask self\<rparr>, rest)"
      using u1 u2 it by (simp add: readWatermask_def hw wm b(1) del: le_bytes.simps)
  qed
  from w r show ?thesis by blast
next
  assume g: "gridMask (watermask self)"
  then have len: "length (watermask self) = 256"
    and rows: "list_all (\<lambda>row. length row = 256 \<and> list_all cellOk row) (watermask self)"
    by (simp_all add: gridMask_def)
  from watermask_rows_packed[OF rows] obtain bss where bss:
    "concat (map rowSteps (watermask self)) = map Inr bss"
    "\<And>rest. iterUnpackWatermaskRow (concat bss @ rest) (256 * length (watermask self)) (CHR ''B'') 0 []
                  = Inr (watermask self, rest)" by blast
  have p2: "packEntry (CHR ''B'') 2 = Inr (le_bytes 1 2)" by (simp add: packEntry_B)
  have pl: "packEntry (CHR ''I'') TILEPXS = Inr (le_bytes 4 65536)" by (simp add: packEntry_I TILEPXS_def)
  have ne: "watermask self \<noteq> []" using len by auto
  let ?wb = "le_bytes 1 2 @ le_bytes 4 65536 @ concat bss"
  have w: "\<forall>f. writeWatermask self f = (None, self\<lparr>hasWatermask := True\<rparr>, f @ ?wb)"
  proof
    fix f
    have "writeAll ([Inr (le_bytes 1 2), Inr (le_bytes 4 65536)] @ map Inr bss) f
        = (None, f @ concat ([le_bytes 1 2, le_bytes 4 65536] @ bss))"
      using writeAll_map_Inr[of "[le_bytes 1 2, le_bytes 4 65536] @ bss" f] by simp
    then show "writeWatermask self f = (None, self\<lparr>hasWatermask := True\<rparr>, f @ ?wb)"
      by (simp add: writeWatermask_def ne Let_def len p2 pl bss(1) del: le_bytes.simps)
  qed
  have r: "\<forall>t rest. hasWatermask t \<longrightarrow>
                 readWatermask t (?wb @ rest) = Inr (t\<lparr>watermask := watermask t @ watermask self\<rparr>, rest)"
  proof (intro allI impI)
    fix t :: tile and rest :: "byte list"
    assume hw: "hasWatermask t"
    have u1: "unpackEntry (le_bytes 1 2 @ le_bytes 4 65536 @ concat bss @ rest) (CHR ''B'')
        = Inr (2, le_bytes 4 65536 @ concat bss @ rest)" by (rule unpackEntry_packEntry[OF p2])
    have u2: "unpackEntry (le_bytes 4 65536 @ concat bss @ rest) (CHR ''I'')
        = Inr (TILEPXS, concat bss @ rest)" by (rule unpackEntry_packEntry[OF pl])
    have it: "iterUnpackWatermaskRow (concat bss @ rest) (nat TILEPXS) (CHR ''B'') 0 [] = Inr (watermask self, rest)"
      using bss(2)[of rest] by (simp add: len TILEPXS_def)
    show "readWatermask t (?wb @ rest) = Inr (t\<lparr>watermask := watermask t @ watermask self\<rparr>, rest)"
      using u1 u2 it by (simp add: readWatermask_def hw del: le_bytes.simps)
  qed
  from w r show ?thesis by blast
qed

lemma geometry_section:
  assumes enc: "encodable fc self"
  shows "\<exists>gb. (\<forall>f. writeAll (headerSteps fc self @ vertexSteps self @ indexSteps self @ edgeSteps self) f
                   = (None, f @ gb))
     \<and> (int (length (u self)) \<le> BYTESPLIT \<longrightarrow>
          (\<forall>t rest hl hw. \<exists>hdr'. readGeometry fc t (gb @ rest) hl hw
             = Inr (t\<lparr>hasLighting := Some hl, hasWatermask := hw, header := hdr',
                      u := u t @ u self, v := v t @ v self, h := h t @ h self,
                      indices := indices self,
                      westI := westI t @ westI self, southI := southI t @ southI self,
                      eastI := eastI t @ eastI self, northI := northI t @ northI self\<rparr>, rest)))
     \<and> (int (length (u self)) > BYTESPLIT \<longrightarrow>
          (\<forall>t rest hl hw. readGeometry fc t (gb @ rest) hl hw = Inl (KeyError ''westVertexCount'')))"
proof -
  let ?vc = "int (length (u self))"
  from enc have hp: "headerPacks fc self" by (simp add: encodable_def)
  from header_section[OF hp] obtain hb where hb: "headerSteps fc self = map Inr hb"
    "\<And>hdr rest. \<exists>hdr'. readHeader fc quantizedMeshHeader hdr (concat hb @ rest) = Inr (hdr', rest)"
    by blast
  from enc have v: "u self \<noteq> []" "length (v self) = length (u self)" "length (h self) = length (u self)"
    "length (u self) < 4294967296"
    "list_all (\<lambda>x. 0 \<le> x \<and> x \<le> 32767) (u self)"
    "list_all (\<lambda>x. 0 \<le> x \<and> x \<le> 32767) (v self)"
    "list_all (\<lambda>x. 0 \<le> x \<and> x \<le> 32767) (h self)"
    by (simp_all add: encodable_def quantized_def)
  from vertex_section[OF v] obtain vb where vb: "vertexSteps self = map Inr vb"
    "\<And>t rest. readVertices t (concat vb @ rest)
                 = Inr (t\<lparr>u := u t @ u self, v := v t @ v self, h := h t @ h self\<rparr>, rest, ?vc)"
    by blast
  from enc have i: "length (indices self) mod 3 = 0" "length (indices self) div 3 < 4294967296"
    "list_all (\<lambda>c. 0 \<le> c \<and> c < (if ?vc > BYTESPLIT then 4294967296 else 65536)) (encodeIndices (indices self))"
    by (simp_all add: encodable_def indexWord_def)
  from index_section[OF i] obtain ib where ib: "indexSteps self = map Inr ib"
    "\<And>t rest. readIndices t (concat ib @ rest) ?vc = Inr (t\<lparr>indices := indices self\<rparr>, rest)"
    by blast
  from enc have e:
    "list_all (\<lambda>i. 0 \<le> i \<and> i < (if ?vc > BYTESPLIT then 4294967296 else 65536)) (westI self)"
    "list_all (\<lambda>i. 0 \<le> i \<and> i < (if ?vc > BYTESPLIT then 4294967296 else 65536)) (southI self)"
    "list_all (\<lambda>i. 0 \<le> i \<and> i < (if ?vc > BYTESPLIT then 4294967296 else 65536)) (eastI self)"
    "list_all (\<lambda>i. 0 \<le> i \<and> i < (if ?vc > BYTESPLIT then 4294967296 else 65536)) (northI self)"
    "length (westI self) < 4294967296" "length (southI self) < 4294967296"
    "length (eastI self) < 4294967296" "length (northI self) < 4294967296"
    by (simp_all add: encodable_def indexWord_def)
  from edge_section[OF e] obtain eb where eb: "edgeSteps self = map Inr eb"
    "\<And>t rest. ?vc \<le> BYTESPLIT \<Longrightarrow> readEdges t (concat eb @ rest) ?vc
                   = Inr (t\<lparr>westI := westI t @ westI self, southI := southI t @ southI self,
                            eastI := eastI t @ eastI self, northI := northI t @ northI self\<rparr>, rest)"
    by blast
  let ?gb = "concat hb @ concat vb @ concat ib @ concat eb"
  have w: "\<forall>f. writeAll (headerSteps fc self @ vertexSteps self @ indexSteps self @ edgeSteps self) f
                   = (None, f @ ?gb)"
  proof
    fix f
    have "headerSteps fc self @ vertexSteps self @ indexSteps self @ edgeSteps self
        = map Inr (hb @ vb @ ib @ eb)" by (simp add: hb(1) vb(1) ib(1) eb(1))
    then show "writeAll (headerSteps fc self @ vertexSteps self @ indexSteps self @ edgeSteps self) f
                   = (None, f @ ?gb)"
      using writeAll_map_Inr[of "hb @ vb @ ib @ eb" f] by simp
  qed
  have small: "?vc \<le> BYTESPLIT \<longrightarrow>
          (\<forall>t rest hl hw. \<exists>hdr'. readGeometry fc t (?gb @ rest) hl hw
             = Inr (t\<lparr>hasLighting := Some hl, hasWatermask := hw, header := hdr',
                      u := u t @ u self, v := v t @ v self, h := h t @ h self,
                      indices := indices self,
                      westI := westI t @ westI self, southI := southI t @ southI self,
                      eastI := eastI t @ eastI self, northI := northI t @ northI self\<rparr>, rest))"
  proof (intro impI allI)
    fix t :: tile and rest :: "byte list" and hl hw
    assume s: "?vc \<le> BYTESPLIT"
    let ?t0 = "t\<lparr>hasLighting := Some hl, hasWatermask := hw\<rparr>"
    from hb(2)[of "header t" "concat vb @ concat ib @ concat eb @ rest"] obtain hdr' where
      h: "readHeader fc quantizedMeshHeader (header t) (concat hb @ concat vb @ concat ib @ concat eb @ rest)
          = Inr (hdr', concat vb @ concat ib @ concat eb @ rest)" by blast
    have "readGeometry fc t (?gb @ rest) hl hw
             = Inr (t\<lparr>hasLighting := Some hl, hasWatermask := hw, header := hdr',
                      u := u t @ u self, v := v t @ v self, h := h t @ h self,
                      indices := indices self,
                      westI := westI t @ westI self, southI := southI t @ southI self,
                      eastI := eastI t @ eastI self, northI := northI t @ northI self\<rparr>, rest)"
      by (simp add: readGeometry_def Let_def h vb(2) ib(2) eb(2)[OF s])
    then show "\<exists>hdr'. readGeometry fc t (?gb @ rest) hl hw
             = Inr (t\<lparr>hasLighting := Some hl, hasWatermask := hw, header := hdr',
                      u := u t @ u self, v := v t @ v self, h := h t @ h self,
                      indices := indices self,
                      westI := westI t @ westI self, southI := southI t @ southI self,
                      eastI := eastI t @ eastI self, northI := northI t @ northI self\<rparr>, rest)"
      by blast
  qed
  have big: "?vc > BYTESPLIT \<longrightarrow>
          (\<forall>t rest hl hw. readGeometry fc t (?gb @ rest) hl hw = Inl (KeyError ''westVertexCount''))"
  proof (intro impI allI)
    fix t :: tile and rest :: "byte list" and hl hw
    assume b: "?vc > BYTESPLIT"
    let ?t0 = "t\<lparr>hasLighting := Some hl, hasWatermask := hw\<rparr>"
    from hb(2)[of "header t" "concat vb @ concat ib @ concat eb @ rest"] obtain hdr' where
      h: "readHeader fc quantizedMeshHeader (header t) (concat hb @ concat vb @ concat ib @ concat eb @ rest)
          = Inr (hdr', concat vb @ concat ib @ concat eb @ rest)" by blast
    show "readGeometry fc t (?gb @ rest) hl hw = Inl (KeyError ''westVertexCount'')"
      by (simp add: readGeometry_def Let_def h vb(2) ib(2) readEdges_above_threshold[OF b])
  qed
  from w small big show ?thesis by blast
qed

lemma writeLight_none: "vLight self = [] \<Longrightarrow> writeLight fc self f = (None, self, f)"
  by (simp add: writeLight_def)

lemma readLight_undeclared: "hasLighting t = Some False \<Longrightarrow> readLight fc t f = Inr (t, f)"
  by (simp add: readLight_def)

lemma writeWatermask_none: "watermask self = [] \<Longrightarrow> writeWatermask self f = (None, self, f)"
  by (simp add: writeWatermask_def)

lemma readWatermask_undeclared: "\<not> hasWatermask t \<Longrightarrow> readWatermask t f = Inr (t, f)"
  by (simp add: readWatermask_def)

lemma extension_sections:
  assumes enc: "encodable fc self"
    and mask: "watermask self = [] \<or> uniformMask (watermask self) \<or> gridMask (watermask self)"
  shows "\<exists>xb vl.
      (\<forall>f. (case writeLight fc self f of
               (Some e, s, f') \<Rightarrow> (Some e, s, f')
             | (None, s, f') \<Rightarrow> writeWatermask s f')
            = (None, self\<lparr>hasLighting := (if vLight self = [] then hasLighting self else Some True),
                          hasWatermask := (hasWatermask self \<or> watermask self \<noteq> [])\<rparr>, f @ xb))
      \<and> length vl = (if vLight self = [] then 0 else length (u self))
      \<and> (\<forall>t. hasLighting t = Some (vLight self \<noteq> []) \<longrightarrow> hasWatermask t = (watermask self \<noteq> []) \<longrightarrow>
            bnd (readLight fc t xb) (\<lambda>(s, f). readWatermask s f)
              = Inr (t\<lparr>vLight := vLight t @ vl, watermask := watermask t @ watermask self\<rparr>, []))"
proof -
  have "\<exists>lb vl. (\<forall>f. writeLight fc self f
                       = (None, self\<lparr>hasLighting := (if vLight self = [] then hasLighting self else Some True)\<rparr>, f @ lb))
        \<and> length vl = (if vLight self = [] then 0 else length (u self))
        \<and> (\<forall>t rest. hasLighting t = Some (vLight self \<noteq> []) \<longrightarrow>
               readLight fc t (lb @ rest) = Inr (t\<lparr>vLight := vLight t @ vl\<rparr>, rest))"
  proof (cases "vLight self = []")
    case True
    then have "(\<forall>f. writeLight fc self f
                       = (None, self\<lparr>hasLighting := (if vLight self = [] then hasLighting self else Some True)\<rparr>, f @ []))
        \<and> length ([] :: vec3 list) = (if vLight self = [] then 0 else length (u self))
        \<and> (\<forall>t rest. hasLighting t = Some (vLight self \<noteq> []) \<longrightarrow>
               readLight fc t ([] @ rest) = Inr (t\<lparr>vLight := vLight t @ []\<rparr>, rest))"
      by (simp add: writeLight_none readLight_undeclared)
    then show ?thesis by blast
  next
    case False
    from enc have le: "lightEncodable fc self" and n: "length (u self) < 2147483648"
      by (simp_all add: encodable_def)
    from light_section[OF False le n] obtain bss vl where l: "lightSteps fc self = map Inr bss"
      "length vl = length (u self)"
      "\<And>t rest. hasLighting t = Some True \<Longrightarrow>
                 readLight fc t (concat bss @ rest) = Inr (t\<lparr>vLight := vLight t @ vl\<rparr>, rest)"
      by blast
    have ls: "lightSteps fc (self\<lparr>hasLighting := Some True\<rparr>) = lightSteps fc self"
      by (simp add: lightSteps_def)
    have "\<forall>f. writeLight fc self f = (None, self\<lparr>hasLighting := Some True\<rparr>, f @ concat bss)"
      using False by (simp add: writeLight_def Let_def ls l(1) writeAll_map_Inr)
    with False l(2,3) have "(\<forall>f. writeLight fc self f
                       = (None, self\<lparr>hasLighting := (if vLight self = [] then hasLighting self else Some True)\<rparr>, f @ concat bss))
        \<and> length vl = (if vLight self = [] then 0 else length (u self))
        \<and> (\<forall>t rest. hasLighting t = Some (vLight self \<noteq> []) \<longrightarrow>
               readLight fc t (concat bss @ rest) = Inr (t\<lparr>vLight := vLight t @ vl\<rparr>, rest))"
      by simp
    then show ?thesis by blast
  qed
  then obtain lb vl where lb:
    "\<And>f. writeLight fc self f
         = (None, self\<lparr>hasLighting := (if vLight self = [] then hasLighting self else Some True)\<rparr>, f @ lb)"
    "length vl = (if vLight self = [] then 0 else length (u self))"
    "\<And>t rest. hasLighting t = Some (vLight self \<noteq> []) \<Longrightarrow>
               readLight fc t (lb @ rest) = Inr (t\<lparr>vLight := vLight t @ vl\<rparr>, rest)"
    by blast
  let ?s1 = "self\<lparr>hasLighting := (if vLight self = [] then hasLighting self else Some True)\<rparr>"
  have wm1: "watermask ?s1 = watermask self" by simp
  have "\<exists>wb. (\<forall>f. writeWatermask ?s1 f
                    = (None, ?s1\<lparr>hasWatermask := (hasWatermask self \<or> watermask self \<noteq> [])\<rparr>, f @ wb))
        \<and> (\<forall>t. hasWatermask t = (watermask self \<noteq> []) \<longrightarrow>
               readWatermask t wb = Inr (t\<lparr>watermask := watermask t @ watermask self\<rparr>, []))"
  proof (cases "watermask self = []")
    case True
    then have "(\<forall>f. writeWatermask ?s1 f
                    = (None, ?s1\<lparr>hasWatermask := (hasWatermask self \<or> watermask self \<noteq> [])\<rparr>, f @ []))
        \<and> (\<forall>t. hasWatermask t = (watermask self \<noteq> []) \<longrightarrow>
               readWatermask t [] = Inr (t\<lparr>watermask := watermask t @ watermask self\<rparr>, []))"
      by (simp add: writeWatermask_none readWatermask_undeclared)
    then show ?thesis by blast
  next
    case False
    with mask have m: "uniformMask (watermask ?s1) \<or> gridMask (watermask ?s1)" by simp
    from watermask_section[OF m] obtain wb where wb:
      "\<And>f. writeWatermask ?s1 f = (None, ?s1\<lparr>hasWatermask := True\<rparr>, f @ wb)"
      "\<And>t rest. hasWatermask t \<Longrightarrow>
                 readWatermask t (wb @ rest) = Inr (t\<lparr>watermask := watermask t @ watermask ?s1\<rparr>, rest)"
      by blast
    have "(\<forall>f. writeWatermask ?s1 f
                    = (None, ?s1\<lparr>hasWatermask := (hasWatermask self \<or> watermask self \<noteq> [])\<rparr>, f @ wb))
        \<and> (\<forall>t. hasWatermask t = (watermask self \<noteq> []) \<longrightarrow>
               readWatermask t wb = Inr (t\<lparr>watermask := watermask t @ watermask self\<rparr>, []))"
      using False wb(1) wb(2)[of _ "[]"] by simp
    then show ?thesis by blast
  qed
  then obtain wb where wb:
    "\<And>f. writeWatermask ?s1 f
          = (None, ?s1\<lparr>hasWatermask := (hasWatermask self \<or> watermask self \<noteq> [])\<rparr>, f @ wb)"
    "\<And>t. hasWatermask t = (watermask self \<noteq> []) \<Longrightarrow>
               readWatermask t wb = Inr (t\<lparr>watermask := watermask t @ watermask self\<rparr>, [])"
    by blast
  have 1: "\<forall>f. (case writeLight fc self f of
               (Some e, s, f') \<Rightarrow> (Some e, s, f')
             | (None, s, f') \<Rightarrow> writeWatermask s f')
            = (None, self\<lparr>hasLighting := (if vLight self = [] then hasLighting self else Some True),
                          hasWatermask := (hasWatermask self \<or> watermask self \<noteq> [])\<rparr>, f @ (lb @ wb))"
    by (simp add: lb(1) wb(1))
  have 2: "\<forall>t. hasLighting t = Some (vLight self \<noteq> []) \<longrightarrow> hasWatermask t = (watermask self \<noteq> []) \<longrightarrow>
            bnd (readLight fc t (lb @ wb)) (\<lambda>(s, f). readWatermask s f)
              = Inr (t\<lparr>vLight := vLight t @ vl, watermask := watermask t @ watermask self\<rparr>, [])"
  proof (intro allI impI)
    fix t :: tile
    assume hl: "hasLighting t = Some (vLight self \<noteq> [])" and hw: "hasWatermask t = (watermask self \<noteq> [])"
    have hw': "hasWatermask (t\<lparr>vLight := vLight t @ vl\<rparr>) = (watermask self \<noteq> [])" using hw by simp
    show "bnd (readLight fc t (lb @ wb)) (\<lambda>(s, f). readWatermask s f)
              = Inr (t\<lparr>vLight := vLight t @ vl, watermask := watermask t @ watermask self\<rparr>, [])"
      by (simp add: lb(3)[OF hl] wb(2)[OF hw'])
  qed
  from 1 2 lb(2) show ?thesis by blast
qed


lemma decode_fails_above_threshold:
  assumes enc: "encodable fc self" and big: "int (length (u self)) > BYTESPLIT"
    and mask: "watermask self = [] \<or> uniformMask (watermask self) \<or> gridMask (watermask self)"
  shows "\<exists>bytes.
      writeTo fc self []
        = (None, self\<lparr>hasLighting := (if vLight self = [] then hasLighting self else Some True),
                      hasWatermask := (hasWatermask self \<or> watermask self \<noteq> [])\<rparr>, bytes)
      \<and> (\<forall>t hl hw. fromBytesIO fc t bytes hl hw = Inl (KeyError ''westVertexCount''))"
proof -
  from geometry_section[OF enc] big obtain gb where gb:
    "\<And>f. writeAll (headerSteps fc self @ vertexSteps self @ indexSteps self @ edgeSteps self) f = (None, f @ gb)"
    "\<And>t rest hl hw. readGeometry fc t (gb @ rest) hl hw = Inl (KeyError ''westVertexCount'')"
    by blast
  from extension_sections[OF enc mask] obtain xb where xb:
    "\<And>f. (case writeLight fc self f of
               (Some e, s, f') \<Rightarrow> (Some e, s, f')
             | (None, s, f') \<Rightarrow> writeWatermask s f')
            = (None, self\<lparr>hasLighting := (if vLight self = [] then hasLighting self else Some True),
                          hasWatermask := (hasWatermask self \<or> watermask self \<noteq> [])\<rparr>, f @ xb)"
    by blast
  have w: "writeTo fc self []
        = (None, self\<lparr>hasLighting := (if vLight self = [] then hasLighting self else Some True),
                      hasWatermask := (hasWatermask self \<or> watermask self \<noteq> [])\<rparr>, gb @ xb)"
    unfolding writeTo_def gb by (simp add: xb(1)[of gb, simplified])
  have "\<forall>t hl hw. fromBytesIO fc t (gb @ xb) hl hw = Inl (KeyError ''westVertexCount'')"
    by (simp add: fromBytesIO_def gb(2))
  with w show ?thesis by blast
qed


section \<open>Claim C4: the default file entry point never overwrites\<close>

text \<open>
  Claim C4. When the destination is an existing file, \<^verbatim>\<open>toFile\<close> raises the IOError
  ``File ... already exists'' and returns the file system and the tile as they were, so the
  existing file keeps its content; \<^verbatim>\<open>toOurFile\<close> at the same path replaces the content by
  what \<^verbatim>\<open>_writeTo\<close> wrote (compressed when \<open>gzipped\<close>). Only \<^verbatim>\<open>toOurFile\<close> overwrites.
\<close>

theorem toFile_existing_destination:
  "fs filePath = Some (File content) \<Longrightarrow>
     toFile fc self filePath gzipped fs
       = (Some (IOError (''File '' @ filePath @ '' already exists'')), self, fs)
     \<and> snd (snd (toOurFile fc self filePath gzipped fs)) filePath
       = Some (File (if gzipped then gzipBytes fc (snd (snd (writeTo fc self [])))
                     else snd (snd (writeTo fc self []))))"
  by (simp add: toFile_def toOurFile_def isfile_def openWb_def split: prod.splits)

theorem toFile_existing_destination_witness:
  "toFile sampleEnv sampleTile ''a.terrain'' False sampleFiles
       = (Some (IOError ''File a.terrain already exists''), sampleTile, sampleFiles)
     \<and> snd (snd (toOurFile sampleEnv sampleTile ''a.terrain'' False sampleFiles)) ''a.terrain''
       = Some (File (snd (snd (writeTo sampleEnv sampleTile []))))"
  using toFile_existing_destination[of sampleFiles "''a.terrain''" "[1, 2, 3]" sampleEnv sampleTile False]
  by (simp add: sampleFiles_def)


section \<open>Claim C10: encoding needs at least one vertex\<close>

lemma streamSteps_no_IndexError:
  assumes "xs \<noteq> []" "n \<le> length xs"
  shows "Inl IndexError \<notin> set (streamSteps key0 key xs n)"
proof
  assume "Inl IndexError \<in> set (streamSteps key0 key xs n)"
  then consider
    (first) "bnd (getitem vertexData key0) (\<lambda>ty. bnd (getidx xs 0) (\<lambda>x0. packEntry ty (zigZagEncode x0))) = Inl IndexError"
  | (later) i where "i < n - 1"
      "bnd (getidx xs (int i + 1)) (\<lambda>a. bnd (getidx xs (int i)) (\<lambda>b.
              bnd (getitem vertexData key) (\<lambda>ty. packEntry ty (zigZagEncode (a - b))))) = Inl IndexError"
    by (auto simp: streamSteps_def)
  then show False
  proof cases
    case first
    obtain x rest where "xs = x # rest" using assms(1) by (cases xs) auto
    with first show False
      by (cases "getitem vertexData key0") (simp_all add: getidx_0 packEntry_not_IndexError getitem_not_IndexError)
  next
    case later
    then have "Suc i < length xs" "i < length xs" using assms(2) by auto
    with later(2) show False
      by (cases "getitem vertexData key") (simp_all add: getidx_nat getidx_nat_Suc packEntry_not_IndexError getitem_not_IndexError)
  qed
qed

lemma vertexSteps_empty:
  "u self = [] \<Longrightarrow> \<exists>rest. vertexSteps self = Inr (le_bytes 4 0) # Inl IndexError # rest"
  by (simp add: vertexSteps_def streamSteps_def packEntry_I getidx_0 Let_def)

text \<open>
  Claim C10. On a tile without vertices \<^verbatim>\<open>_writeTo\<close> always raises; once the header is
  written the exception is the IndexError of \<^verbatim>\<open>self.u[0]\<close>, raised after the vertex count
  has been written, with the tile unchanged. On a tile with at least one vertex and as
  many \<open>v\<close> and \<open>h\<close> as \<open>u\<close> values no step of the vertex section raises IndexError.
\<close>

theorem writeTo_needs_a_vertex:
  "(u self = [] \<longrightarrow> fst (writeTo fc self f) \<noteq> None)
   \<and> (u self = [] \<and> writeAll (headerSteps fc self) f = (None, f1)
        \<longrightarrow> writeTo fc self f = (Some IndexError, self, f1 @ le_bytes 4 0))
   \<and> (u self \<noteq> [] \<and> length (v self) = length (u self) \<and> length (h self) = length (u self)
        \<longrightarrow> Inl IndexError \<notin> set (vertexSteps self))"
proof (intro conjI impI)
  assume e: "u self = []"
  then obtain rest where r: "vertexSteps self = Inr (le_bytes 4 0) # Inl IndexError # rest"
    using vertexSteps_empty by blast
  show "fst (writeTo fc self f) \<noteq> None"
  proof (cases "writeAll (headerSteps fc self) f")
    case (Pair err f1)
    then show ?thesis
      by (cases err) (simp_all add: writeTo_def writeAll_append r)
  qed
next
  assume "u self = [] \<and> writeAll (headerSteps fc self) f = (None, f1)"
  then have e: "u self = []" and hd: "writeAll (headerSteps fc self) f = (None, f1)" by auto
  obtain rest where r: "vertexSteps self = Inr (le_bytes 4 0) # Inl IndexError # rest"
    using e vertexSteps_empty by blast
  show "writeTo fc self f = (Some IndexError, self, f1 @ le_bytes 4 0)"
    by (simp add: writeTo_def writeAll_append hd r)
next
  assume a: "u self \<noteq> [] \<and> length (v self) = length (u self) \<and> length (h self) = length (u self)"
  then have "v self \<noteq> []" "h self \<noteq> []" by auto
  with a show "Inl IndexError \<notin> set (vertexSteps self)"
    by (simp add: vertexSteps_def Let_def streamSteps_no_IndexError packEntry_not_IndexError
          packEntry_not_IndexError[symmetric])
qed

theorem writeTo_needs_a_vertex_witness:
  "fst (writeTo sampleEnv (emptyTile noArgs) []) \<noteq> None
   \<and> writeTo sampleEnv (emptyTile noArgs) []
       = (Some IndexError, emptyTile noArgs, replicate 88 0 @ le_bytes 4 0)
   \<and> Inl IndexError \<notin> set (vertexSteps sampleTile)"
proof -
  have e: "u (emptyTile noArgs) = []" by (simp add: emptyTile_def)
  have w: "writeAll (headerSteps sampleEnv (emptyTile noArgs)) [] = (None, replicate 88 0)"
    unfolding headerSteps_sample_empty writeAll_map_Inr
    by (simp add: eval_nat_numeral)
  have s: "u sampleTile \<noteq> [] \<and> length (v sampleTile) = length (u sampleTile)
        \<and> length (h sampleTile) = length (u sampleTile)" by simp
  from writeTo_needs_a_vertex[of "emptyTile noArgs" sampleEnv "[]" "replicate 88 0"] e w
  have 1: "fst (writeTo sampleEnv (emptyTile noArgs) []) \<noteq> None"
    and 2: "writeTo sampleEnv (emptyTile noArgs) []
       = (Some IndexError, emptyTile noArgs, replicate 88 0 @ le_bytes 4 0)" by simp_all
  from writeTo_needs_a_vertex[of sampleTile sampleEnv "[]" "[]"] s
  have 3: "Inl IndexError \<notin> set (vertexSteps sampleTile)" by blast
  from 1 2 3 show ?thesis by blast
qed


section \<open>The sample tiles can be encoded\<close>

lemma headerPacks_sample: "header self = header (emptyTile noArgs) \<Longrightarrow> headerPacks sampleEnv self"
  by (simp add: headerPacks_def header_emptyTile quantizedMeshHeader_def getkey_def packEntryF_def
      sampleEnv_def calcsize_def)

lemma encodeIndices_012: "encodeIndices [0, 1, 2] = [0, 0, 0]"
  by (simp add: encodeIndices_def Let_def)


lemma encodable_sampleTile': "encodable sampleEnv sampleTile"
  by (simp add: encodable_def headerPacks_sample header_sampleTile quantized_def indexWord_def
      BYTESPLIT_def lightEncodable_def encodeIndices_012)

lemma encodable_bigTile: "encodable sampleEnv bigTile"
  by (simp add: bigTile_def encodable_def headerPacks_sample header_sampleTile quantized_def indexWord_def
      BYTESPLIT_def lightEncodable_def encodeIndices_012 list_all_iff)

lemma bigTile_fields [simp]:
  "length (u bigTile) = 65637" "indices bigTile = [0, 1, 2]"
  "westI bigTile = [0, 1, 2]" "southI bigTile = [0, 1, 2]" "eastI bigTile = []" "northI bigTile = []"
  by (simp_all add: bigTile_def)

lemma sampleStream_geometry:
  "\<exists>hdr'. readGeometry sampleEnv (emptyTile noArgs) (sampleStream @ rest) hl hw
     = Inr ((emptyTile noArgs)\<lparr>hasLighting := Some hl, hasWatermask := hw, header := hdr',
              u := u sampleTile, v := v sampleTile, h := h sampleTile,
              indices := indices sampleTile,
              westI := westI sampleTile, southI := southI sampleTile,
              eastI := eastI sampleTile, northI := northI sampleTile\<rparr>, rest)"
proof -
  note e = encodable_sampleTile'
  have small: "int (length (u sampleTile)) \<le> BYTESPLIT" by (simp add: BYTESPLIT_def)
  from geometry_section[OF e] small obtain gb where
    g: "\<And>f. writeAll (headerSteps sampleEnv sampleTile @ vertexSteps sampleTile
                       @ indexSteps sampleTile @ edgeSteps sampleTile) f = (None, f @ gb)"
    and r: "\<And>t rest hl hw. \<exists>hdr'. readGeometry sampleEnv t (gb @ rest) hl hw
             = Inr (t\<lparr>hasLighting := Some hl, hasWatermask := hw, header := hdr',
                      u := u t @ u sampleTile, v := v t @ v sampleTile, h := h t @ h sampleTile,
                      indices := indices sampleTile,
                      westI := westI t @ westI sampleTile, southI := southI t @ southI sampleTile,
                      eastI := eastI t @ eastI sampleTile, northI := northI t @ northI sampleTile\<rparr>, rest)"
    by blast
  have l: "writeLight sampleEnv sampleTile gb = (None, sampleTile, gb)"
    by (simp add: writeLight_def)
  have w: "writeWatermask sampleTile gb = (None, sampleTile, gb)"
    by (simp add: writeWatermask_def)
  have "writeTo sampleEnv sampleTile [] = (None, sampleTile, gb)"
    by (simp only: writeTo_def g l w append_Nil prod.case option.case)
  then have s: "sampleStream = gb" by (simp add: sampleStream_def)
  have t: "u (emptyTile noArgs) = []" "v (emptyTile noArgs) = []" "h (emptyTile noArgs) = []"
    "westI (emptyTile noArgs) = []" "southI (emptyTile noArgs) = []"
    "eastI (emptyTile noArgs) = []" "northI (emptyTile noArgs) = []"
    by (simp_all add: emptyTile_def noArgs_def)
  from r[of "emptyTile noArgs" rest hl hw] show ?thesis
    unfolding s t append_Nil .
qed


section \<open>Claim C8: the water mask survives encoding and decoding\<close>






section \<open>Claim C2: decoding what was encoded\<close>

text \<open>
  Claim C2 at a tile of 65637 vertices. \<^verbatim>\<open>_writeTo\<close> encodes the tile without an exception
  and \<^verbatim>\<open>fromBytesIO\<close> raises \<^verbatim>\<open>KeyError('westVertexCount')\<close> on the bytes: above \<open>BYTESPLIT\<close>
  vertices line 362 takes the layout of the edge blocks from \<^verbatim>\<open>indexData32\<close>, which has no
  such key. By lemma \<open>decode_fails_above_threshold\<close> this is so for every tile of more
  than \<open>BYTESPLIT\<close> vertices that \<^verbatim>\<open>_writeTo\<close> can encode, however it was built. Up to
  \<open>BYTESPLIT\<close> vertices lemma \<open>round_trip\<close> gives the round trip of \<open>u\<close>, \<open>v\<close>, \<open>h\<close>, the
  indices and the four edge lists.
\<close>

theorem round_trip_fails_above_threshold:
  "length (u bigTile) = 65637
   \<and> fst (writeTo sampleEnv bigTile []) = None
   \<and> fromBytesIO sampleEnv (emptyTile noArgs) (snd (snd (writeTo sampleEnv bigTile []))) False False
       = Inl (KeyError ''westVertexCount'')"
proof -
  have b: "int (length (u bigTile)) > BYTESPLIT" by (simp add: bigTile_def BYTESPLIT_def)
  have m: "watermask bigTile = [] \<or> uniformMask (watermask bigTile) \<or> gridMask (watermask bigTile)"
    by (simp add: bigTile_def)
  from decode_fails_above_threshold[OF encodable_bigTile b m] obtain bytes s where
    "writeTo sampleEnv bigTile [] = (None, s, bytes)"
    "\<And>t hl hw. fromBytesIO sampleEnv t bytes hl hw = Inl (KeyError ''westVertexCount'')"
    by blast
  then show ?thesis by (simp add: bigTile_def)
qed


section \<open>Claim C1: the width of the index words\<close>

text \<open>
  Claim C1 at a tile of 65637 vertices. \<^verbatim>\<open>_writeTo\<close> writes the triangle block and the four
  edge blocks in 32-bit words. \<^verbatim>\<open>fromBytesIO\<close> reads the triangle block in 32-bit words and
  then raises \<^verbatim>\<open>KeyError('westVertexCount')\<close> at the first edge block, because line 362
  selects \<^verbatim>\<open>indexData32\<close> where \<^verbatim>\<open>_writeTo\<close> selects \<^verbatim>\<open>EdgeIndices32\<close>: the edge blocks are
  read with no width at all.
\<close>

theorem edge_width_differs_on_decode:
  "indexSteps bigTile = map Inr [le_bytes 4 1, le_bytes 4 0, le_bytes 4 0, le_bytes 4 0]
   \<and> readIndices (emptyTile noArgs)
        (concat [le_bytes 4 1, le_bytes 4 0, le_bytes 4 0, le_bytes 4 0]) 65637
       = Inr ((emptyTile noArgs)\<lparr>indices := [0, 1, 2]\<rparr>, [])
   \<and> edgeSteps bigTile
       = map Inr [le_bytes 4 3, le_bytes 4 0, le_bytes 4 1, le_bytes 4 2,
                  le_bytes 4 3, le_bytes 4 0, le_bytes 4 1, le_bytes 4 2,
                  le_bytes 4 0, le_bytes 4 0]
   \<and> readEdges (emptyTile noArgs)
        (concat [le_bytes 4 3, le_bytes 4 0, le_bytes 4 1, le_bytes 4 2,
                 le_bytes 4 3, le_bytes 4 0, le_bytes 4 1, le_bytes 4 2,
                 le_bytes 4 0, le_bytes 4 0]) 65637
       = Inl (KeyError ''westVertexCount'')"
proof (intro conjI)
  show "indexSteps bigTile = map Inr [le_bytes 4 1, le_bytes 4 0, le_bytes 4 0, le_bytes 4 0]"
    by (simp add: indexSteps_def Let_def BYTESPLIT_def packIndices_def encodeIndices_012 packEntry_I
        del: le_bytes.simps)
  show "readIndices (emptyTile noArgs)
        (concat [le_bytes 4 1, le_bytes 4 0, le_bytes 4 0, le_bytes 4 0]) 65637
       = Inr ((emptyTile noArgs)\<lparr>indices := [0, 1, 2]\<rparr>, [])"
    by (simp add: readIndices_def Let_def BYTESPLIT_def unpackEntry_def calcsize_def eval_nat_numeral
        decodeIndices_def)
  show "edgeSteps bigTile
       = map Inr [le_bytes 4 3, le_bytes 4 0, le_bytes 4 1, le_bytes 4 2,
                  le_bytes 4 3, le_bytes 4 0, le_bytes 4 1, le_bytes 4 2,
                  le_bytes 4 0, le_bytes 4 0]"
    by (simp add: edgeSteps_def edgeBlock_def Let_def BYTESPLIT_def packEntry_I del: le_bytes.simps)
  show "readEdges (emptyTile noArgs)
        (concat [le_bytes 4 3, le_bytes 4 0, le_bytes 4 1, le_bytes 4 2,
                 le_bytes 4 3, le_bytes 4 0, le_bytes 4 1, le_bytes 4 2,
                 le_bytes 4 0, le_bytes 4 0]) 65637
       = Inl (KeyError ''westVertexCount'')"
    by (rule readEdges_above_threshold) (simp add: BYTESPLIT_def)
qed


section \<open>Claim C5: what serialization changes in the tile\<close>














section \<open>Claim C3: an extension id that differs from the declared one\<close>

lemma readVertices_keeps:
  assumes "readVertices self f = Inr (s, f', n)"
  shows "hasLighting s = hasLighting self \<and> hasWatermask s = hasWatermask self
       \<and> vLight s = vLight self \<and> watermask s = watermask self"
  using assms by (auto simp: readVertices_def bnd_eq_Inr)

lemma readIndices_keeps:
  assumes "readIndices self f n = Inr (s, f')"
  shows "hasLighting s = hasLighting self \<and> hasWatermask s = hasWatermask self
       \<and> vLight s = vLight self \<and> watermask s = watermask self"
  using assms by (auto simp: readIndices_def bnd_eq_Inr Let_def)

lemma readEdges_keeps:
  assumes "readEdges self f n = Inr (s, f')"
  shows "hasLighting s = hasLighting self \<and> hasWatermask s = hasWatermask self
       \<and> vLight s = vLight self \<and> watermask s = watermask self"
  using assms by (auto simp: readEdges_def bnd_eq_Inr Let_def)

lemma readGeometry_keeps:
  assumes "readGeometry fc self f hl hw = Inr (g, f')"
  shows "hasLighting g = Some hl \<and> hasWatermask g = hw
       \<and> vLight g = vLight self \<and> watermask g = watermask self"
proof -
  let ?s0 = "self\<lparr>hasLighting := Some hl, hasWatermask := hw\<rparr>"
  from assms obtain hdr f1 s1 f2 n s2 f3 where
    "readVertices (?s0\<lparr>header := hdr\<rparr>) f1 = Inr (s1, f2, n)"
    "readIndices s1 f2 n = Inr (s2, f3)"
    "readEdges s2 f3 n = Inr (g, f')"
    by (auto simp: readGeometry_def bnd_eq_Inr Let_def)
  from readVertices_keeps[OF this(1)] readIndices_keeps[OF this(2)] readEdges_keeps[OF this(3)]
  show ?thesis by simp
qed

lemma unpackEntry_B: "unpackEntry (b # rest) (CHR ''B'') = Inr (uint b, rest)"
  by (simp add: unpackEntry_def calcsize_def)

lemma readLight_mismatch:
  "hasLighting s = Some True \<Longrightarrow> uint b \<noteq> 1 \<Longrightarrow> readLight fc s (b # rest) = Inr (s, rest)"
  by (simp add: readLight_def unpackEntry_B)

lemma readWatermask_mismatch:
  "hasWatermask s \<Longrightarrow> uint b \<noteq> 2 \<Longrightarrow> readWatermask s (b # rest) = Inr (s, rest)"
  by (simp add: readWatermask_def unpackEntry_B)

lemma uint_byte_neq: "(uint (b :: byte) \<noteq> 1) = (b \<noteq> 1)" "(uint b \<noteq> 2) = (b \<noteq> 2)"
  by (simp_all add: word_uint_eq_iff)

text \<open>
  Claim C3, amended. Let the geometry of a stream decode and a byte \<open>b\<close> follow it. With
  \<open>hasLighting\<close> declared and \<open>b\<close> other than 1 the lighting block is skipped: no
  exception is raised, the normals of the tile stay as they were and decoding goes on
  after \<open>b\<close>, with the water mask when \<open>hasWatermask\<close> is declared and otherwise it ends
  there with success. With only \<open>hasWatermask\<close> declared and \<open>b\<close> other than 2 decoding ends
  after \<open>b\<close> with success and the water mask as it was; the same holds of the byte that
  follows a decoded lighting block.
\<close>

theorem extension_id_mismatch_skips_block:
  assumes "readGeometry fc self f hl hw = Inr (g, b # rest)"
  shows "(hl \<and> b \<noteq> 1 \<and> \<not> hw \<longrightarrow> fromBytesIO fc self f hl hw = Inr (g, rest))
       \<and> (\<not> hl \<and> hw \<and> b \<noteq> 2 \<longrightarrow> fromBytesIO fc self f hl hw = Inr (g, rest))
       \<and> (hl \<and> b \<noteq> 1 \<and> hw \<longrightarrow> fromBytesIO fc self f hl hw = readWatermask g rest)
       \<and> (hl \<and> hw \<longrightarrow>
            (\<forall>g' b' rest'. readLight fc g (b # rest) = Inr (g', b' # rest') \<and> b' \<noteq> 2
               \<longrightarrow> fromBytesIO fc self f hl hw = Inr (g', rest')))
       \<and> vLight g = vLight self \<and> watermask g = watermask self"
proof -
  from readGeometry_keeps[OF assms] have
    k: "hasLighting g = Some hl" "hasWatermask g = hw"
    and v: "vLight g = vLight self \<and> watermask g = watermask self"
    by simp_all
  have 1: "fromBytesIO fc self f hl hw = Inr (g, rest)" if "hl" "b \<noteq> 1" "\<not> hw"
  proof -
    from k that have "readLight fc g (b # rest) = Inr (g, rest)"
      by (simp add: readLight_mismatch uint_byte_neq)
    moreover from k that have "readWatermask g rest = Inr (g, rest)"
      by (simp add: readWatermask_def)
    ultimately show ?thesis by (simp add: fromBytesIO_def assms)
  qed
  have 2: "fromBytesIO fc self f hl hw = Inr (g, rest)" if "\<not> hl" "hw" "b \<noteq> 2"
  proof -
    from k that have "readLight fc g (b # rest) = Inr (g, b # rest)"
      by (simp add: readLight_def)
    moreover from k that have "readWatermask g (b # rest) = Inr (g, rest)"
      by (simp add: readWatermask_mismatch uint_byte_neq)
    ultimately show ?thesis by (simp add: fromBytesIO_def assms)
  qed
  have 3: "fromBytesIO fc self f hl hw = readWatermask g rest" if "hl" "b \<noteq> 1"
  proof -
    from k that have "readLight fc g (b # rest) = Inr (g, rest)"
      by (simp add: readLight_mismatch uint_byte_neq)
    then show ?thesis by (simp add: fromBytesIO_def assms)
  qed
  have 4: "fromBytesIO fc self f hl hw = Inr (g', rest')"
    if "hw" "readLight fc g (b # rest) = Inr (g', b' # rest')" "b' \<noteq> 2" for g' b' rest'
  proof -
    from that(2) have "hasWatermask g' = hasWatermask g"
      by (auto simp: readLight_def bnd_eq_Inr split: if_splits)
    with k that have "readWatermask g' (b' # rest') = Inr (g', rest')"
      by (simp add: readWatermask_mismatch uint_byte_neq)
    with that(2) show ?thesis by (simp add: fromBytesIO_def assms)
  qed
  from 1 2 3 4 v show ?thesis by blast
qed

theorem extension_id_mismatch_skips_block_witness:
  "\<exists>g. readGeometry sampleEnv (emptyTile noArgs) (sampleStream @ [7]) True False = Inr (g, [7])
      \<and> fromBytesIO sampleEnv (emptyTile noArgs) (sampleStream @ [7]) True False = Inr (g, [])
      \<and> vLight g = []"
proof -
  from sampleStream_geometry[of "[7]" True False] obtain g where
    g: "readGeometry sampleEnv (emptyTile noArgs) (sampleStream @ [7]) True False = Inr (g, [7])"
    by blast
  have "vLight (emptyTile noArgs) = []" by (simp add: emptyTile_def noArgs_def)
  with extension_id_mismatch_skips_block[OF g] g show ?thesis by simp
qed

text \<open>Decoding the bytes of the sample tile followed by the extension id 7 succeeds,
  with lighting declared and with the water mask declared, and adds no normal and no
  water mask row.\<close>

theorem extension_id_mismatch_counterexample:
  "\<not> isl (fromBytesIO sampleEnv (emptyTile noArgs) (sampleStream @ [7]) True False)
   \<and> snd (projr (fromBytesIO sampleEnv (emptyTile noArgs) (sampleStream @ [7]) True False)) = []
   \<and> vLight (fst (projr (fromBytesIO sampleEnv (emptyTile noArgs) (sampleStream @ [7]) True False))) = []
   \<and> \<not> isl (fromBytesIO sampleEnv (emptyTile noArgs) (sampleStream @ [7]) False True)
   \<and> snd (projr (fromBytesIO sampleEnv (emptyTile noArgs) (sampleStream @ [7]) False True)) = []
   \<and> watermask (fst (projr (fromBytesIO sampleEnv (emptyTile noArgs) (sampleStream @ [7]) False True))) = []"
proof -
  have e: "vLight (emptyTile noArgs) = []" "watermask (emptyTile noArgs) = []"
    by (simp_all add: emptyTile_def noArgs_def)
  from sampleStream_geometry[of "[7]" True False] obtain g where
    g: "readGeometry sampleEnv (emptyTile noArgs) (sampleStream @ [7]) True False = Inr (g, [7])"
    by blast
  from readGeometry_keeps[OF g] have k: "hasLighting g = Some True" "\<not> hasWatermask g" "vLight g = []"
    by (simp_all add: e)
  have "readLight sampleEnv g [7] = Inr (g, [])"
    using k by (simp add: readLight_mismatch)
  moreover have "readWatermask g [] = Inr (g, [])"
    using k by (simp add: readWatermask_def)
  ultimately have 1: "fromBytesIO sampleEnv (emptyTile noArgs) (sampleStream @ [7]) True False = Inr (g, [])"
    by (simp add: fromBytesIO_def g)
  from sampleStream_geometry[of "[7]" False True] obtain g' where
    g': "readGeometry sampleEnv (emptyTile noArgs) (sampleStream @ [7]) False True = Inr (g', [7])"
    by blast
  from readGeometry_keeps[OF g'] have k': "hasLighting g' = Some False" "hasWatermask g'" "watermask g' = []"
    by (simp_all add: e)
  have "readLight sampleEnv g' [7] = Inr (g', [7])"
    using k' by (simp add: readLight_def)
  moreover have "readWatermask g' [7] = Inr (g', [])"
    using k' by (simp add: readWatermask_mismatch)
  ultimately have 2: "fromBytesIO sampleEnv (emptyTile noArgs) (sampleStream @ [7]) False True = Inr (g', [])"
    by (simp add: fromBytesIO_def g')
  show ?thesis unfolding 1 2 using k k' by simp
qed


section \<open>Quantization and its caches\<close>

lemma getWorkingUnitLongitude_fresh:
  assumes "falsy (workingUnitLongitude s)" and "fsub fc (east s) (west s) \<noteq> 0"
  shows "getWorkingUnitLongitude fc s
       = Inr (fdiv fc MAX_q (fsub fc (east s) (west s)),
              s\<lparr>workingUnitLongitude := Some (fdiv fc MAX_q (fsub fc (east s) (west s)))\<rparr>)"
  using assms by (simp add: getWorkingUnitLongitude_def pydiv_def)

lemma getWorkingUnitLongitude_cached:
  assumes "workingUnitLongitude s = Some w" and "w \<noteq> 0"
  shows "getWorkingUnitLongitude fc s = Inr (w, s)"
  using assms by (simp add: getWorkingUnitLongitude_def falsy_def)

lemma getWorkingUnitLatitude_fresh:
  assumes "falsy (workingUnitLatitude s)" and "fsub fc (north s) (south s) \<noteq> 0"
  shows "getWorkingUnitLatitude fc s
       = Inr (fdiv fc MAX_q (fsub fc (north s) (south s)),
              s\<lparr>workingUnitLatitude := Some (fdiv fc MAX_q (fsub fc (north s) (south s)))\<rparr>)"
  using assms by (simp add: getWorkingUnitLatitude_def pydiv_def)

lemma getWorkingUnitLatitude_cached:
  assumes "workingUnitLatitude s = Some w" and "w \<noteq> 0"
  shows "getWorkingUnitLatitude fc s = Inr (w, s)"
  using assms by (simp add: getWorkingUnitLatitude_def falsy_def)

lemma getDeltaHeight_fresh:
  assumes "falsy (deltaHeight s)"
    and "header s ''maximumHeight'' = Some mx" and "header s ''minimumHeight'' = Some mn"
  shows "getDeltaHeight fc s = Inr (fsub fc mx mn, s\<lparr>deltaHeight := Some (fsub fc mx mn)\<rparr>)"
  using assms by (simp add: getDeltaHeight_def getkey_def)

lemma getDeltaHeight_cached:
  assumes "deltaHeight s = Some d" and "d \<noteq> 0"
  shows "getDeltaHeight fc s = Inr (d, s)"
  using assms by (simp add: getDeltaHeight_def falsy_def)

lemma quantizeLongitude_fresh:
  assumes "falsy (workingUnitLongitude s)" and "fsub fc (east s) (west s) \<noteq> 0"
  shows "quantizeLongitude fc s x
       = Inr (pyround (fmul fc (fsub fc x (west s)) (fdiv fc MAX_q (fsub fc (east s) (west s)))),
              s\<lparr>workingUnitLongitude := Some (fdiv fc MAX_q (fsub fc (east s) (west s)))\<rparr>)"
  by (simp add: quantizeLongitude_def getWorkingUnitLongitude_fresh[OF assms])

lemma quantizeLongitude_cached:
  assumes "workingUnitLongitude s = Some w" and "w \<noteq> 0"
  shows "quantizeLongitude fc s x = Inr (pyround (fmul fc (fsub fc x (west s)) w), s)"
  by (simp add: quantizeLongitude_def getWorkingUnitLongitude_cached[OF assms])

lemma quantizeLatitude_fresh:
  assumes "falsy (workingUnitLatitude s)" and "fsub fc (north s) (south s) \<noteq> 0"
  shows "quantizeLatitude fc s x
       = Inr (pyround (fmul fc (fsub fc x (south s)) (fdiv fc MAX_q (fsub fc (north s) (south s)))),
              s\<lparr>workingUnitLatitude := Some (fdiv fc MAX_q (fsub fc (north s) (south s)))\<rparr>)"
  by (simp add: quantizeLatitude_def getWorkingUnitLatitude_fresh[OF assms])

lemma quantizeLatitude_cached:
  assumes "workingUnitLatitude s = Some w" and "w \<noteq> 0"
  shows "quantizeLatitude fc s x = Inr (pyround (fmul fc (fsub fc x (south s)) w), s)"
  by (simp add: quantizeLatitude_def getWorkingUnitLatitude_cached[OF assms])

lemma quantizeHeight_flat:
  assumes "falsy (deltaHeight s)"
    and "header s ''maximumHeight'' = Some mx" and "header s ''minimumHeight'' = Some mn"
    and "fsub fc mx mn = 0"
  shows "quantizeHeight fc s x = Inr (0, s\<lparr>deltaHeight := Some 0\<rparr>)"
  by (simp add: quantizeHeight_def getDeltaHeight_fresh[OF assms(1-3)] assms(4))

lemma quantizeHeight_fresh:
  assumes "falsy (deltaHeight s)"
    and "header s ''maximumHeight'' = Some mx" and "header s ''minimumHeight'' = Some mn"
    and "fsub fc mx mn \<noteq> 0"
  shows "quantizeHeight fc s x
       = Inr (pyround (fmul fc (fsub fc x mn) (fdiv fc MAX_q (fsub fc mx mn))),
              s\<lparr>deltaHeight := Some (fsub fc mx mn)\<rparr>)"
  using assms(3,4)
  by (simp add: quantizeHeight_def getDeltaHeight_fresh[OF assms(1-3)] pydiv_def getkey_def)

lemma quantizeHeight_cached:
  assumes "deltaHeight s = Some d" and "d \<noteq> 0" and "header s ''minimumHeight'' = Some mn"
  shows "quantizeHeight fc s x = Inr (pyround (fmul fc (fsub fc x mn) (fdiv fc MAX_q d)), s)"
  using assms(2,3)
  by (simp add: quantizeHeight_def getDeltaHeight_cached[OF assms(1,2)] pydiv_def getkey_def)

lemma quantizeAll_unchanged:
  assumes "\<And>x. q s x = Inr (f x, s)"
  shows "quantizeAll q s xs = Inr (map f xs, s)"
  by (induction xs) (simp_all add: assms)

lemma quantizeAll_longitude_fresh:
  assumes "falsy (workingUnitLongitude s)" and "fsub fc (east s) (west s) \<noteq> 0"
    and "fdiv fc MAX_q (fsub fc (east s) (west s)) = w" and "w \<noteq> 0"
  shows "quantizeAll (quantizeLongitude fc) s (x # xs)
       = Inr (map (\<lambda>x. pyround (fmul fc (fsub fc x (west s)) w)) (x # xs),
              s\<lparr>workingUnitLongitude := Some w\<rparr>)"
proof -
  let ?s = "s\<lparr>workingUnitLongitude := Some w\<rparr>"
  have "\<And>x. quantizeLongitude fc ?s x = Inr (pyround (fmul fc (fsub fc x (west ?s)) w), ?s)"
    by (rule quantizeLongitude_cached) (simp_all add: assms(4))
  then have "quantizeAll (quantizeLongitude fc) ?s xs
      = Inr (map (\<lambda>x. pyround (fmul fc (fsub fc x (west ?s)) w)) xs, ?s)"
    by (rule quantizeAll_unchanged)
  then show ?thesis
    by (simp add: quantizeLongitude_fresh[OF assms(1,2)] assms(3))
qed

lemma quantizeAll_latitude_fresh:
  assumes "falsy (workingUnitLatitude s)" and "fsub fc (north s) (south s) \<noteq> 0"
    and "fdiv fc MAX_q (fsub fc (north s) (south s)) = w" and "w \<noteq> 0"
  shows "quantizeAll (quantizeLatitude fc) s (x # xs)
       = Inr (map (\<lambda>x. pyround (fmul fc (fsub fc x (south s)) w)) (x # xs),
              s\<lparr>workingUnitLatitude := Some w\<rparr>)"
proof -
  let ?s = "s\<lparr>workingUnitLatitude := Some w\<rparr>"
  have "\<And>x. quantizeLatitude fc ?s x = Inr (pyround (fmul fc (fsub fc x (south ?s)) w), ?s)"
    by (rule quantizeLatitude_cached) (simp_all add: assms(4))
  then have "quantizeAll (quantizeLatitude fc) ?s xs
      = Inr (map (\<lambda>x. pyround (fmul fc (fsub fc x (south ?s)) w)) xs, ?s)"
    by (rule quantizeAll_unchanged)
  then show ?thesis
    by (simp add: quantizeLatitude_fresh[OF assms(1,2)] assms(3))
qed

lemma quantizeAll_height_fresh:
  assumes "falsy (deltaHeight s)"
    and "header s ''maximumHeight'' = Some mx" and "header s ''minimumHeight'' = Some mn"
    and "fsub fc mx mn = d" and "d \<noteq> 0"
  shows "quantizeAll (quantizeHeight fc) s (x # xs)
       = Inr (map (\<lambda>x. pyround (fmul fc (fsub fc x mn) (fdiv fc MAX_q d))) (x # xs),
              s\<lparr>deltaHeight := Some d\<rparr>)"
proof -
  let ?s = "s\<lparr>deltaHeight := Some d\<rparr>"
  have "\<And>x. quantizeHeight fc ?s x = Inr (pyround (fmul fc (fsub fc x mn) (fdiv fc MAX_q d)), ?s)"
    by (rule quantizeHeight_cached) (simp_all add: assms(3,5))
  then have "quantizeAll (quantizeHeight fc) ?s xs
      = Inr (map (\<lambda>x. pyround (fmul fc (fsub fc x mn) (fdiv fc MAX_q d))) xs, ?s)"
    by (rule quantizeAll_unchanged)
  moreover have "fsub fc mx mn \<noteq> 0" using assms(4,5) by simp
  ultimately show ?thesis
    by (simp add: quantizeHeight_fresh[OF assms(1-3)] assms(4))
qed

lemma quantizeAll_longitude_cached:
  assumes "workingUnitLongitude s = Some w" and "w \<noteq> 0"
  shows "quantizeAll (quantizeLongitude fc) s xs
       = Inr (map (\<lambda>x. pyround (fmul fc (fsub fc x (west s)) w)) xs, s)"
  by (rule quantizeAll_unchanged) (rule quantizeLongitude_cached[OF assms])

lemma quantizeAll_latitude_cached:
  assumes "workingUnitLatitude s = Some w" and "w \<noteq> 0"
  shows "quantizeAll (quantizeLatitude fc) s xs
       = Inr (map (\<lambda>x. pyround (fmul fc (fsub fc x (south s)) w)) xs, s)"
  by (rule quantizeAll_unchanged) (rule quantizeLatitude_cached[OF assms])

lemma quantizeAll_height_cached:
  assumes "deltaHeight s = Some d" and "d \<noteq> 0" and "header s ''minimumHeight'' = Some mn"
  shows "quantizeAll (quantizeHeight fc) s xs
       = Inr (map (\<lambda>x. pyround (fmul fc (fsub fc x mn) (fdiv fc MAX_q d))) xs, s)"
  by (rule quantizeAll_unchanged) (rule quantizeHeight_cached[OF assms])

section \<open>The edge loop in closed form\<close>

lemma edgeLoop_Cons:
  assumes "getidx (u s) i = Inr x" and "getidx (v s) i = Inr y"
  shows "edgeLoop (i # rest) s
       = edgeLoop rest
           (s\<lparr>westI := (if x = 0 \<and> i \<notin> set (westI s) then westI s @ [i] else westI s),
              southI := (if y = 0 \<and> i \<notin> set (southI s) then southI s @ [i] else southI s),
              eastI := (if x = 32767 \<and> i \<notin> set (eastI s) then eastI s @ [i] else eastI s),
              northI := (if y = 32767 \<and> i \<notin> set (northI s) then northI s @ [i] else northI s)\<rparr>)"
proof -
  define s1 where "s1 = (if of_int x = MIN_q \<and> i \<notin> set (westI s)
               then s\<lparr>westI := westI s @ [i]\<rparr>
               else if of_int x = MAX_q \<and> i \<notin> set (eastI s)
               then s\<lparr>eastI := eastI s @ [i]\<rparr>
               else s)"
  define s2 where "s2 = (if of_int y = MIN_q \<and> i \<notin> set (southI s1)
               then s1\<lparr>southI := southI s1 @ [i]\<rparr>
               else if of_int y = MAX_q \<and> i \<notin> set (northI s1)
               then s1\<lparr>northI := northI s1 @ [i]\<rparr>
               else s1)"
  have run: "edgeLoop (i # rest) s = edgeLoop rest s2"
    by (simp only: edgeLoop.simps assms bnd_Inr Let_def s1_def s2_def)
  have "s2 = s\<lparr>westI := (if x = 0 \<and> i \<notin> set (westI s) then westI s @ [i] else westI s),
              southI := (if y = 0 \<and> i \<notin> set (southI s) then southI s @ [i] else southI s),
              eastI := (if x = 32767 \<and> i \<notin> set (eastI s) then eastI s @ [i] else eastI s),
              northI := (if y = 32767 \<and> i \<notin> set (northI s) then northI s @ [i] else northI s)\<rparr>"
    unfolding s2_def s1_def by (cases s) (simp add: MIN_q_def MAX_q_def)
  with run show ?thesis by (simp only:)
qed


lemma edges_overwrite:
  "s\<lparr>westI := a, southI := b, eastI := c, northI := d\<rparr>
     \<lparr>westI := a', southI := b', eastI := c', northI := d'\<rparr>
   = s\<lparr>westI := a', southI := b', eastI := c', northI := d'\<rparr>"
  by simp

lemma edgeLoop_closed_form:
  assumes "\<forall>i\<in>set ixs. \<exists>x y. getidx (u s) i = Inr x \<and> getidx (v s) i = Inr y"
  shows "edgeLoop ixs s
       = Inr (s\<lparr>westI := fold (\<lambda>x acc. if x \<in> set acc then acc else acc @ [x])
                            (filter (\<lambda>i. getidx (u s) i = Inr 0) ixs) (westI s),
                southI := fold (\<lambda>x acc. if x \<in> set acc then acc else acc @ [x])
                            (filter (\<lambda>i. getidx (v s) i = Inr 0) ixs) (southI s),
                eastI := fold (\<lambda>x acc. if x \<in> set acc then acc else acc @ [x])
                            (filter (\<lambda>i. getidx (u s) i = Inr 32767) ixs) (eastI s),
                northI := fold (\<lambda>x acc. if x \<in> set acc then acc else acc @ [x])
                            (filter (\<lambda>i. getidx (v s) i = Inr 32767) ixs) (northI s)\<rparr>)"
  using assms
proof (induction ixs arbitrary: s)
  case Nil
  show ?case by simp
next
  case (Cons i rest)
  from Cons.prems obtain x y where x: "getidx (u s) i = Inr x" and y: "getidx (v s) i = Inr y"
    by auto
  let ?add = "\<lambda>x acc. if x \<in> set acc then acc else acc @ [x]"
  let ?w = "if x = 0 \<and> i \<notin> set (westI s) then westI s @ [i] else westI s"
  let ?so = "if y = 0 \<and> i \<notin> set (southI s) then southI s @ [i] else southI s"
  let ?e = "if x = 32767 \<and> i \<notin> set (eastI s) then eastI s @ [i] else eastI s"
  let ?n = "if y = 32767 \<and> i \<notin> set (northI s) then northI s @ [i] else northI s"
  let ?s2 = "s\<lparr>westI := ?w, southI := ?so, eastI := ?e, northI := ?n\<rparr>"
  have uv: "u ?s2 = u s" "v ?s2 = v s" by simp_all
  have f: "westI ?s2 = ?w" "southI ?s2 = ?so" "eastI ?s2 = ?e" "northI ?s2 = ?n" by simp_all
  have "\<forall>i\<in>set rest. \<exists>x y. getidx (u ?s2) i = Inr x \<and> getidx (v ?s2) i = Inr y"
    unfolding uv using Cons.prems by simp
  note ih = Cons.IH[OF this, unfolded uv f edges_overwrite]
  have 1: "fold ?add (filter (\<lambda>i. getidx (u s) i = Inr 0) (i # rest)) (westI s)
         = fold ?add (filter (\<lambda>i. getidx (u s) i = Inr 0) rest) ?w"
    by (simp add: x)
  have 2: "fold ?add (filter (\<lambda>i. getidx (v s) i = Inr 0) (i # rest)) (southI s)
         = fold ?add (filter (\<lambda>i. getidx (v s) i = Inr 0) rest) ?so"
    by (simp add: y)
  have 3: "fold ?add (filter (\<lambda>i. getidx (u s) i = Inr 32767) (i # rest)) (eastI s)
         = fold ?add (filter (\<lambda>i. getidx (u s) i = Inr 32767) rest) ?e"
    by (simp add: x)
  have 4: "fold ?add (filter (\<lambda>i. getidx (v s) i = Inr 32767) (i # rest)) (northI s)
         = fold ?add (filter (\<lambda>i. getidx (v s) i = Inr 32767) rest) ?n"
    by (simp add: y)
  show ?case
    unfolding edgeLoop_Cons[OF x y] ih 1 2 3 4 ..
qed


section \<open>The sample tiles built from a topology\<close>

lemma sampleEnv_arithmetic [simp]:
  "fadd sampleEnv x y = x + y" "fsub sampleEnv x y = x - y"
  "fmul sampleEnv x y = x * y" "fdiv sampleEnv x y = x / y"
  by (simp_all add: sampleEnv_def)

lemma pyround_of_int: "pyround (of_int n) = n"
  by (simp add: pyround_def)

lemma pyround_numeral [simp]: "pyround 0 = 0" "pyround 1 = 1" "pyround (numeral k) = numeral k"
  using pyround_of_int[of 0] pyround_of_int[of 1] pyround_of_int[of "numeral k"] by simp_all

lemma sampleTopology_fields [simp]:
  "uVertex sampleTopology = [0, 1, 0, 1]" "vVertex sampleTopology = [0, 0, 1, 1]"
  "hVertex sampleTopology = [0, 1, 0, 1]" "indexData sampleTopology = [0, 1, 2, 1, 3, 2]"
  "topoHasLighting sampleTopology = False"
  "minHeight sampleTopology = 0" "maxHeight sampleTopology = 1"
  "uVertex mirroredTopology = [1, 0, 1, 0]" "vVertex mirroredTopology = [0, 0, 1, 1]"
  "hVertex mirroredTopology = [0, 0, 0, 0]" "indexData mirroredTopology = [0, 1, 2, 1, 3, 2]"
  "topoHasLighting mirroredTopology = False"
  "minHeight mirroredTopology = 0" "maxHeight mirroredTopology = 0"
  by (simp_all add: sampleTopology_def mirroredTopology_def)

lemma headerFromTopology_heights:
  "headerFromTopology fc s topo bs oc ''minimumHeight'' = Some (minHeight topo)"
  "headerFromTopology fc s topo bs oc ''maximumHeight'' = Some (maxHeight topo)"
  by (simp_all add: headerFromTopology_def Let_def)

lemma sampleEnv_geometry [simp]:
  "bSphereFromPoints sampleEnv ps = Inr ((0, 0, 0), 0)"
  "occFromPoints sampleEnv ps bs = Inr (0, 0, 0)"
  by (simp_all add: sampleEnv_def)

lemma emptyTile_fields [simp]:
  "workingUnitLongitude (emptyTile kw) = None" "workingUnitLatitude (emptyTile kw) = None"
  "deltaHeight (emptyTile kw) = None"
  "longs (emptyTile kw) = []" "lats (emptyTile kw) = []" "heights (emptyTile kw) = []"
  "u (emptyTile kw) = []" "v (emptyTile kw) = []" "h (emptyTile kw) = []"
  "indices (emptyTile kw) = []" "vLight (emptyTile kw) = []"
  "westI (emptyTile kw) = []" "southI (emptyTile kw) = []"
  "eastI (emptyTile kw) = []" "northI (emptyTile kw) = []"
  "west (emptyTile noArgs) = - 1" "east (emptyTile noArgs) = 1"
  "south (emptyTile noArgs) = - 1" "north (emptyTile noArgs) = 1"
  by (simp_all add: emptyTile_def noArgs_def)

lemma selectBounds_sample:
  "selectBounds (emptyTile noArgs) sampleTopology None
     = (emptyTile noArgs)\<lparr>west := 0, east := 1, south := 0, north := 1\<rparr>"
  by (simp add: selectBounds_def sampleTopology_def)

lemma selectBounds_defined:
  "west t = 0 \<Longrightarrow> selectBounds t topo None = t"
  by (simp add: selectBounds_def)

lemma first_build:
  "fromTerrainTopology sampleEnv (emptyTile noArgs) sampleTopology None
     = Inr ((emptyTile noArgs)
              \<lparr>west := 0, east := 1, south := 0, north := 1,
               header := headerFromTopology sampleEnv
                           ((emptyTile noArgs)\<lparr>west := 0, east := 1, south := 0, north := 1\<rparr>)
                           sampleTopology ((0, 0, 0), 0) (0, 0, 0),
               workingUnitLongitude := Some 32767,
               u := [0, 32767, 0, 32767],
               workingUnitLatitude := Some 32767,
               v := [0, 0, 32767, 32767],
               deltaHeight := Some 1,
               h := [0, 32767, 0, 32767], indices := [0, 1, 2, 1, 3, 2],
               westI := [0, 2], southI := [0, 1], eastI := [1, 3], northI := [2, 3],
               hasLighting := Some False\<rparr>)"
proof -
  let ?s0 = "(emptyTile noArgs)\<lparr>west := 0, east := 1, south := 0, north := 1\<rparr>"
  let ?hd = "headerFromTopology sampleEnv ?s0 sampleTopology ((0, 0, 0), 0) (0, 0, 0)"
  let ?s0h = "?s0\<lparr>header := ?hd\<rparr>"
  let ?s1 = "?s0h\<lparr>workingUnitLongitude := Some 32767\<rparr>"
  let ?s1u = "?s1\<lparr>u := [0, 32767, 0, 32767]\<rparr>"
  let ?s2 = "?s1u\<lparr>workingUnitLatitude := Some 32767\<rparr>"
  let ?s2v = "?s2\<lparr>v := [0, 0, 32767, 32767]\<rparr>"
  let ?s3 = "?s2v\<lparr>deltaHeight := Some 1\<rparr>"
  let ?s3h = "?s3\<lparr>h := [0, 32767, 0, 32767], indices := [0, 1, 2, 1, 3, 2]\<rparr>"
  have q1: "quantizeAll (quantizeLongitude sampleEnv) ?s0h [0, 1, 0, 1]
        = Inr ([0, 32767, 0, 32767], ?s1)"
    using quantizeAll_longitude_fresh[of ?s0h sampleEnv 32767 0 "[1, 0, 1]"]
    by (simp add: falsy_def MAX_q_def)
  have q2: "quantizeAll (quantizeLatitude sampleEnv) ?s1u [0, 0, 1, 1]
        = Inr ([0, 0, 32767, 32767], ?s2)"
    using quantizeAll_latitude_fresh[of ?s1u sampleEnv 32767 0 "[0, 1, 1]"]
    by (simp add: falsy_def MAX_q_def)
  have q3: "quantizeAll (quantizeHeight sampleEnv) ?s2v [0, 1, 0, 1]
        = Inr ([0, 32767, 0, 32767], ?s3)"
    using quantizeAll_height_fresh[of ?s2v 1 0 sampleEnv 1 0 "[1, 0, 1]"]
    by (simp add: falsy_def MAX_q_def headerFromTopology_heights)
  have ok: "\<forall>i\<in>set [0, 1, 2, 1, 3, 2]. \<exists>x y. getidx (u ?s3h) i = Inr x \<and> getidx (v ?s3h) i = Inr y"
    by (simp add: getidx_def)
  have el: "edgeLoop [0, 1, 2, 1, 3, 2] ?s3h
        = Inr (?s3h\<lparr>westI := [0, 2], southI := [0, 1], eastI := [1, 3], northI := [2, 3]\<rparr>)"
    unfolding edgeLoop_closed_form[OF ok]
    by (simp add: getidx_def)
  show ?thesis
    unfolding fromTerrainTopology_def Let_def selectBounds_sample
    by (simp only: sampleEnv_geometry bnd_Inr sampleTopology_fields q1 q2 q3 el prod.case if_False)
qed

lemma second_build:
  assumes b: "west t = 0" "east t = 1" "south t = 0" "north t = 1"
    and c: "workingUnitLongitude t = Some 32767" "workingUnitLatitude t = Some 32767"
      "deltaHeight t = Some 1"
    and e: "westI t = [0, 2]" "southI t = [0, 1]" "eastI t = [1, 3]" "northI t = [2, 3]"
  shows "fromTerrainTopology sampleEnv t mirroredTopology None
     = Inr (t\<lparr>header := headerFromTopology sampleEnv t mirroredTopology ((0, 0, 0), 0) (0, 0, 0),
              u := [32767, 0, 32767, 0], v := [0, 0, 32767, 32767],
              h := [0, 0, 0, 0], indices := [0, 1, 2, 1, 3, 2],
              westI := [0, 2, 1, 3], southI := [0, 1], eastI := [1, 3, 0, 2], northI := [2, 3],
              hasLighting := Some False\<rparr>)"
proof -
  let ?hd = "headerFromTopology sampleEnv t mirroredTopology ((0, 0, 0), 0) (0, 0, 0)"
  let ?s1 = "t\<lparr>header := ?hd\<rparr>"
  let ?s1u = "?s1\<lparr>u := [32767, 0, 32767, 0]\<rparr>"
  let ?s2v = "?s1u\<lparr>v := [0, 0, 32767, 32767]\<rparr>"
  let ?s3h = "?s2v\<lparr>h := [0, 0, 0, 0], indices := [0, 1, 2, 1, 3, 2]\<rparr>"
  have q1: "quantizeAll (quantizeLongitude sampleEnv) ?s1 [1, 0, 1, 0]
        = Inr ([32767, 0, 32767, 0], ?s1)"
    using quantizeAll_longitude_cached[of ?s1 32767 sampleEnv "[1, 0, 1, 0]"]
    by (simp add: b c)
  have q2: "quantizeAll (quantizeLatitude sampleEnv) ?s1u [0, 0, 1, 1]
        = Inr ([0, 0, 32767, 32767], ?s1u)"
    using quantizeAll_latitude_cached[of ?s1u 32767 sampleEnv "[0, 0, 1, 1]"]
    by (simp add: b c)
  have q3: "quantizeAll (quantizeHeight sampleEnv) ?s2v [0, 0, 0, 0]
        = Inr ([0, 0, 0, 0], ?s2v)"
    using quantizeAll_height_cached[of ?s2v 1 0 sampleEnv "[0, 0, 0, 0]"]
    by (simp add: c headerFromTopology_heights)
  have ok: "\<forall>i\<in>set [0, 1, 2, 1, 3, 2]. \<exists>x y. getidx (u ?s3h) i = Inr x \<and> getidx (v ?s3h) i = Inr y"
    by (simp add: getidx_def)
  have el: "edgeLoop [0, 1, 2, 1, 3, 2] ?s3h
        = Inr (?s3h\<lparr>westI := [0, 2, 1, 3], southI := [0, 1], eastI := [1, 3, 0, 2], northI := [2, 3]\<rparr>)"
    unfolding edgeLoop_closed_form[OF ok]
    by (simp add: getidx_def e)
  show ?thesis
    unfolding fromTerrainTopology_def Let_def selectBounds_defined[OF b(1)]
    by (simp only: sampleEnv_geometry bnd_Inr sampleTopology_fields q1 q2 q3 el prod.case if_False)
qed

lemma built:
  "TerrainTile sampleEnv (noArgs\<lparr>kwTopology := Some sampleTopology\<rparr>) = Inr builtTile"
  and builtTile_fields:
    "west builtTile = 0" "east builtTile = 1" "south builtTile = 0" "north builtTile = 1"
    "workingUnitLongitude builtTile = Some 32767" "workingUnitLatitude builtTile = Some 32767"
    "deltaHeight builtTile = Some 1"
    "westI builtTile = [0, 2]" "southI builtTile = [0, 1]"
    "eastI builtTile = [1, 3]" "northI builtTile = [2, 3]"
    "u builtTile = [0, 32767, 0, 32767]" "v builtTile = [0, 0, 32767, 32767]"
    "h builtTile = [0, 32767, 0, 32767]" "indices builtTile = [0, 1, 2, 1, 3, 2]"
    "longs builtTile = []" "lats builtTile = []" "heights builtTile = []"
    "header builtTile ''minimumHeight'' = Some 0" "header builtTile ''maximumHeight'' = Some 1"
proof -
  have k: "emptyTile (noArgs\<lparr>kwTopology := Some sampleTopology\<rparr>) = emptyTile noArgs"
    by (simp add: emptyTile_def noArgs_def)
  have t: "TerrainTile sampleEnv (noArgs\<lparr>kwTopology := Some sampleTopology\<rparr>)
         = fromTerrainTopology sampleEnv (emptyTile noArgs) sampleTopology None"
    by (simp add: TerrainTile_def k)
  note r = t[unfolded first_build]
  have b: "builtTile = projr (TerrainTile sampleEnv (noArgs\<lparr>kwTopology := Some sampleTopology\<rparr>))"
    by (rule builtTile_def)
  note b' = b[unfolded r sum.sel]
  show "TerrainTile sampleEnv (noArgs\<lparr>kwTopology := Some sampleTopology\<rparr>) = Inr builtTile"
    unfolding b' by (rule r)
  show "west builtTile = 0" "east builtTile = 1" "south builtTile = 0" "north builtTile = 1"
    "workingUnitLongitude builtTile = Some 32767" "workingUnitLatitude builtTile = Some 32767"
    "deltaHeight builtTile = Some 1"
    "westI builtTile = [0, 2]" "southI builtTile = [0, 1]"
    "eastI builtTile = [1, 3]" "northI builtTile = [2, 3]"
    "u builtTile = [0, 32767, 0, 32767]" "v builtTile = [0, 0, 32767, 32767]"
    "h builtTile = [0, 32767, 0, 32767]" "indices builtTile = [0, 1, 2, 1, 3, 2]"
    "longs builtTile = []" "lats builtTile = []" "heights builtTile = []"
    "header builtTile ''minimumHeight'' = Some 0" "header builtTile ''maximumHeight'' = Some 1"
    unfolding b' by (simp_all add: headerFromTopology_heights)
qed

lemma rebuilt:
  "fromTerrainTopology sampleEnv builtTile mirroredTopology None = Inr rebuiltTile"
  and rebuiltTile_fields:
    "west rebuiltTile = 0" "east rebuiltTile = 1" "deltaHeight rebuiltTile = Some 1"
    "u rebuiltTile = [32767, 0, 32767, 0]" "v rebuiltTile = [0, 0, 32767, 32767]"
    "h rebuiltTile = [0, 0, 0, 0]" "indices rebuiltTile = [0, 1, 2, 1, 3, 2]"
    "westI rebuiltTile = [0, 2, 1, 3]" "southI rebuiltTile = [0, 1]"
    "eastI rebuiltTile = [1, 3, 0, 2]" "northI rebuiltTile = [2, 3]"
    "header rebuiltTile ''minimumHeight'' = Some 0" "header rebuiltTile ''maximumHeight'' = Some 0"
proof -
  note r = second_build[of builtTile, OF builtTile_fields(1-11)]
  have b: "rebuiltTile = projr (fromTerrainTopology sampleEnv builtTile mirroredTopology None)"
    by (rule rebuiltTile_def)
  note b' = b[unfolded r sum.sel]
  show "fromTerrainTopology sampleEnv builtTile mirroredTopology None = Inr rebuiltTile"
    unfolding b' by (rule r)
  show "west rebuiltTile = 0" "east rebuiltTile = 1" "deltaHeight rebuiltTile = Some 1"
    "u rebuiltTile = [32767, 0, 32767, 0]" "v rebuiltTile = [0, 0, 32767, 32767]"
    "h rebuiltTile = [0, 0, 0, 0]" "indices rebuiltTile = [0, 1, 2, 1, 3, 2]"
    "westI rebuiltTile = [0, 2, 1, 3]" "southI rebuiltTile = [0, 1]"
    "eastI rebuiltTile = [1, 3, 0, 2]" "northI rebuiltTile = [2, 3]"
    "header rebuiltTile ''minimumHeight'' = Some 0" "header rebuiltTile ''maximumHeight'' = Some 0"
    unfolding b' by (simp_all add: headerFromTopology_heights builtTile_fields)
qed


section \<open>Claim C6: quantizing a height on a flat tile\<close>

lemma quantizeHeight_no_zero_division:
  "quantizeHeight fc self height \<noteq> Inl ZeroDivisionError"
  by (auto simp: quantizeHeight_def getDeltaHeight_def falsy_def getkey_def pydiv_def bnd_def
      split: option.splits sum.splits)

text \<open>
  Claim C6, amended. Let the header of a tile have \<open>maximumHeight = minimumHeight\<close>, a
  finite float, so that their difference computes to 0. If the cached \<^verbatim>\<open>_deltaHeight\<close> is
  unset or 0, \<^verbatim>\<open>_quantizeHeight\<close> returns 0 for every height and stores the difference 0.
  If the cache holds another value \<open>d\<close>, left by an earlier header of the same object,
  \<^verbatim>\<open>_quantizeHeight\<close> does not look at the header's range: it returns
  \<open>round((height - minimumHeight) * (32767 / d))\<close>. On no tile does \<^verbatim>\<open>_quantizeHeight\<close>
  raise ZeroDivisionError.
\<close>

theorem quantizeHeight_flat_tile:
  assumes "header self ''maximumHeight'' = Some mh" and "header self ''minimumHeight'' = Some mh"
    and "fsub fc mh mh = 0"
  shows "(deltaHeight self = None \<or> deltaHeight self = Some 0 \<longrightarrow>
            quantizeHeight fc self height = Inr (0, self\<lparr>deltaHeight := Some 0\<rparr>))
       \<and> (\<forall>d. deltaHeight self = Some d \<and> d \<noteq> 0 \<longrightarrow>
            quantizeHeight fc self height
              = Inr (pyround (fmul fc (fsub fc height mh) (fdiv fc 32767 d)), self))
       \<and> quantizeHeight fc self height \<noteq> Inl ZeroDivisionError"
proof (intro conjI impI allI)
  assume "deltaHeight self = None \<or> deltaHeight self = Some 0"
  then have "falsy (deltaHeight self)" by (auto simp: falsy_def)
  then show "quantizeHeight fc self height = Inr (0, self\<lparr>deltaHeight := Some 0\<rparr>)"
    using assms by (rule quantizeHeight_flat)
next
  fix d assume "deltaHeight self = Some d \<and> d \<noteq> 0"
  then show "quantizeHeight fc self height
              = Inr (pyround (fmul fc (fsub fc height mh) (fdiv fc 32767 d)), self)"
    using quantizeHeight_cached[of self d mh fc height] assms(2) by (simp add: MAX_q_def)
next
  show "quantizeHeight fc self height \<noteq> Inl ZeroDivisionError"
    by (rule quantizeHeight_no_zero_division)
qed

theorem quantizeHeight_flat_tile_witness:
  "header flatTile ''maximumHeight'' = Some 100 \<and> header flatTile ''minimumHeight'' = Some 100
   \<and> deltaHeight flatTile = None
   \<and> quantizeHeight sampleEnv flatTile 25 = Inr (0, flatTile\<lparr>deltaHeight := Some 0\<rparr>)
   \<and> quantizeHeight sampleEnv flatTile 250 = Inr (0, flatTile\<lparr>deltaHeight := Some 0\<rparr>)"
proof -
  have f: "header flatTile ''maximumHeight'' = Some 100" "header flatTile ''minimumHeight'' = Some 100"
    "deltaHeight flatTile = None" "fsub sampleEnv 100 100 = 0"
    by (simp_all add: flatTile_def)
  from quantizeHeight_flat_tile[OF f(1,2,4), of 25] quantizeHeight_flat_tile[OF f(1,2,4), of 250] f
  show ?thesis by blast
qed

text \<open>
  On \<open>rebuiltTile\<close> the claim fails: the object was built from a topology with heights from
  0 to 1 and then from a flat one. Its header has both heights 0, its cache still holds
  the range 1, and the height 1 is quantized to 32767.
\<close>

theorem quantizeHeight_flat_tile_counterexample:
  "TerrainTile sampleEnv (noArgs\<lparr>kwTopology := Some sampleTopology\<rparr>) = Inr builtTile
   \<and> fromTerrainTopology sampleEnv builtTile mirroredTopology None = Inr rebuiltTile
   \<and> header rebuiltTile ''maximumHeight'' = Some 0
   \<and> header rebuiltTile ''minimumHeight'' = Some 0
   \<and> quantizeHeight sampleEnv rebuiltTile 1 = Inr (32767, rebuiltTile)"
proof -
  have "quantizeHeight sampleEnv rebuiltTile 1 = Inr (32767, rebuiltTile)"
    using quantizeHeight_cached[of rebuiltTile 1 0 sampleEnv 1]
    by (simp add: rebuiltTile_fields MAX_q_def)
  with built rebuilt rebuiltTile_fields(12,13) show ?thesis by blast
qed


section \<open>Claim C9: the coordinates getVerticesCoordinates returns\<close>

lemma coordinatesFrom_zip:
  "i + length ls \<le> length (lats self) \<Longrightarrow> i + length ls \<le> length (heights self) \<Longrightarrow>
   coordinatesFrom self i ls = Inr (zip ls (zip (drop i (lats self)) (drop i (heights self))))"
proof (induction ls arbitrary: i)
  case Nil
  then show ?case by simp
next
  case (Cons lon rest)
  then have i: "i < length (lats self)" "i < length (heights self)" by auto
  have "Suc i + length rest \<le> length (lats self)" "Suc i + length rest \<le> length (heights self)"
    using Cons.prems by auto
  then have ih: "coordinatesFrom self (Suc i) rest
      = Inr (zip rest (zip (drop (Suc i) (lats self)) (drop (Suc i) (heights self))))"
    by (rule Cons.IH)
  show ?case
    using i by (simp add: getidx_nat ih Cons_nth_drop_Suc[symmetric])
qed

lemma getVerticesCoordinates_cached:
  assumes "longs self \<noteq> []" and "length (longs self) \<le> length (lats self)"
    and "length (longs self) \<le> length (heights self)"
  shows "getVerticesCoordinates fc self
       = Inr (zip (longs self) (zip (lats self) (heights self)), self)"
proof -
  have "computeVerticesCoordinates fc self = Inr self"
    using assms(1) by (simp add: computeVerticesCoordinates_def)
  moreover have "coordinatesFrom self 0 (longs self)
      = Inr (zip (longs self) (zip (drop 0 (lats self)) (drop 0 (heights self))))"
    by (rule coordinatesFrom_zip) (simp_all add: assms(2,3))
  ultimately show ?thesis by (simp add: getVerticesCoordinates_def)
qed

lemma getVerticesCoordinates_fresh:
  assumes "length (v self) = length (u self)" and "length (h self) = length (u self)"
    and "header self ''minimumHeight'' = Some mn" and "header self ''maximumHeight'' = Some mx"
    and "longs self = []" and "lats self = []" and "heights self = []"
  shows "getVerticesCoordinates fc self
       = Inr (zip (map (\<lambda>q. lerp fc (west self) (east self) (fdiv fc (of_int q) MAX_q)) (u self))
               (zip (map (\<lambda>q. lerp fc (south self) (north self) (fdiv fc (of_int q) MAX_q)) (v self))
                    (map (\<lambda>q. lerp fc mn mx (fdiv fc (of_int q) MAX_q)) (h self))),
              self\<lparr>longs := map (\<lambda>q. lerp fc (west self) (east self) (fdiv fc (of_int q) MAX_q)) (u self),
                   lats := map (\<lambda>q. lerp fc (south self) (north self) (fdiv fc (of_int q) MAX_q)) (v self),
                   heights := map (\<lambda>q. lerp fc mn mx (fdiv fc (of_int q) MAX_q)) (h self)\<rparr>)"
proof -
  let ?lo = "map (\<lambda>q. lerp fc (west self) (east self) (fdiv fc (of_int q) MAX_q)) (u self)"
  let ?la = "map (\<lambda>q. lerp fc (south self) (north self) (fdiv fc (of_int q) MAX_q)) (v self)"
  let ?he = "map (\<lambda>q. lerp fc mn mx (fdiv fc (of_int q) MAX_q)) (h self)"
  let ?self' = "self\<lparr>longs := ?lo, lats := ?la, heights := ?he\<rparr>"
  have comp: "computeVerticesCoordinates fc self = Inr ?self'"
  proof (cases "h self = []")
    case True
    then have "?he = heights self" by (simp add: assms(7))
    then have "self\<lparr>longs := ?lo, lats := ?la\<rparr> = ?self'" by simp
    with True show ?thesis
      by (simp add: computeVerticesCoordinates_def Let_def assms(5,6))
  next
    case False
    then show ?thesis
      by (simp add: computeVerticesCoordinates_def Let_def getkey_def assms(3-7))
  qed
  have "coordinatesFrom ?self' 0 ?lo = Inr (zip ?lo (zip (drop 0 (lats ?self')) (drop 0 (heights ?self'))))"
    by (rule coordinatesFrom_zip) (simp_all add: assms(1,2))
  then show ?thesis
    by (simp add: getVerticesCoordinates_def comp)
qed

lemma list_of_three:
  "length xs = 3 \<Longrightarrow> xs ! 0 = a \<Longrightarrow> xs ! 1 = b \<Longrightarrow> xs ! 2 = c \<Longrightarrow> xs = [a, b, c]"
  by (cases xs; cases "tl xs"; cases "tl (tl xs)") auto

text \<open>
  Claim C9, amended. Let a tile have as many \<open>v\<close> and \<open>h\<close> as \<open>u\<close> values. If its coordinate
  caches \<^verbatim>\<open>_longs\<close>, \<^verbatim>\<open>_lats\<close> and \<^verbatim>\<open>_heights\<close> are empty, \<^verbatim>\<open>getVerticesCoordinates\<close> returns one
  triple per vertex, and the triple of vertex \<open>i\<close> is
  \<open>((1 - t) * west + t * east, (1 - t') * south + t' * north,
  (1 - t'') * minimumHeight + t'' * maximumHeight)\<close> with \<open>t = u[i] / 32767\<close>,
  \<open>t' = v[i] / 32767\<close> and \<open>t'' = h[i] / 32767\<close>, in float arithmetic. If \<^verbatim>\<open>_longs\<close> is not
  empty, the call computes nothing: it returns the cached triples, whatever \<open>u\<close>, \<open>v\<close>,
  \<open>h\<close>, the bounds and the header are now.
\<close>

theorem getVerticesCoordinates_dequantizes:
  assumes "length (v self) = length (u self)" and "length (h self) = length (u self)"
    and "header self ''minimumHeight'' = Some mn" and "header self ''maximumHeight'' = Some mx"
  shows "(longs self = [] \<and> lats self = [] \<and> heights self = [] \<longrightarrow>
           (\<exists>coordinates self'.
              getVerticesCoordinates fc self = Inr (coordinates, self')
              \<and> length coordinates = length (u self)
              \<and> (\<forall>i < length (u self).
                   coordinates ! i =
                     (let tu = fdiv fc (of_int (u self ! i)) 32767;
                          tv = fdiv fc (of_int (v self ! i)) 32767;
                          th = fdiv fc (of_int (h self ! i)) 32767
                      in (fadd fc (fmul fc (fsub fc 1 tu) (west self)) (fmul fc tu (east self)),
                          fadd fc (fmul fc (fsub fc 1 tv) (south self)) (fmul fc tv (north self)),
                          fadd fc (fmul fc (fsub fc 1 th) mn) (fmul fc th mx))))))
       \<and> (longs self \<noteq> [] \<and> length (longs self) \<le> length (lats self)
            \<and> length (longs self) \<le> length (heights self) \<longrightarrow>
           getVerticesCoordinates fc self
             = Inr (zip (longs self) (zip (lats self) (heights self)), self))"
proof (intro conjI impI)
  assume e: "longs self = [] \<and> lats self = [] \<and> heights self = []"
  let ?lo = "map (\<lambda>q. lerp fc (west self) (east self) (fdiv fc (of_int q) MAX_q)) (u self)"
  let ?la = "map (\<lambda>q. lerp fc (south self) (north self) (fdiv fc (of_int q) MAX_q)) (v self)"
  let ?he = "map (\<lambda>q. lerp fc mn mx (fdiv fc (of_int q) MAX_q)) (h self)"
  from e have g: "getVerticesCoordinates fc self
       = Inr (zip ?lo (zip ?la ?he), self\<lparr>longs := ?lo, lats := ?la, heights := ?he\<rparr>)"
    using getVerticesCoordinates_fresh[OF assms] by blast
  have l: "length (zip ?lo (zip ?la ?he)) = length (u self)" by (simp add: assms(1,2))
  have n: "zip ?lo (zip ?la ?he) ! i =
         (let tu = fdiv fc (of_int (u self ! i)) 32767;
              tv = fdiv fc (of_int (v self ! i)) 32767;
              th = fdiv fc (of_int (h self ! i)) 32767
          in (fadd fc (fmul fc (fsub fc 1 tu) (west self)) (fmul fc tu (east self)),
              fadd fc (fmul fc (fsub fc 1 tv) (south self)) (fmul fc tv (north self)),
              fadd fc (fmul fc (fsub fc 1 th) mn) (fmul fc th mx)))"
    if "i < length (u self)" for i
    using that assms(1,2) by (simp add: lerp_def MAX_q_def Let_def)
  from g l n show "\<exists>coordinates self'.
              getVerticesCoordinates fc self = Inr (coordinates, self')
              \<and> length coordinates = length (u self)
              \<and> (\<forall>i < length (u self).
                   coordinates ! i =
                     (let tu = fdiv fc (of_int (u self ! i)) 32767;
                          tv = fdiv fc (of_int (v self ! i)) 32767;
                          th = fdiv fc (of_int (h self ! i)) 32767
                      in (fadd fc (fmul fc (fsub fc 1 tu) (west self)) (fmul fc tu (east self)),
                          fadd fc (fmul fc (fsub fc 1 tv) (south self)) (fmul fc tv (north self)),
                          fadd fc (fmul fc (fsub fc 1 th) mn) (fmul fc th mx))))"
    by blast
next
  assume "longs self \<noteq> [] \<and> length (longs self) \<le> length (lats self)
            \<and> length (longs self) \<le> length (heights self)"
  then show "getVerticesCoordinates fc self
             = Inr (zip (longs self) (zip (lats self) (heights self)), self)"
    using getVerticesCoordinates_cached by blast
qed

theorem getVerticesCoordinates_dequantizes_witness:
  "\<exists>coordinates self'.
      getVerticesCoordinates sampleEnv gridTile = Inr (coordinates, self')
      \<and> coordinates = [(10, 40, 100), (20, 30, 200), (30, 50, 300)]"
proof -
  have f: "length (v gridTile) = length (u gridTile)" "length (h gridTile) = length (u gridTile)"
    "header gridTile ''minimumHeight'' = Some 100" "header gridTile ''maximumHeight'' = Some 200"
    and e: "longs gridTile = [] \<and> lats gridTile = [] \<and> heights gridTile = []"
    and g: "u gridTile = [0, 32767, 65534]" "v gridTile = [32767, 0, 65534]"
      "h gridTile = [0, 32767, 65534]"
      "west gridTile = 10" "east gridTile = 20" "south gridTile = 30" "north gridTile = 40"
    by (simp_all add: gridTile_def)
  from getVerticesCoordinates_dequantizes[OF f, of sampleEnv] e
  obtain coordinates self' where
    c: "getVerticesCoordinates sampleEnv gridTile = Inr (coordinates, self')"
    and l: "length coordinates = length (u gridTile)"
    and n: "\<And>i. i < length (u gridTile) \<Longrightarrow>
         coordinates ! i =
           (let tu = fdiv sampleEnv (of_int (u gridTile ! i)) 32767;
                tv = fdiv sampleEnv (of_int (v gridTile ! i)) 32767;
                th = fdiv sampleEnv (of_int (h gridTile ! i)) 32767
            in (fadd sampleEnv (fmul sampleEnv (fsub sampleEnv 1 tu) (west gridTile))
                  (fmul sampleEnv tu (east gridTile)),
                fadd sampleEnv (fmul sampleEnv (fsub sampleEnv 1 tv) (south gridTile))
                  (fmul sampleEnv tv (north gridTile)),
                fadd sampleEnv (fmul sampleEnv (fsub sampleEnv 1 th) 100) (fmul sampleEnv th 200)))"
    by blast
  have "length coordinates = 3" using l by (simp add: g)
  moreover have "coordinates ! 0 = (10, 40, 100)" using n[of 0] by (simp add: g)
  moreover have "coordinates ! 1 = (20, 30, 200)" using n[of 1] by (simp add: g)
  moreover have "coordinates ! 2 = (30, 50, 300)" using n[of 2] by (simp add: g)
  ultimately have "coordinates = [(10, 40, 100), (20, 30, 200), (30, 50, 300)]"
    by (rule list_of_three)
  with c show ?thesis by blast
qed

lemma cached:
  "getVerticesCoordinates sampleEnv builtTile
     = Inr ([(0, 0, 0), (1, 0, 1), (0, 1, 0), (1, 1, 1)], cachedTile)"
  and cachedTile_fields:
    "west cachedTile = 0" "east cachedTile = 1" "south cachedTile = 0" "north cachedTile = 1"
    "workingUnitLongitude cachedTile = Some 32767" "workingUnitLatitude cachedTile = Some 32767"
    "deltaHeight cachedTile = Some 1"
    "westI cachedTile = [0, 2]" "southI cachedTile = [0, 1]"
    "eastI cachedTile = [1, 3]" "northI cachedTile = [2, 3]"
    "longs cachedTile = [0, 1, 0, 1]" "lats cachedTile = [0, 0, 1, 1]"
    "heights cachedTile = [0, 1, 0, 1]"
proof -
  have l: "length (v builtTile) = length (u builtTile)" "length (h builtTile) = length (u builtTile)"
    by (simp_all add: builtTile_fields)
  note r = getVerticesCoordinates_fresh[of builtTile 0 1 sampleEnv,
      OF l builtTile_fields(19,20,16,17,18)]
  have c: "cachedTile = snd (projr (getVerticesCoordinates sampleEnv builtTile))"
    by (rule cachedTile_def)
  note c' = c[unfolded r sum.sel snd_conv]
  show "getVerticesCoordinates sampleEnv builtTile
     = Inr ([(0, 0, 0), (1, 0, 1), (0, 1, 0), (1, 1, 1)], cachedTile)"
    unfolding c' r by (simp add: builtTile_fields lerp_def MAX_q_def)
  show "west cachedTile = 0" "east cachedTile = 1" "south cachedTile = 0" "north cachedTile = 1"
    "workingUnitLongitude cachedTile = Some 32767" "workingUnitLatitude cachedTile = Some 32767"
    "deltaHeight cachedTile = Some 1"
    "westI cachedTile = [0, 2]" "southI cachedTile = [0, 1]"
    "eastI cachedTile = [1, 3]" "northI cachedTile = [2, 3]"
    "longs cachedTile = [0, 1, 0, 1]" "lats cachedTile = [0, 0, 1, 1]"
    "heights cachedTile = [0, 1, 0, 1]"
    unfolding c' by (simp_all add: builtTile_fields lerp_def MAX_q_def)
qed

lemma recached:
  "fromTerrainTopology sampleEnv cachedTile mirroredTopology None = Inr recachedTile"
  and recachedTile_fields:
    "west recachedTile = 0" "east recachedTile = 1" "south recachedTile = 0" "north recachedTile = 1"
    "u recachedTile = [32767, 0, 32767, 0]" "v recachedTile = [0, 0, 32767, 32767]"
    "h recachedTile = [0, 0, 0, 0]"
    "header recachedTile ''minimumHeight'' = Some 0" "header recachedTile ''maximumHeight'' = Some 0"
    "longs recachedTile = [0, 1, 0, 1]" "lats recachedTile = [0, 0, 1, 1]"
    "heights recachedTile = [0, 1, 0, 1]"
proof -
  note r = second_build[of cachedTile, OF cachedTile_fields(1-11)]
  have b: "recachedTile = projr (fromTerrainTopology sampleEnv cachedTile mirroredTopology None)"
    by (rule recachedTile_def)
  note b' = b[unfolded r sum.sel]
  show "fromTerrainTopology sampleEnv cachedTile mirroredTopology None = Inr recachedTile"
    unfolding b' by (rule r)
  show "west recachedTile = 0" "east recachedTile = 1" "south recachedTile = 0" "north recachedTile = 1"
    "u recachedTile = [32767, 0, 32767, 0]" "v recachedTile = [0, 0, 32767, 32767]"
    "h recachedTile = [0, 0, 0, 0]"
    "header recachedTile ''minimumHeight'' = Some 0" "header recachedTile ''maximumHeight'' = Some 0"
    "longs recachedTile = [0, 1, 0, 1]" "lats recachedTile = [0, 0, 1, 1]"
    "heights recachedTile = [0, 1, 0, 1]"
    unfolding b' by (simp_all add: headerFromTopology_heights cachedTile_fields)
qed

text \<open>
  On \<open>recachedTile\<close> the claim fails. The object was built from \<open>sampleTopology\<close>, its
  coordinates were read, and it was built again from the mirrored, flat topology. Vertex
  0 now has \<open>u = 32767\<close> on a tile from longitude 0 to 1 and the header has both heights
  0, so the interpolated triple of vertex 0 is \<open>(1, 0, 0)\<close> and every height is 0; the
  call returns the triples of the first topology.
\<close>

theorem getVerticesCoordinates_dequantizes_counterexample:
  "TerrainTile sampleEnv (noArgs\<lparr>kwTopology := Some sampleTopology\<rparr>) = Inr builtTile
   \<and> getVerticesCoordinates sampleEnv builtTile
       = Inr ([(0, 0, 0), (1, 0, 1), (0, 1, 0), (1, 1, 1)], cachedTile)
   \<and> fromTerrainTopology sampleEnv cachedTile mirroredTopology None = Inr recachedTile
   \<and> u recachedTile = [32767, 0, 32767, 0] \<and> v recachedTile = [0, 0, 32767, 32767]
   \<and> h recachedTile = [0, 0, 0, 0]
   \<and> west recachedTile = 0 \<and> east recachedTile = 1
   \<and> south recachedTile = 0 \<and> north recachedTile = 1
   \<and> header recachedTile ''minimumHeight'' = Some 0
   \<and> header recachedTile ''maximumHeight'' = Some 0
   \<and> getVerticesCoordinates sampleEnv recachedTile
       = Inr ([(0, 0, 0), (1, 0, 1), (0, 1, 0), (1, 1, 1)], recachedTile)"
proof -
  have "getVerticesCoordinates sampleEnv recachedTile
       = Inr ([(0, 0, 0), (1, 0, 1), (0, 1, 0), (1, 1, 1)], recachedTile)"
    using getVerticesCoordinates_cached[of recachedTile sampleEnv]
    by (simp add: recachedTile_fields)
  with built cached recached recachedTile_fields(1-9) show ?thesis by blast
qed


section \<open>Claim C7: the edge lists built by fromTerrainTopology\<close>

subsection \<open>First-encountered order\<close>

lemma set_firstEncountered [simp]: "set (firstEncountered xs) = set xs"
  by (induction xs) auto

lemma distinct_firstEncountered [simp]: "distinct (firstEncountered xs)"
  by (induction xs) auto

lemma fold_append_new:
  "fold (\<lambda>x acc. if x \<in> set acc then acc else acc @ [x]) xs acc
     = acc @ filter (\<lambda>y. y \<notin> set acc) (firstEncountered xs)"
proof (induction xs arbitrary: acc)
  case Nil
  then show ?case by simp
next
  case (Cons x xs)
  show ?case
  proof (cases "x \<in> set acc")
    case True
    then have "filter (\<lambda>y. y \<notin> set acc) (filter (\<lambda>y. y \<noteq> x) (firstEncountered xs))
        = filter (\<lambda>y. y \<notin> set acc) (firstEncountered xs)"
      by (auto intro: filter_cong simp: filter_filter)
    with True show ?thesis by (simp add: Cons.IH)
  next
    case False
    have "filter (\<lambda>y. y \<notin> set (acc @ [x])) (firstEncountered xs)
        = filter (\<lambda>y. y \<notin> set acc) (filter (\<lambda>y. y \<noteq> x) (firstEncountered xs))"
      by (auto intro: filter_cong simp: filter_filter)
    with False show ?thesis by (simp add: Cons.IH)
  qed
qed

lemma fold_append_new_Nil:
  "fold (\<lambda>x acc. if x \<in> set acc then acc else acc @ [x]) xs [] = firstEncountered xs"
  by (simp add: fold_append_new)

subsection \<open>The edge loop\<close>

lemma edgeLoop_lists:
  "edgeLoop ixs self = Inr self' \<Longrightarrow>
     u self' = u self \<and> v self' = v self
     \<and> westI self' = fold (\<lambda>x acc. if x \<in> set acc then acc else acc @ [x])
                        (filter (\<lambda>i. getidx (u self) i = Inr 0) ixs) (westI self)
     \<and> eastI self' = fold (\<lambda>x acc. if x \<in> set acc then acc else acc @ [x])
                        (filter (\<lambda>i. getidx (u self) i = Inr 32767) ixs) (eastI self)
     \<and> southI self' = fold (\<lambda>x acc. if x \<in> set acc then acc else acc @ [x])
                        (filter (\<lambda>i. getidx (v self) i = Inr 0) ixs) (southI self)
     \<and> northI self' = fold (\<lambda>x acc. if x \<in> set acc then acc else acc @ [x])
                        (filter (\<lambda>i. getidx (v self) i = Inr 32767) ixs) (northI self)"
proof (induction ixs arbitrary: self)
  case Nil
  then show ?case by simp
next
  case (Cons indice rest)
  from Cons.prems obtain x y where x: "getidx (u self) indice = Inr x" and y: "getidx (v self) indice = Inr y"
    by (auto simp: bnd_eq_Inr)
  define s1 where "s1 = (if of_int x = MIN_q \<and> indice \<notin> set (westI self)
               then self\<lparr>westI := westI self @ [indice]\<rparr>
               else if of_int x = MAX_q \<and> indice \<notin> set (eastI self)
               then self\<lparr>eastI := eastI self @ [indice]\<rparr>
               else self)"
  define s2 where "s2 = (if of_int y = MIN_q \<and> indice \<notin> set (southI s1)
               then s1\<lparr>southI := southI s1 @ [indice]\<rparr>
               else if of_int y = MAX_q \<and> indice \<notin> set (northI s1)
               then s1\<lparr>northI := northI s1 @ [indice]\<rparr>
               else s1)"
  have run: "edgeLoop rest s2 = Inr self'"
    using Cons.prems by (simp only: edgeLoop.simps x y bnd_Inr Let_def s1_def s2_def)
  note ih = Cons.IH[OF run]
  have uv: "u s2 = u self" "v s2 = v self" by (simp_all add: s1_def s2_def)
  have w: "westI s2 = (if x = 0 \<and> indice \<notin> set (westI self) then westI self @ [indice] else westI self)"
    by (simp add: s1_def s2_def MIN_q_def MAX_q_def)
  have e: "eastI s2 = (if x = 32767 \<and> indice \<notin> set (eastI self) then eastI self @ [indice] else eastI self)"
    by (auto simp add: s1_def s2_def MIN_q_def MAX_q_def)
  have s: "southI s2 = (if y = 0 \<and> indice \<notin> set (southI self) then southI self @ [indice] else southI self)"
    by (simp add: s1_def s2_def MIN_q_def MAX_q_def)
  have n: "northI s2 = (if y = 32767 \<and> indice \<notin> set (northI self) then northI self @ [indice] else northI self)"
    by (auto simp add: s1_def s2_def MIN_q_def MAX_q_def)
  show ?case
    using ih by (simp add: uv w e s n x y)
qed

lemma edgeLoop_indices: "edgeLoop ixs s = Inr s' \<Longrightarrow> indices s' = indices s"
proof (induction ixs arbitrary: s)
  case Nil then show ?case by simp
next
  case (Cons i rest)
  from Cons.prems obtain x y where x: "getidx (u s) i = Inr x" and y: "getidx (v s) i = Inr y"
    by (auto simp: bnd_eq_Inr)
  define s1 where "s1 = (if of_int x = MIN_q \<and> i \<notin> set (westI s)
               then s\<lparr>westI := westI s @ [i]\<rparr>
               else if of_int x = MAX_q \<and> i \<notin> set (eastI s)
               then s\<lparr>eastI := eastI s @ [i]\<rparr>
               else s)"
  define s2 where "s2 = (if of_int y = MIN_q \<and> i \<notin> set (southI s1)
               then s1\<lparr>southI := southI s1 @ [i]\<rparr>
               else if of_int y = MAX_q \<and> i \<notin> set (northI s1)
               then s1\<lparr>northI := northI s1 @ [i]\<rparr>
               else s1)"
  have run: "edgeLoop rest s2 = Inr s'"
    using Cons.prems by (simp only: edgeLoop.simps x y bnd_Inr Let_def s1_def s2_def)
  have "indices s2 = indices s" by (simp add: s1_def s2_def)
  with Cons.IH[OF run] show ?case by simp
qed

subsection \<open>Quantization only touches the caches\<close>

lemma quantizeAll_keeps:
  assumes "\<And>s x y s'. q s x = Inr (y, s') \<Longrightarrow> g s' = g s"
  shows "quantizeAll q self xs = Inr (ys, self') \<Longrightarrow> g self' = g self"
proof (induction xs arbitrary: self ys)
  case Nil
  then show ?case by simp
next
  case (Cons x xs)
  then obtain y s1 ys1 where 1: "q self x = Inr (y, s1)" and 2: "quantizeAll q s1 xs = Inr (ys1, self')"
    by (auto simp: bnd_eq_Inr)
  from Cons.IH[OF 2] assms[OF 1] show ?case by simp
qed

lemma getWorkingUnitLongitude_keeps:
  assumes "getWorkingUnitLongitude fc s = Inr (w, s')"
  shows "(edgeView s', u s', v s') = (edgeView s, u s, v s)"
proof (cases "falsy (workingUnitLongitude s)")
  case True
  with assms have "s' = s\<lparr>workingUnitLongitude := Some w\<rparr>"
    by (cases "pydiv fc MAX_q (fsub fc (east s) (west s))") (simp_all add: getWorkingUnitLongitude_def)
  then show ?thesis by (simp add: edgeView_def)
next
  case False
  with assms have "s' = s"
    by (cases "workingUnitLongitude s") (simp_all add: getWorkingUnitLongitude_def)
  then show ?thesis by simp
qed

lemma getWorkingUnitLatitude_keeps:
  assumes "getWorkingUnitLatitude fc s = Inr (w, s')"
  shows "(edgeView s', u s', v s') = (edgeView s, u s, v s)"
proof (cases "falsy (workingUnitLatitude s)")
  case True
  with assms have "s' = s\<lparr>workingUnitLatitude := Some w\<rparr>"
    by (cases "pydiv fc MAX_q (fsub fc (north s) (south s))") (simp_all add: getWorkingUnitLatitude_def)
  then show ?thesis by (simp add: edgeView_def)
next
  case False
  with assms have "s' = s"
    by (cases "workingUnitLatitude s") (simp_all add: getWorkingUnitLatitude_def)
  then show ?thesis by simp
qed

lemma getDeltaHeight_keeps:
  assumes "getDeltaHeight fc s = Inr (d, s')"
  shows "(edgeView s', u s', v s') = (edgeView s, u s, v s)"
proof (cases "falsy (deltaHeight s)")
  case True
  with assms have "s' = s\<lparr>deltaHeight := Some d\<rparr>"
    by (cases "getkey (header s) ''maximumHeight''"; cases "getkey (header s) ''minimumHeight''")
       (simp_all add: getDeltaHeight_def)
  then show ?thesis by (simp add: edgeView_def)
next
  case False
  with assms have "s' = s"
    by (cases "deltaHeight s") (simp_all add: getDeltaHeight_def)
  then show ?thesis by simp
qed

lemma quantizeLongitude_keeps:
  assumes "quantizeLongitude fc s x = Inr (y, s')"
  shows "(edgeView s', u s', v s') = (edgeView s, u s, v s)"
proof -
  from assms obtain w where "getWorkingUnitLongitude fc s = Inr (w, s')"
    by (cases "getWorkingUnitLongitude fc s") (auto simp: quantizeLongitude_def)
  then show ?thesis by (rule getWorkingUnitLongitude_keeps)
qed

lemma quantizeLatitude_keeps:
  assumes "quantizeLatitude fc s x = Inr (y, s')"
  shows "(edgeView s', u s', v s') = (edgeView s, u s, v s)"
proof -
  from assms obtain w where "getWorkingUnitLatitude fc s = Inr (w, s')"
    by (cases "getWorkingUnitLatitude fc s") (auto simp: quantizeLatitude_def)
  then show ?thesis by (rule getWorkingUnitLatitude_keeps)
qed

lemma quantizeHeight_keeps:
  assumes "quantizeHeight fc s x = Inr (y, s')"
  shows "(edgeView s', u s', v s') = (edgeView s, u s, v s)"
proof -
  from assms obtain d s1 where g: "getDeltaHeight fc s = Inr (d, s1)"
    by (cases "getDeltaHeight fc s") (auto simp: quantizeHeight_def)
  have "s' = s1"
  proof (cases "d = 0")
    case True
    with assms g show ?thesis by (simp add: quantizeHeight_def)
  next
    case False
    with assms g show ?thesis
      by (cases "pydiv fc MAX_q d"; cases "getkey (header s1) ''minimumHeight''")
         (simp_all add: quantizeHeight_def)
  qed
  with g show ?thesis using getDeltaHeight_keeps by blast
qed

lemma fromTerrainTopology_edgeLoop:
  assumes "fromTerrainTopology fc self topo bounds = Inr self'"
  shows "\<exists>s s4. edgeLoop (indexData topo) s = Inr s4 \<and> edgeView s = edgeView self
           \<and> indices self' = indexData topo
           \<and> u self' = u s \<and> v self' = v s \<and> edgeView self' = edgeView s4"
proof -
  define s0 where "s0 = selectBounds self topo bounds"
  have e0: "edgeView s0 = edgeView self"
    by (simp add: s0_def selectBounds_def edgeView_def split: option.splits prod.splits)
  note d = fromTerrainTopology_def Let_def s0_def[symmetric]
  obtain bs where bs: "bSphereFromPoints fc (cartesianVertices topo) = Inr bs"
    using assms by (cases "bSphereFromPoints fc (cartesianVertices topo)") (simp_all add: d)
  obtain oc where oc: "occFromPoints fc (cartesianVertices topo) bs = Inr oc"
    using assms by (cases "occFromPoints fc (cartesianVertices topo) bs") (simp_all add: d bs)
  define hdr where "hdr = headerFromTopology fc s0 topo bs oc"
  obtain us s1 where q1: "quantizeAll (quantizeLongitude fc) (s0\<lparr>header := hdr\<rparr>) (uVertex topo) = Inr (us, s1)"
    using assms by (cases "quantizeAll (quantizeLongitude fc) (s0\<lparr>header := hdr\<rparr>) (uVertex topo)")
      (auto simp add: d bs oc hdr_def)
  obtain vs s2 where q2: "quantizeAll (quantizeLatitude fc) (s1\<lparr>u := us\<rparr>) (vVertex topo) = Inr (vs, s2)"
    using assms q1 by (cases "quantizeAll (quantizeLatitude fc) (s1\<lparr>u := us\<rparr>) (vVertex topo)")
      (auto simp add: d bs oc hdr_def)
  obtain hs s3 where q3: "quantizeAll (quantizeHeight fc) (s2\<lparr>v := vs\<rparr>) (hVertex topo) = Inr (hs, s3)"
    using assms q1 q2 by (cases "quantizeAll (quantizeHeight fc) (s2\<lparr>v := vs\<rparr>) (hVertex topo)")
      (auto simp add: d bs oc hdr_def)
  obtain s4 where el: "edgeLoop (indexData topo) (s3\<lparr>h := hs, indices := indexData topo\<rparr>) = Inr s4"
    using assms q1 q2 q3 by (cases "edgeLoop (indexData topo) (s3\<lparr>h := hs, indices := indexData topo\<rparr>)")
      (auto simp add: d bs oc hdr_def)
  have res: "self' = (if topoHasLighting topo
                   then s4\<lparr>hasLighting := Some (topoHasLighting topo), vLight := verticesUnitVectors topo\<rparr>
                   else s4\<lparr>hasLighting := Some (topoHasLighting topo)\<rparr>)"
    using assms q1 q2 q3 el by (simp add: d bs oc hdr_def)
  have k1: "(edgeView s1, u s1, v s1) = (edgeView (s0\<lparr>header := hdr\<rparr>), u (s0\<lparr>header := hdr\<rparr>), v (s0\<lparr>header := hdr\<rparr>))"
    using quantizeAll_keeps[of "quantizeLongitude fc" "\<lambda>s. (edgeView s, u s, v s)", OF quantizeLongitude_keeps q1] .
  have k2: "(edgeView s2, u s2, v s2) = (edgeView (s1\<lparr>u := us\<rparr>), u (s1\<lparr>u := us\<rparr>), v (s1\<lparr>u := us\<rparr>))"
    using quantizeAll_keeps[of "quantizeLatitude fc" "\<lambda>s. (edgeView s, u s, v s)", OF quantizeLatitude_keeps q2] .
  have k3: "(edgeView s3, u s3, v s3) = (edgeView (s2\<lparr>v := vs\<rparr>), u (s2\<lparr>v := vs\<rparr>), v (s2\<lparr>v := vs\<rparr>))"
    using quantizeAll_keeps[of "quantizeHeight fc" "\<lambda>s. (edgeView s, u s, v s)", OF quantizeHeight_keeps q3] .
  let ?s = "s3\<lparr>h := hs, indices := indexData topo\<rparr>"
  have ev: "edgeView ?s = edgeView self"
    using k1 k2 k3 e0 by (simp add: edgeView_def)
  have ix: "indices s4 = indexData topo"
    using edgeLoop_indices[OF el] by simp
  have uv: "u s4 = u ?s" "v s4 = v ?s"
    using edgeLoop_lists[OF el] by simp_all
  have "indices self' = indexData topo \<and> u self' = u ?s \<and> v self' = v ?s \<and> edgeView self' = edgeView s4"
    using res ix uv by (simp add: edgeView_def)
  with el ev show ?thesis by blast
qed



subsection \<open>The edge lists after the call\<close>

lemma built_call:
  "fromTerrainTopology sampleEnv (emptyTile noArgs) sampleTopology None = Inr builtTile"
proof -
  have "emptyTile (noArgs\<lparr>kwTopology := Some sampleTopology\<rparr>) = emptyTile noArgs"
    by (simp add: emptyTile_def noArgs_def)
  then have "TerrainTile sampleEnv (noArgs\<lparr>kwTopology := Some sampleTopology\<rparr>)
         = fromTerrainTopology sampleEnv (emptyTile noArgs) sampleTopology None"
    by (simp add: TerrainTile_def)
  with built show ?thesis by simp
qed

text \<open>
  Claim C7, amended. \<^verbatim>\<open>fromTerrainTopology\<close> only appends to the four edge lists. After
  the call \<open>westI\<close> is the list it was before, followed by the indices of the triangle
  list whose quantized \<open>u\<close> is 0 and which were not in the list, in the order of their
  first occurrence; \<open>eastI\<close> likewise for \<open>u = 32767\<close>, \<open>southI\<close> for \<open>v = 0\<close> and \<open>northI\<close>
  for \<open>v = 32767\<close>. On a tile whose four edge lists were empty before the call (every tile
  the constructor makes) each list therefore holds exactly the indices of the triangle
  list on its edge, each once and in the order of first occurrence, and no index is in
  both \<open>westI\<close> and \<open>eastI\<close>.
\<close>

theorem fromTerrainTopology_edges:
  assumes "fromTerrainTopology fc self topo bounds = Inr self'"
  shows "westI self' = westI self @ filter (\<lambda>i. i \<notin> set (westI self))
            (firstEncountered (filter (\<lambda>i. getidx (u self') i = Inr 0) (indices self')))
       \<and> eastI self' = eastI self @ filter (\<lambda>i. i \<notin> set (eastI self))
            (firstEncountered (filter (\<lambda>i. getidx (u self') i = Inr 32767) (indices self')))
       \<and> southI self' = southI self @ filter (\<lambda>i. i \<notin> set (southI self))
            (firstEncountered (filter (\<lambda>i. getidx (v self') i = Inr 0) (indices self')))
       \<and> northI self' = northI self @ filter (\<lambda>i. i \<notin> set (northI self))
            (firstEncountered (filter (\<lambda>i. getidx (v self') i = Inr 32767) (indices self')))
       \<and> (westI self = [] \<and> southI self = [] \<and> eastI self = [] \<and> northI self = [] \<longrightarrow>
            westI self' = firstEncountered (filter (\<lambda>i. getidx (u self') i = Inr 0) (indices self'))
          \<and> eastI self' = firstEncountered (filter (\<lambda>i. getidx (u self') i = Inr 32767) (indices self'))
          \<and> southI self' = firstEncountered (filter (\<lambda>i. getidx (v self') i = Inr 0) (indices self'))
          \<and> northI self' = firstEncountered (filter (\<lambda>i. getidx (v self') i = Inr 32767) (indices self'))
          \<and> distinct (westI self') \<and> distinct (eastI self')
          \<and> distinct (southI self') \<and> distinct (northI self')
          \<and> set (westI self') = {i \<in> set (indices self'). getidx (u self') i = Inr 0}
          \<and> set (eastI self') = {i \<in> set (indices self'). getidx (u self') i = Inr 32767}
          \<and> set (southI self') = {i \<in> set (indices self'). getidx (v self') i = Inr 0}
          \<and> set (northI self') = {i \<in> set (indices self'). getidx (v self') i = Inr 32767}
          \<and> set (westI self') \<inter> set (eastI self') = {})"
proof -
  from fromTerrainTopology_edgeLoop[OF assms(1)] obtain s s4 where
    el: "edgeLoop (indexData topo) s = Inr s4" and ev: "edgeView s = edgeView self"
    and ix: "indices self' = indexData topo" and uv: "u self' = u s" "v self' = v s"
    and ev': "edgeView self' = edgeView s4" by blast
  have em: "westI s = westI self" "southI s = southI self" "eastI s = eastI self"
    "northI s = northI self"
    using ev by (simp_all add: edgeView_def)
  have r: "westI s4 = westI self'" "southI s4 = southI self'" "eastI s4 = eastI self'"
    "northI s4 = northI self'"
    using ev' by (simp_all add: edgeView_def)
  note l = edgeLoop_lists[OF el, unfolded em r fold_append_new, folded uv ix]
  from l have w: "westI self' = westI self @ filter (\<lambda>i. i \<notin> set (westI self))
            (firstEncountered (filter (\<lambda>i. getidx (u self') i = Inr 0) (indices self')))"
    and e: "eastI self' = eastI self @ filter (\<lambda>i. i \<notin> set (eastI self))
            (firstEncountered (filter (\<lambda>i. getidx (u self') i = Inr 32767) (indices self')))"
    and s: "southI self' = southI self @ filter (\<lambda>i. i \<notin> set (southI self))
            (firstEncountered (filter (\<lambda>i. getidx (v self') i = Inr 0) (indices self')))"
    and n: "northI self' = northI self @ filter (\<lambda>i. i \<notin> set (northI self))
            (firstEncountered (filter (\<lambda>i. getidx (v self') i = Inr 32767) (indices self')))"
    by blast+
  have fresh: "westI self' = firstEncountered (filter (\<lambda>i. getidx (u self') i = Inr 0) (indices self'))
          \<and> eastI self' = firstEncountered (filter (\<lambda>i. getidx (u self') i = Inr 32767) (indices self'))
          \<and> southI self' = firstEncountered (filter (\<lambda>i. getidx (v self') i = Inr 0) (indices self'))
          \<and> northI self' = firstEncountered (filter (\<lambda>i. getidx (v self') i = Inr 32767) (indices self'))
          \<and> distinct (westI self') \<and> distinct (eastI self')
          \<and> distinct (southI self') \<and> distinct (northI self')
          \<and> set (westI self') = {i \<in> set (indices self'). getidx (u self') i = Inr 0}
          \<and> set (eastI self') = {i \<in> set (indices self'). getidx (u self') i = Inr 32767}
          \<and> set (southI self') = {i \<in> set (indices self'). getidx (v self') i = Inr 0}
          \<and> set (northI self') = {i \<in> set (indices self'). getidx (v self') i = Inr 32767}
          \<and> set (westI self') \<inter> set (eastI self') = {}"
    if em: "westI self = [] \<and> southI self = [] \<and> eastI self = [] \<and> northI self = []"
  proof -
    have w': "westI self' = firstEncountered (filter (\<lambda>i. getidx (u self') i = Inr 0) (indices self'))"
      and e': "eastI self' = firstEncountered (filter (\<lambda>i. getidx (u self') i = Inr 32767) (indices self'))"
      and s': "southI self' = firstEncountered (filter (\<lambda>i. getidx (v self') i = Inr 0) (indices self'))"
      and n': "northI self' = firstEncountered (filter (\<lambda>i. getidx (v self') i = Inr 32767) (indices self'))"
      using w e s n em by simp_all
    have d: "distinct (westI self') \<and> distinct (eastI self') \<and> distinct (southI self') \<and> distinct (northI self')"
      by (simp add: w' e' s' n')
    have sets: "set (westI self') = {i \<in> set (indices self'). getidx (u self') i = Inr 0}"
       "set (eastI self') = {i \<in> set (indices self'). getidx (u self') i = Inr 32767}"
       "set (southI self') = {i \<in> set (indices self'). getidx (v self') i = Inr 0}"
       "set (northI self') = {i \<in> set (indices self'). getidx (v self') i = Inr 32767}"
      by (simp_all add: w' e' s' n')
    have dj: "set (westI self') \<inter> set (eastI self') = {}"
      unfolding sets by auto
    from w' e' s' n' d sets dj show ?thesis by simp
  qed
  from w e s n fresh show ?thesis by blast
qed

theorem fromTerrainTopology_edges_witness:
  "fromTerrainTopology sampleEnv (emptyTile noArgs) sampleTopology None = Inr builtTile
   \<and> indices builtTile = [0, 1, 2, 1, 3, 2]
   \<and> u builtTile = [0, 32767, 0, 32767] \<and> v builtTile = [0, 0, 32767, 32767]
   \<and> westI builtTile = [0, 2] \<and> eastI builtTile = [1, 3]
   \<and> southI builtTile = [0, 1] \<and> northI builtTile = [2, 3]
   \<and> westI builtTile = firstEncountered (filter (\<lambda>i. getidx (u builtTile) i = Inr 0) (indices builtTile))
   \<and> eastI builtTile = firstEncountered (filter (\<lambda>i. getidx (u builtTile) i = Inr 32767) (indices builtTile))
   \<and> southI builtTile = firstEncountered (filter (\<lambda>i. getidx (v builtTile) i = Inr 0) (indices builtTile))
   \<and> northI builtTile = firstEncountered (filter (\<lambda>i. getidx (v builtTile) i = Inr 32767) (indices builtTile))
   \<and> set (westI builtTile) \<inter> set (eastI builtTile) = {}"
proof -
  have e: "westI (emptyTile noArgs) = [] \<and> southI (emptyTile noArgs) = []
      \<and> eastI (emptyTile noArgs) = [] \<and> northI (emptyTile noArgs) = []"
    by simp
  note th = fromTerrainTopology_edges[OF built_call]
  from th e built_call builtTile_fields(8-15) show ?thesis by blast
qed

text \<open>
  On \<open>rebuiltTile\<close> the claim fails: the tile built from \<open>sampleTopology\<close> was built again
  from the mirrored topology. The lists keep the indices of the first call, so \<open>westI\<close>
  holds the vertices 0 and 2, whose \<open>u\<close> is now 32767, and all four vertices are in both
  \<open>westI\<close> and \<open>eastI\<close>, on a tile from longitude 0 to 1.
\<close>

theorem fromTerrainTopology_edges_counterexample:
  "TerrainTile sampleEnv (noArgs\<lparr>kwTopology := Some sampleTopology\<rparr>) = Inr builtTile
   \<and> fromTerrainTopology sampleEnv builtTile mirroredTopology None = Inr rebuiltTile
   \<and> west rebuiltTile = 0 \<and> east rebuiltTile = 1
   \<and> indices rebuiltTile = [0, 1, 2, 1, 3, 2]
   \<and> u rebuiltTile = [32767, 0, 32767, 0]
   \<and> westI rebuiltTile = [0, 2, 1, 3]
   \<and> eastI rebuiltTile = [1, 3, 0, 2]"
  using built rebuilt rebuiltTile_fields(1,2,7,4,8,10) by blast

end
